(* ===== verification/Ind_Base.thy ===== *)
theory Ind_Base
  imports Complex_Main "HOL-Library.Word" "HOL-Library.Char_ord" "HOL-Library.List_Lexorder"
    "HOL-Library.Sublist"
begin

text \<open>
  The prelude of the development: the result type of code that may throw, the loops
  over it, and the facts on lists, characters and words that the components share.

  A C++ function that may throw returns a value of \<open>error + 'a\<close>: \<open>Inl\<close> for the
  exception that leaves it, \<open>Inr\<close> for the value it returns.  \<open>Runtime\<close> is
  \<^verbatim>\<open>std::runtime_error\<close> with its message; the three \<open>Json_\<close> constructors are the
  exception classes of the JSON library that the code can meet
  (\<^verbatim>\<open>type_error\<close>, \<^verbatim>\<open>out_of_range\<close>, \<^verbatim>\<open>parse_error\<close>); \<open>Std_Out_Of_Range\<close>
  is what \<^verbatim>\<open>std::string::substr\<close> and the \<^verbatim>\<open>at\<close> of the standard containers throw;
  \<open>Fs_Error\<close> is \<^verbatim>\<open>std::filesystem::filesystem_error\<close>;
  \<open>Rate_Limit\<close> is the \<^verbatim>\<open>ModelRateLimitError\<close> of the model client.
\<close>

datatype error =
    Runtime string
  | Json_Type
  | Json_Out_Of_Range
  | Json_Parse
  | Std_Out_Of_Range
  | Fs_Error
  | Rate_Limit nat

type_synonym 'a res = "error + 'a"

abbreviation throw :: "string \<Rightarrow> 'a res" where
  "throw msg \<equiv> Inl (Runtime msg)"

named_theorems res_simps \<open>evaluation of sequences of calls that may throw\<close>
named_theorems res_elims \<open>inversion of calls that returned\<close>
named_theorems json_simps \<open>evaluation of accesses to JSON values\<close>
named_theorems wf_intros \<open>preservation of well-formedness\<close>

section \<open>Sequencing calls that may throw\<close>

definition bindE :: "'a res \<Rightarrow> ('a \<Rightarrow> 'b res) \<Rightarrow> 'b res" where
  "bindE m f = (case m of Inl e \<Rightarrow> Inl e | Inr x \<Rightarrow> f x)"

lemma bindE_Inl [simp, res_simps]: "bindE (Inl e) f = Inl e"
  by (simp add: bindE_def)

lemma bindE_Inr [simp, res_simps]: "bindE (Inr x) f = f x"
  by (simp add: bindE_def)

lemma bindE_eq_Inr: "bindE m f = Inr y \<longleftrightarrow> (\<exists>x. m = Inr x \<and> f x = Inr y)"
  by (cases m) simp_all

lemma bindE_eq_Inl:
  "bindE m f = Inl e \<longleftrightarrow> m = Inl e \<or> (\<exists>x. m = Inr x \<and> f x = Inl e)"
  by (cases m) simp_all

lemma bindE_InrE [elim!, res_elims]:
  assumes "bindE m f = Inr y"
  obtains x where "m = Inr x" and "f x = Inr y"
  using assms by (auto simp: bindE_eq_Inr)

lemma bindE2_InrE [elim!]:
  assumes "bindE m (\<lambda>(a, b). f a b) = Inr y"
  obtains a b where "m = Inr (a, b)" and "f a b = Inr y"
  using assms by (auto simp: bindE_eq_Inr)

lemma bindE3_InrE [elim!]:
  assumes "bindE m (\<lambda>(a, b, c). f a b c) = Inr y"
  obtains a b c where "m = Inr (a, b, c)" and "f a b c = Inr y"
  using assms by (auto simp: bindE_eq_Inr)

lemma bindE_assoc: "bindE (bindE m f) g = bindE m (\<lambda>x. bindE (f x) g)"
  by (cases m) simp_all

lemma bindE_cong [fundef_cong]:
  "m = m' \<Longrightarrow> (\<And>x. m' = Inr x \<Longrightarrow> f x = g x) \<Longrightarrow> bindE m f = bindE m' g"
  by (cases m') simp_all

text \<open>\<^verbatim>\<open>if (c) throw std::runtime_error(msg);\<close> before the rest of the block.\<close>

definition throw_if :: "bool \<Rightarrow> string \<Rightarrow> 'a res \<Rightarrow> 'a res" where
  "throw_if c msg rest = (if c then throw msg else rest)"

lemma throw_if_simps [simp, res_simps]:
  "throw_if True msg rest = throw msg"
  "throw_if False msg rest = rest"
  by (simp_all add: throw_if_def)

lemma throw_if_eq_Inr [simp]: "throw_if c msg rest = Inr y \<longleftrightarrow> \<not> c \<and> rest = Inr y"
  by (simp add: throw_if_def)

lemma throw_if_InrE:
  assumes "throw_if c msg r = Inr y"
  obtains "\<not> c" and "r = Inr y"
  using assms by (simp add: throw_if_def split: if_splits)

lemmas bindE_elims = throw_if_InrE bindE3_InrE bindE2_InrE bindE_InrE

lemma throw_if_cong [fundef_cong]:
  "c = c' \<Longrightarrow> msg = msg' \<Longrightarrow> (\<not> c' \<Longrightarrow> r = r') \<Longrightarrow> throw_if c msg r = throw_if c' msg' r'"
  by (simp add: throw_if_def)

definition is_ok :: "'a res \<Rightarrow> bool" where
  "is_ok r = (case r of Inl _ \<Rightarrow> False | Inr _ \<Rightarrow> True)"

lemma is_ok_simps [simp]: "is_ok (Inr x)" "\<not> is_ok (Inl e)"
  by (simp_all add: is_ok_def)

lemma is_ok_iff: "is_ok r \<longleftrightarrow> (\<exists>x. r = Inr x)"
  by (cases r) simp_all

text \<open>A disjunction of conditions, each evaluated only when the earlier ones are false.\<close>

fun any_differs :: "bool res list \<Rightarrow> bool res" where
  "any_differs [] = Inr False"
| "any_differs (c # cs) = bindE c (\<lambda>b. if b then Inr True else any_differs cs)"

lemma any_differs_False: "any_differs cs = Inr False \<longleftrightarrow> (\<forall>c \<in> set cs. c = Inr False)"
  by (induction cs) (auto split: if_splits)

section \<open>Loops over a container\<close>

text \<open>
  \<open>foldE f xs s\<close> is a range-based for loop whose body may throw and updates the state
  \<open>s\<close>; \<open>mapE\<close> collects one result per element, in order.
\<close>

fun foldE :: "('a \<Rightarrow> 's \<Rightarrow> 's res) \<Rightarrow> 'a list \<Rightarrow> 's \<Rightarrow> 's res" where
  "foldE f [] s = Inr s"
| "foldE f (x # xs) s = bindE (f x s) (foldE f xs)"

fun mapE :: "('a \<Rightarrow> 'b res) \<Rightarrow> 'a list \<Rightarrow> 'b list res" where
  "mapE f [] = Inr []"
| "mapE f (x # xs) = bindE (f x) (\<lambda>y. bindE (mapE f xs) (\<lambda>ys. Inr (y # ys)))"

lemma foldE_append: "foldE f (xs @ ys) s = bindE (foldE f xs s) (foldE f ys)"
proof (induction xs arbitrary: s)
  case Nil
  then show ?case by simp
next
  case (Cons x xs)
  then show ?case by (cases "f x s") simp_all
qed

lemma foldE_cong [fundef_cong]:
  assumes "xs = ys" and "s = t" and "\<And>x u. x \<in> set ys \<Longrightarrow> f x u = g x u"
  shows "foldE f xs s = foldE g ys t"
proof -
  have "foldE f ys t = foldE g ys t"
    using assms(3)
  proof (induction ys arbitrary: t)
    case Nil
    then show ?case by simp
  next
    case (Cons y ys)
    have "f y t = g y t"
      by (rule Cons.prems) simp
    moreover have "foldE f ys u = foldE g ys u" for u
      by (rule Cons.IH) (rule Cons.prems, simp)
    ultimately show ?case
      by (cases "g y t") simp_all
  qed
  then show ?thesis
    using assms(1,2) by simp
qed

lemma mapE_cong [fundef_cong]:
  assumes "xs = ys" and "\<And>x. x \<in> set ys \<Longrightarrow> f x = g x"
  shows "mapE f xs = mapE g ys"
proof -
  have "mapE f ys = mapE g ys"
    using assms(2) by (induction ys) simp_all
  then show ?thesis
    using assms(1) by simp
qed

text \<open>The loop rule: what every returning iteration keeps, the returning loop keeps.\<close>

lemma foldE_invariant:
  assumes "foldE f xs s = Inr t" and "P s"
    and "\<And>x u v. x \<in> set xs \<Longrightarrow> P u \<Longrightarrow> f x u = Inr v \<Longrightarrow> P v"
  shows "P t"
  using assms
proof (induction xs arbitrary: s)
  case Nil
  then show ?case by simp
next
  case (Cons x xs)
  from Cons.prems(1) obtain u where u: "f x s = Inr u" and rest: "foldE f xs u = Inr t"
    by auto
  have "P u"
    by (rule Cons.prems(3) [OF _ Cons.prems(2) u]) simp
  then show ?case
    by (rule Cons.IH [OF rest]) (rule Cons.prems(3), simp_all)
qed

text \<open>If every iteration returns where the invariant holds, so does the loop.\<close>

lemma foldE_total:
  assumes "P s" and "\<And>x u. x \<in> set xs \<Longrightarrow> P u \<Longrightarrow> \<exists>v. f x u = Inr v \<and> P v"
  shows "\<exists>t. foldE f xs s = Inr t \<and> P t"
  using assms
proof (induction xs arbitrary: s)
  case Nil
  then show ?case by simp
next
  case (Cons x xs)
  from Cons.prems(2) [of x s] Cons.prems(1) obtain v where "f x s = Inr v" "P v"
    by auto
  moreover have "\<exists>t. foldE f xs v = Inr t \<and> P t"
    by (rule Cons.IH [OF \<open>P v\<close>]) (rule Cons.prems(2), simp_all)
  ultimately show ?case by auto
qed

text \<open>Every element of a returning loop was accepted by the body at some state.\<close>

lemma foldE_each:
  assumes "foldE f xs s = Inr t" and "x \<in> set xs"
  shows "\<exists>u v. f x u = Inr v"
  using assms by (induction xs arbitrary: s) auto

lemma mapE_length [simp]: "mapE f xs = Inr ys \<Longrightarrow> length ys = length xs"
  by (induction xs arbitrary: ys) auto

lemma mapE_nth:
  "mapE f xs = Inr ys \<Longrightarrow> i < length xs \<Longrightarrow> f (xs ! i) = Inr (ys ! i)"
proof (induction xs arbitrary: ys i)
  case Nil
  then show ?case by simp
next
  case (Cons x xs)
  then show ?case by (cases i) auto
qed

lemma mapE_set:
  "mapE f xs = Inr ys \<Longrightarrow> y \<in> set ys \<Longrightarrow> \<exists>x \<in> set xs. f x = Inr y"
  by (induction xs arbitrary: ys) auto

lemma mapE_pure: "(\<And>x. x \<in> set xs \<Longrightarrow> f x = Inr (g x)) \<Longrightarrow> mapE f xs = Inr (map g xs)"
  by (induction xs) auto

section \<open>Searching tables\<close>

lemma find_SomeD: "find P xs = Some x \<Longrightarrow> x \<in> set xs \<and> P x"
  by (induction xs) (auto split: if_splits)

lemma find_append: "find P (xs @ ys) = (case find P xs of Some x \<Rightarrow> Some x | None \<Rightarrow> find P ys)"
  by (induction xs) simp_all

lemma find_map_same:
  "(\<And>x. x \<in> set xs \<Longrightarrow> P (f x) = P x) \<Longrightarrow> find P (map f xs) = map_option f (find P xs)"
  by (induction xs) auto

lemma find_in_distinct:
  "distinct (map f xs) \<Longrightarrow> x \<in> set xs \<Longrightarrow> find (\<lambda>y. f y = f x) xs = Some x"
  by (induction xs) (auto simp: image_iff split: if_splits)

lemma find_filter: "find P (filter Q xs) = find (\<lambda>x. Q x \<and> P x) xs"
  by (induction xs) auto

lemma find_numbered:
  assumes "map f xs = [1..<Suc (length xs)]"
  shows "find (\<lambda>x. f x = n) xs = (if 0 < n \<and> n \<le> length xs then Some (xs ! (n - 1)) else None)"
proof -
  have f: "f (xs ! i) = Suc i" if "i < length xs" for i
    using arg_cong[OF assms, of "\<lambda>ys. ys ! i"] that by (simp del: upt_Suc)
  show ?thesis
  proof (cases "0 < n \<and> n \<le> length xs")
    case True
    then have "n - 1 < length xs" "f (xs ! (n - 1)) = n" using f[of "n - 1"] by auto
    moreover have "f (xs ! j) \<noteq> n" if "j < n - 1" for j
    proof -
      have "j < length xs" using that True by linarith
      then show ?thesis using f[of j] that by linarith
    qed
    ultimately have "\<exists>i<length xs. f (xs ! i) = n \<and> xs ! (n - 1) = xs ! i \<and> (\<forall>j<i. f (xs ! j) \<noteq> n)" by blast
    then show ?thesis using True by (subst find_Some_iff[THEN iffD2]) auto
  next
    case False
    have "f x \<noteq> n" if x: "x \<in> set xs" for x
    proof -
      obtain i where "i < length xs" "x = xs ! i" using x by (auto simp: in_set_conv_nth)
      then show ?thesis using f[of i] False by auto
    qed
    then show ?thesis using False by (auto simp: find_None_iff)
  qed
qed

section \<open>Strings of bytes\<close>

text \<open>
  A \<^verbatim>\<open>std::string\<close> is a list of bytes, and HOL's \<open>char\<close> is a byte.
  \<open>str_find\<close> is \<^verbatim>\<open>find\<close> (\<open>None\<close> is \<^verbatim>\<open>npos\<close>), \<open>substr\<close> is
  \<^verbatim>\<open>substr(pos, count)\<close> with its exception, \<open>only_of cs s\<close> is
  \<^verbatim>\<open>s.find_first_not_of(cs) == npos\<close>.
\<close>

abbreviation ord :: "char \<Rightarrow> nat" where
  "ord c \<equiv> of_char c"

definition only_of :: "string \<Rightarrow> string \<Rightarrow> bool" where
  "only_of cs s = list_all (\<lambda>c. c \<in> set cs) s"

lemma only_of_iff: "only_of cs s \<longleftrightarrow> set s \<subseteq> set cs"
  by (auto simp: only_of_def list_all_iff)

lemma only_of_simps [simp]:
  "only_of cs []"
  "only_of cs (c # s) \<longleftrightarrow> c \<in> set cs \<and> only_of cs s"
  "only_of cs (s @ t) \<longleftrightarrow> only_of cs s \<and> only_of cs t"
  by (auto simp: only_of_def)

definition starts_with :: "string \<Rightarrow> string \<Rightarrow> bool" where
  "starts_with s p = (take (length p) s = p)"

lemma starts_with_iff: "starts_with s p \<longleftrightarrow> (\<exists>t. s = p @ t)"
  by (metis append_eq_conv_conj append_take_drop_id starts_with_def)

definition ends_with :: "string \<Rightarrow> string \<Rightarrow> bool" where
  "ends_with s p = (length p \<le> length s \<and> drop (length s - length p) s = p)"

fun str_find_at :: "nat \<Rightarrow> string \<Rightarrow> string \<Rightarrow> nat option" where
  "str_find_at i p s =
     (if starts_with s p then Some i
      else (case s of [] \<Rightarrow> None | _ # t \<Rightarrow> str_find_at (Suc i) p t))"

declare str_find_at.simps [simp del]

definition str_find :: "string \<Rightarrow> string \<Rightarrow> nat option" where
  "str_find p s = str_find_at 0 p s"

text \<open>\<^verbatim>\<open>s.find(p, from)\<close>.\<close>

definition str_find_from :: "string \<Rightarrow> string \<Rightarrow> nat \<Rightarrow> nat option" where
  "str_find_from p s from =
     (if from > length s then None else str_find_at from p (drop from s))"

definition substr :: "string \<Rightarrow> nat \<Rightarrow> nat \<Rightarrow> string res" where
  "substr s pos n = (if pos > length s then Inl Std_Out_Of_Range else Inr (take n (drop pos s)))"

lemma str_find_at_Some:
  "str_find_at i p s = Some k \<Longrightarrow>
     i \<le> k \<and> k - i \<le> length s \<and> starts_with (drop (k - i) s) p"
proof (induction i p s rule: str_find_at.induct)
  case (1 i p s)
  show ?case
  proof (cases "starts_with s p")
    case True
    with 1 show ?thesis by (simp add: str_find_at.simps [of i p s])
  next
    case False
    with "1.prems" obtain c t where s: "s = c # t" and r: "str_find_at (Suc i) p t = Some k"
      by (auto simp: str_find_at.simps [of i p s] split: list.splits)
    from "1.IH" [OF False s r] s show ?thesis
      by (cases "k - i") (auto simp: Suc_diff_le diff_Suc split: nat.splits)
  qed
qed

lemma str_find_at_first:
  "str_find_at i p s = Some k \<Longrightarrow> j < k - i \<Longrightarrow> \<not> starts_with (drop j s) p"
proof (induction i p s arbitrary: j rule: str_find_at.induct)
  case (1 i p s)
  show ?case
  proof (cases "starts_with s p")
    case True
    with 1 show ?thesis by (simp add: str_find_at.simps [of i p s])
  next
    case False
    with "1.prems" obtain c t where s: "s = c # t" and r: "str_find_at (Suc i) p t = Some k"
      by (auto simp: str_find_at.simps [of i p s] split: list.splits)
    show ?thesis
    proof (cases j)
      case 0
      with False show ?thesis by simp
    next
      case (Suc j')
      with "1.prems" have "j' < k - Suc i" by simp
      from "1.IH" [OF False s r this] Suc s show ?thesis by simp
    qed
  qed
qed

lemma str_find_at_None: "str_find_at i p s = None \<Longrightarrow> \<not> starts_with (drop j s) p \<or> length s < j"
proof (induction i p s arbitrary: j rule: str_find_at.induct)
  case (1 i p s)
  then have False: "\<not> starts_with s p"
    by (auto simp: str_find_at.simps [of i p s] split: if_splits)
  show ?case
  proof (cases s)
    case Nil
    with False show ?thesis by (cases j) auto
  next
    case (Cons c t)
    with "1.prems" False have r: "str_find_at (Suc i) p t = None"
      by (simp add: str_find_at.simps [of i p "c # t"])
    show ?thesis
      using "1.IH" [OF False Cons r, of "j - 1"] False Cons by (cases j) auto
  qed
qed

text \<open>ASCII case folding and classes, as the \<^verbatim>\<open>cctype\<close> functions of the C locale give them.\<close>

definition is_upper :: "char \<Rightarrow> bool" where
  "is_upper c = (65 \<le> ord c \<and> ord c \<le> 90)"

definition is_lower :: "char \<Rightarrow> bool" where
  "is_lower c = (97 \<le> ord c \<and> ord c \<le> 122)"

definition is_digit :: "char \<Rightarrow> bool" where
  "is_digit c = (48 \<le> ord c \<and> ord c \<le> 57)"

definition is_alnum :: "char \<Rightarrow> bool" where
  "is_alnum c = (is_upper c \<or> is_lower c \<or> is_digit c)"

definition is_space :: "char \<Rightarrow> bool" where
  "is_space c = (ord c = 32 \<or> (9 \<le> ord c \<and> ord c \<le> 13))"

definition tolower :: "char \<Rightarrow> char" where
  "tolower c = (if is_upper c then char_of (ord c + 32) else c)"

definition toupper :: "char \<Rightarrow> char" where
  "toupper c = (if is_lower c then char_of (ord c - 32) else c)"

definition lower_string :: "string \<Rightarrow> string" where
  "lower_string s = map tolower s"

definition upper_string :: "string \<Rightarrow> string" where
  "upper_string s = map toupper s"

lemma ord_less_256 [simp]: "ord c < 256"
proof -
  have "ord c \<in> range (of_char :: char \<Rightarrow> nat)" by simp
  then show ?thesis by (simp add: range_nat_of_char)
qed

lemma ord_char_of [simp]: "n < 256 \<Longrightarrow> ord (char_of n) = n"
  by simp

lemma tolower_idem [simp]: "tolower (tolower c) = tolower c"
  by (auto simp: tolower_def is_upper_def)

lemma length_lower_string [simp]: "length (lower_string s) = length s"
  by (simp add: lower_string_def)

lemma lower_string_idem [simp]: "lower_string (lower_string s) = lower_string s"
  by (simp add: lower_string_def)

section \<open>Machine words\<close>

type_synonym u8 = "8 word"
type_synonym u16 = "16 word"
type_synonym u32 = "32 word"
type_synonym u64 = "64 word"

definition bytes_of :: "string \<Rightarrow> u8 list" where
  "bytes_of s = map (\<lambda>c. word_of_nat (ord c)) s"

definition string_of :: "u8 list \<Rightarrow> string" where
  "string_of bs = map (\<lambda>b. char_of (unat b)) bs"

lemma length_bytes_of [simp]: "length (bytes_of s) = length s"
  by (simp add: bytes_of_def)

lemma length_string_of [simp]: "length (string_of bs) = length bs"
  by (simp add: string_of_def)

lemma string_of_bytes_of [simp]: "string_of (bytes_of s) = s"
proof -
  have "unat (word_of_nat (ord c) :: u8) = ord c" for c
    using ord_less_256 [of c] by (simp add: unat_of_nat take_bit_nat_def)
  then show ?thesis
    by (simp add: bytes_of_def string_of_def comp_def)
qed

lemma bytes_of_string_of [simp]: "bytes_of (string_of bs) = bs"
proof -
  have "unat b < 256" for b :: u8
    using unsigned_less [of b, where ?'a = nat] by simp
  then show ?thesis
    by (simp add: bytes_of_def string_of_def comp_def)
qed

lemma bytes_of_append [simp]: "bytes_of (s @ t) = bytes_of s @ bytes_of t"
  by (simp add: bytes_of_def)

lemma sint_nonneg_uint:
  fixes w :: u64
  assumes "0 \<le> sint w"
  shows "uint w = sint w"
proof -
  have lt: "uint w < 2 ^ 64"
    using uint_lt2p [of w] by simp
  have "take_bit 64 (uint w) = uint w"
    by (rule take_bit_int_eq_self) (use lt in simp_all)
  then have s: "sint w = uint w - 2 ^ 64 * of_bool (bit (uint w) 63)"
    using signed_take_bit_eq_take_bit_minus [of 63 "uint w"] by (simp add: sint_uint)
  then show ?thesis
    using lt assms by (cases "bit (uint w) 63") simp_all
qed

lemma sint_nonneg_unat:
  fixes w :: u64
  assumes "0 \<le> sint w"
  shows "unat w = nat (sint w)" and "unat w < 2 ^ 63"
proof -
  have "sint w < 2 ^ 63"
    using sint_lt [of w] by simp
  then show "unat w = nat (sint w)" "unat w < 2 ^ 63"
    using sint_nonneg_uint [OF assms] assms by (simp_all add: unat_eq_nat_uint nat_less_iff)
qed

end
