(* ===== verification/Ind_Map.thy ===== *)
theory Ind_Map
  imports Ind_Base
begin

text \<open>
  \<^verbatim>\<open>std::map\<close> and \<^verbatim>\<open>std::set\<close>, the ordered containers of the program: a map is the list
  of its entries in key order, which is the order the code iterates in and the order in
  which the JSON library writes an object.  The interface the clients rely on is the
  locale \<open>dict\<close>; the sorted lists are its model, and every lemma on lookups after
  updates is proved once in the locale.
\<close>

section \<open>The interface of a map\<close>

locale dict =
  fixes dget :: "'m \<Rightarrow> 'k \<Rightarrow> 'v option"
    and dput :: "'k \<Rightarrow> 'v \<Rightarrow> 'm \<Rightarrow> 'm"
    and ddel :: "'k \<Rightarrow> 'm \<Rightarrow> 'm"
    and dinv :: "'m \<Rightarrow> bool"
  assumes get_put: "dinv m \<Longrightarrow> dget (dput k v m) k' = (if k' = k then Some v else dget m k')"
    and get_del: "dinv m \<Longrightarrow> dget (ddel k m) k' = (if k' = k then None else dget m k')"
    and inv_put: "dinv m \<Longrightarrow> dinv (dput k v m)"
    and inv_del: "dinv m \<Longrightarrow> dinv (ddel k m)"
begin

definition puts :: "('k \<times> 'v) list \<Rightarrow> 'm \<Rightarrow> 'm" where
  "puts kvs m = fold (\<lambda>(k, v). dput k v) kvs m"

lemma inv_puts: "dinv m \<Longrightarrow> dinv (puts kvs m)"
  unfolding puts_def by (induction kvs arbitrary: m) (auto intro: inv_put)

lemma get_puts:
  "dinv m \<Longrightarrow> dget (puts kvs m) k = (case map_of (rev kvs) k of Some v \<Rightarrow> Some v | None \<Rightarrow> dget m k)"
proof (induction kvs arbitrary: m)
  case Nil
  then show ?case by (simp add: puts_def)
next
  case (Cons kv kvs)
  obtain k' v' where kv: "kv = (k', v')" by (cases kv)
  have "dget (puts (kv # kvs) m) k = dget (puts kvs (dput k' v' m)) k"
    by (simp add: kv puts_def)
  also have "\<dots> = (case map_of (rev kvs) k of Some v \<Rightarrow> Some v | None \<Rightarrow> dget (dput k' v' m) k)"
    by (rule Cons.IH) (rule inv_put [OF Cons.prems])
  finally show ?case
    using Cons.prems by (auto simp: kv get_put map_add_def split: option.splits)
qed

lemma get_put_same [simp]: "dinv m \<Longrightarrow> dget (dput k v m) k = Some v"
  by (simp add: get_put)

lemma get_put_other [simp]: "dinv m \<Longrightarrow> k' \<noteq> k \<Longrightarrow> dget (dput k v m) k' = dget m k'"
  by (simp add: get_put)

lemma get_del_put [simp]: "dinv m \<Longrightarrow> dget (ddel k (dput k v m)) k' = (if k' = k then None else dget m k')"
  by (simp add: get_del get_put inv_put)

end

section \<open>Sorted association lists\<close>

type_synonym ('k, 'v) smap = "('k \<times> 'v) list"

definition smap_ok :: "('k::linorder, 'v) smap \<Rightarrow> bool" where
  "smap_ok m = sorted_wrt (<) (map fst m)"

abbreviation smap_get :: "('k, 'v) smap \<Rightarrow> 'k \<Rightarrow> 'v option" where
  "smap_get \<equiv> map_of"

text \<open>\<^verbatim>\<open>m[k] = v\<close>.\<close>

fun smap_put :: "'k::linorder \<Rightarrow> 'v \<Rightarrow> ('k, 'v) smap \<Rightarrow> ('k, 'v) smap" where
  "smap_put k v [] = [(k, v)]"
| "smap_put k v ((k', v') # m) =
     (if k < k' then (k, v) # (k', v') # m
      else if k = k' then (k, v) # m
      else (k', v') # smap_put k v m)"

text \<open>\<^verbatim>\<open>m.erase(k)\<close>.\<close>

fun smap_del :: "'k::linorder \<Rightarrow> ('k, 'v) smap \<Rightarrow> ('k, 'v) smap" where
  "smap_del k [] = []"
| "smap_del k ((k', v') # m) = (if k = k' then m else (k', v') # smap_del k m)"

text \<open>\<^verbatim>\<open>m.emplace(k, v)\<close>: an existing entry stays.\<close>

definition smap_emplace :: "'k::linorder \<Rightarrow> 'v \<Rightarrow> ('k, 'v) smap \<Rightarrow> ('k, 'v) smap" where
  "smap_emplace k v m = (case smap_get m k of Some _ \<Rightarrow> m | None \<Rightarrow> smap_put k v m)"

definition smap_has :: "('k, 'v) smap \<Rightarrow> 'k \<Rightarrow> bool" where
  "smap_has m k = (smap_get m k \<noteq> None)"

lemma keys_smap_put: "set (map fst (smap_put k v m)) = insert k (set (map fst m))"
  by (induction k v m rule: smap_put.induct) auto

lemma set_smap_del: "set (smap_del k m) \<subseteq> set m"
  by (induction k m rule: smap_del.induct) auto

lemma keys_smap_del: "set (map fst (smap_del k m)) \<subseteq> set (map fst m)"
  using set_smap_del [of k m] by auto

lemma smap_ok_Nil [simp]: "smap_ok []"
  by (simp add: smap_ok_def)

lemma smap_ok_Cons: "smap_ok ((k, v) # m) \<longleftrightarrow> (\<forall>k' \<in> set (map fst m). k < k') \<and> smap_ok m"
  by (simp add: smap_ok_def)

lemma smap_ok_put [simp, intro, wf_intros]: "smap_ok m \<Longrightarrow> smap_ok (smap_put k v m)"
proof (induction k v m rule: smap_put.induct)
  case (1 k v)
  then show ?case by (simp add: smap_ok_def)
next
  case (2 k v k' v' m)
  then show ?case
    using keys_smap_put [of k v m] by (auto simp: smap_ok_Cons)
qed

lemma smap_ok_del [simp, intro, wf_intros]: "smap_ok m \<Longrightarrow> smap_ok (smap_del k m)"
proof (induction k m rule: smap_del.induct)
  case (2 k k' v' m)
  then show ?case
    using set_smap_del [of k m] by (force simp: smap_ok_Cons)
qed simp

lemma smap_ok_emplace [simp, intro, wf_intros]: "smap_ok m \<Longrightarrow> smap_ok (smap_emplace k v m)"
  by (auto simp: smap_emplace_def split: option.splits)

lemma smap_get_put: "smap_get (smap_put k v m) k' = (if k' = k then Some v else smap_get m k')"
  by (induction k v m rule: smap_put.induct) auto

lemma smap_get_del:
  "smap_ok m \<Longrightarrow> smap_get (smap_del k m) k' = (if k' = k then None else smap_get m k')"
proof (induction k m rule: smap_del.induct)
  case (2 k k0 v0 m)
  have "map_of m k0 = None" if "k = k0"
    using 2(2) by (force simp: smap_ok_Cons map_of_eq_None_iff)
  then show ?case
    using 2 by (auto simp: smap_ok_Cons)
qed simp

interpretation smap: dict smap_get smap_put smap_del smap_ok
  by unfold_locales (auto simp: smap_get_put smap_get_del)

lemma smap_get_emplace:
  "smap_get (smap_emplace k v m) k' =
     (if k' = k then (case smap_get m k of Some w \<Rightarrow> Some w | None \<Rightarrow> Some v) else smap_get m k')"
  by (auto simp: smap_emplace_def smap_get_put split: option.splits)

lemma smap_ok_distinct: "smap_ok m \<Longrightarrow> distinct (map fst m)"
  unfolding smap_ok_def using strict_sorted_iff by blast

lemma length_smap_put:
  "length (smap_put k v m) \<le> Suc (length m)"
  by (induction k v m rule: smap_put.induct) auto

lemma length_smap_del: "length (smap_del k m) \<le> length m"
  by (induction k m rule: smap_del.induct) auto

lemma entries_of_keys:
  "distinct (map fst m) \<Longrightarrow> m = map (\<lambda>k. (k, the (map_of m k))) (map fst m)"
proof (induction m)
  case Nil
  then show ?case by simp
next
  case (Cons kv m)
  obtain k v where kv: "kv = (k, v)" by (cases kv)
  have "map (\<lambda>k'. (k', the (map_of (kv # m) k'))) (map fst m) = map (\<lambda>k'. (k', the (map_of m k'))) (map fst m)"
    using Cons.prems by (auto simp: kv)
  also have "\<dots> = m"
    using Cons by simp
  finally show ?case
    by (simp add: kv)
qed

lemma smap_ok_eqI:
  assumes "smap_ok m" and "smap_ok n" and "smap_get m = smap_get n"
  shows "m = n"
proof -
  have "set (map fst m) = set (map fst n)"
    using assms(3) by (metis dom_map_of_conv_image_fst list.set_map)
  then have keys: "map fst m = map fst n"
    using assms(1,2) unfolding smap_ok_def by (metis strict_sorted_equal)
  have "m = map (\<lambda>k. (k, the (map_of m k))) (map fst m)"
    by (rule entries_of_keys) (rule smap_ok_distinct [OF assms(1)])
  also have "\<dots> = map (\<lambda>k. (k, the (map_of n k))) (map fst n)"
    by (simp only: keys assms(3))
  also have "\<dots> = n"
    by (rule entries_of_keys [symmetric]) (rule smap_ok_distinct [OF assms(2)])
  finally show ?thesis .
qed

section \<open>Sorted sets\<close>

text \<open>\<^verbatim>\<open>std::set\<close> is the sorted list of its members.\<close>

definition sset_insert :: "'a::linorder \<Rightarrow> 'a list \<Rightarrow> 'a list" where
  "sset_insert x s = (if x \<in> set s then s else insort x s)"

lemma set_sset_insert [simp]: "set (sset_insert x s) = insert x (set s)"
  by (auto simp: sset_insert_def set_insort_key)

lemma sorted_sset_insert [simp, intro]:
  "sorted s \<Longrightarrow> sorted (sset_insert x s)"
  by (simp add: sset_insert_def sorted_insort)

lemma distinct_sset_insert [simp, intro]:
  "distinct s \<Longrightarrow> distinct (sset_insert x s)"
  by (simp add: sset_insert_def distinct_insort)

end
