(* ===== verification/Ind_Airece.thy ===== *)
theory Ind_Airece
  imports Ind_Map
begin

text \<open>
  Two parts of the analysis component that do not depend on its intermediate language: the table of system calls
  (\<^verbatim>\<open>components/airece/src/semantic/api_model.cpp\<close>) and the cache of decoded instructions
  (\<^verbatim>\<open>components/airece/src/session/decode_cache.cpp\<close>).  The constants of the engine's headers are named
  constructors; the decoder and the registry of the engine are arguments.
\<close>

section \<open>System calls\<close>

record argument_model =
  aa_name :: string
  aa_role :: string
  aa_reads :: bool
  aa_writes :: bool

datatype api_effect = Reads_Memory | Writes_Memory | May_Fault | Never_Returns
datatype taint_role = Taint_None | Taint_Source | Taint_Sink | Taint_Source_And_Sink
datatype taint_category = Category_Process | Category_Unknown | Category_File | Category_Registry | Category_Network | Category_User
datatype model_kind = Kind_Unknown | Kind_Alloc | Kind_Input | Kind_No_Return

record api_model =
  am_module :: string
  am_name :: string
  am_ordinal :: nat
  am_arguments :: "argument_model list"
  am_return :: string
  am_effects :: "api_effect list"
  am_taint :: taint_role
  am_category :: taint_category
  am_constants :: string
  am_produced :: string
  am_consumed :: string
  am_kind :: model_kind
  am_no_return :: bool

definition api_arg :: "string \<Rightarrow> string \<Rightarrow> bool \<Rightarrow> bool \<Rightarrow> argument_model" where
  "api_arg n r reads writes = \<lparr>aa_name = n, aa_role = r, aa_reads = reads, aa_writes = writes\<rparr>"

definition api_entry ::
  "string \<Rightarrow> string \<Rightarrow> nat \<Rightarrow> argument_model list \<Rightarrow> string \<Rightarrow> api_effect list \<Rightarrow> taint_role \<Rightarrow>
   taint_category \<Rightarrow> string \<Rightarrow> string \<Rightarrow> string \<Rightarrow> model_kind \<Rightarrow> bool \<Rightarrow> api_model" where
  "api_entry m n ordinal args result effects taint category constants produced consumed kind no_return =
     \<lparr>am_module = m, am_name = n, am_ordinal = ordinal, am_arguments = args, am_return = result, am_effects = effects,
      am_taint = taint, am_category = category, am_constants = constants, am_produced = produced,
      am_consumed = consumed, am_kind = kind, am_no_return = no_return\<rparr>"

definition process_args :: "argument_model list" where
  "process_args =
    [api_arg ''application'' ''path'' True False, api_arg ''command_line'' ''user-input'' True True,
     api_arg ''process_attributes'' ''security'' True False, api_arg ''thread_attributes'' ''security'' True False,
     api_arg ''inherit_handles'' ''flags'' False False, api_arg ''creation_flags'' ''enum'' False False,
     api_arg ''environment'' ''buffer'' True False, api_arg ''current_directory'' ''path'' True False,
     api_arg ''startup_info'' ''configuration'' True False, api_arg ''process_info'' ''out-process-thread-handles'' False True]"

definition create_thread_args :: "argument_model list" where
  "create_thread_args =
    [api_arg ''thread_attributes'' ''security'' True False, api_arg ''stack_size'' ''length'' False False,
     api_arg ''start_address'' ''function-pointer'' False False, api_arg ''parameter'' ''opaque-pointer'' False False,
     api_arg ''creation_flags'' ''enum'' False False, api_arg ''thread_id'' ''out-thread-id'' False True]"

definition virtual_alloc_args :: "argument_model list" where
  "virtual_alloc_args =
    [api_arg ''address'' ''address-hint'' False False, api_arg ''size'' ''length'' False False,
     api_arg ''allocation_type'' ''enum'' False False, api_arg ''protection'' ''enum'' False False]"

definition virtual_alloc_ex_args :: "argument_model list" where
  "virtual_alloc_ex_args =
    [api_arg ''process'' ''handle'' False False, api_arg ''address'' ''address-hint'' False False,
     api_arg ''size'' ''length'' False False, api_arg ''allocation_type'' ''enum'' False False,
     api_arg ''protection'' ''enum'' False False]"

definition virtual_protect_args :: "argument_model list" where
  "virtual_protect_args =
    [api_arg ''address'' ''memory-region'' False False, api_arg ''size'' ''length'' False False,
     api_arg ''new_protection'' ''enum'' False False, api_arg ''old_protection'' ''out-enum'' False True]"

definition virtual_protect_ex_args :: "argument_model list" where
  "virtual_protect_ex_args =
    [api_arg ''process'' ''handle'' False False, api_arg ''address'' ''memory-region'' False False,
     api_arg ''size'' ''length'' False False, api_arg ''new_protection'' ''enum'' False False,
     api_arg ''old_protection'' ''out-enum'' False True]"

definition read_file_args :: "argument_model list" where
  "read_file_args =
    [api_arg ''file'' ''handle'' False False, api_arg ''buffer'' ''taint-output'' False True,
     api_arg ''bytes_to_read'' ''length'' False False, api_arg ''bytes_read'' ''out-length'' False True,
     api_arg ''overlapped'' ''async-state'' True True]"

definition write_file_args :: "argument_model list" where
  "write_file_args =
    [api_arg ''file'' ''handle'' False False, api_arg ''buffer'' ''taint-input'' True False,
     api_arg ''bytes_to_write'' ''length'' False False, api_arg ''bytes_written'' ''out-length'' False True,
     api_arg ''overlapped'' ''async-state'' True True]"

definition create_file_args :: "argument_model list" where
  "create_file_args =
    [api_arg ''file_name'' ''path'' True False, api_arg ''desired_access'' ''flags'' False False,
     api_arg ''share_mode'' ''flags'' False False, api_arg ''security_attributes'' ''security'' True False,
     api_arg ''creation_disposition'' ''enum'' False False, api_arg ''flags_and_attributes'' ''flags'' False False,
     api_arg ''template_file'' ''handle'' False False]"

definition reg_open_key_args :: "argument_model list" where
  "reg_open_key_args =
    [api_arg ''key'' ''handle'' False False, api_arg ''subkey'' ''registry-path'' True False,
     api_arg ''options'' ''reserved'' False False, api_arg ''desired_access'' ''flags'' False False,
     api_arg ''result_key'' ''out-handle'' False True]"

definition reg_query_value_args :: "argument_model list" where
  "reg_query_value_args =
    [api_arg ''key'' ''handle'' False False, api_arg ''value_name'' ''registry-name'' True False,
     api_arg ''reserved'' ''reserved'' False False, api_arg ''type'' ''out-enum'' False True,
     api_arg ''data'' ''taint-output'' False True, api_arg ''data_size'' ''inout-length'' True True]"

definition recv_args :: "argument_model list" where
  "recv_args =
    [api_arg ''socket'' ''handle'' False False, api_arg ''buffer'' ''taint-output'' False True,
     api_arg ''length'' ''length'' False False, api_arg ''flags'' ''enum'' False False]"

definition recvfrom_args :: "argument_model list" where
  "recvfrom_args =
    [api_arg ''socket'' ''handle'' False False, api_arg ''buffer'' ''taint-output'' False True,
     api_arg ''length'' ''length'' False False, api_arg ''flags'' ''enum'' False False,
     api_arg ''source_address'' ''out-network-address'' False True,
     api_arg ''source_address_length'' ''inout-length'' True True]"

definition send_args :: "argument_model list" where
  "send_args =
    [api_arg ''socket'' ''handle'' False False, api_arg ''buffer'' ''taint-input'' True False,
     api_arg ''length'' ''length'' False False, api_arg ''flags'' ''enum'' False False]"

definition connect_args :: "argument_model list" where
  "connect_args =
    [api_arg ''socket'' ''handle'' False False, api_arg ''address'' ''network-address'' True False,
     api_arg ''address_length'' ''length'' False False]"

definition stream_read_args :: "argument_model list" where
  "stream_read_args =
    [api_arg ''handle'' ''handle'' False False, api_arg ''buffer'' ''taint-output'' False True,
     api_arg ''bytes_to_read'' ''length'' False False, api_arg ''bytes_read'' ''out-length'' False True]"

definition crypt_encrypt_args :: "argument_model list" where
  "crypt_encrypt_args =
    [api_arg ''key'' ''crypto-handle'' False False, api_arg ''hash'' ''crypto-handle'' False False,
     api_arg ''final'' ''boolean'' False False, api_arg ''flags'' ''enum'' False False,
     api_arg ''data'' ''taint-inout-buffer'' True True, api_arg ''data_length'' ''inout-length'' True True,
     api_arg ''buffer_length'' ''length'' False False]"

definition crypt_decrypt_args :: "argument_model list" where
  "crypt_decrypt_args =
    [api_arg ''key'' ''crypto-handle'' False False, api_arg ''hash'' ''crypto-handle'' False False,
     api_arg ''final'' ''boolean'' False False, api_arg ''flags'' ''enum'' False False,
     api_arg ''data'' ''taint-inout-buffer'' True True, api_arg ''data_length'' ''inout-length'' True True]"

definition bcrypt_crypt_args :: "argument_model list" where
  "bcrypt_crypt_args =
    [api_arg ''key'' ''crypto-handle'' False False, api_arg ''input'' ''taint-input'' True False,
     api_arg ''input_length'' ''length'' False False, api_arg ''padding_info'' ''configuration'' True False,
     api_arg ''iv'' ''inout-buffer'' True True, api_arg ''iv_length'' ''length'' False False,
     api_arg ''output'' ''taint-output'' False True, api_arg ''output_length'' ''length'' False False,
     api_arg ''result_length'' ''out-length'' False True, api_arg ''flags'' ''enum'' False False]"

definition open_scm_args :: "argument_model list" where
  "open_scm_args =
    [api_arg ''machine_name'' ''machine-name'' True False, api_arg ''database_name'' ''service-database'' True False,
     api_arg ''desired_access'' ''flags'' False False]"

definition create_service_args :: "argument_model list" where
  "create_service_args =
    [api_arg ''service_manager'' ''handle'' False False, api_arg ''service_name'' ''service-name'' True False,
     api_arg ''display_name'' ''display-name'' True False, api_arg ''desired_access'' ''flags'' False False,
     api_arg ''service_type'' ''enum'' False False, api_arg ''start_type'' ''enum'' False False,
     api_arg ''error_control'' ''enum'' False False, api_arg ''binary_path'' ''path'' True False,
     api_arg ''load_order_group'' ''group-name'' True False, api_arg ''tag_id'' ''out-id'' False True,
     api_arg ''dependencies'' ''multi-string'' True False, api_arg ''service_start_name'' ''account-name'' True False,
     api_arg ''password'' ''credential'' True False]"

definition start_service_args :: "argument_model list" where
  "start_service_args =
    [api_arg ''service'' ''handle'' False False, api_arg ''argument_count'' ''count'' False False,
     api_arg ''arguments'' ''string-array'' True False]"

definition create_mutex_args :: "argument_model list" where
  "create_mutex_args =
    [api_arg ''attributes'' ''security'' True False, api_arg ''initial_owner'' ''boolean'' False False,
     api_arg ''name'' ''object-name'' True False]"

definition create_event_args :: "argument_model list" where
  "create_event_args =
    [api_arg ''attributes'' ''security'' True False, api_arg ''manual_reset'' ''boolean'' False False,
     api_arg ''initial_state'' ''boolean'' False False, api_arg ''name'' ''object-name'' True False]"

definition wait_args :: "argument_model list" where
  "wait_args =
    [api_arg ''handle'' ''handle'' False False, api_arg ''timeout'' ''milliseconds'' False False]"

definition load_library_args :: "argument_model list" where
  "load_library_args =
    [api_arg ''file_name'' ''path'' True False]"

definition get_proc_address_args :: "argument_model list" where
  "get_proc_address_args =
    [api_arg ''module'' ''module-handle'' False False, api_arg ''symbol'' ''name-or-ordinal'' True False]"

definition no_args :: "argument_model list" where
  "no_args =
    []"

definition check_debugger_args :: "argument_model list" where
  "check_debugger_args =
    [api_arg ''process'' ''handle'' False False, api_arg ''debugger_present'' ''out-boolean'' False True]"

definition nt_query_process_args :: "argument_model list" where
  "nt_query_process_args =
    [api_arg ''process'' ''handle'' False False, api_arg ''information_class'' ''enum'' False False,
     api_arg ''information'' ''out-buffer'' False True, api_arg ''information_length'' ''length'' False False,
     api_arg ''return_length'' ''out-length'' False True]"

definition environment_variable_args :: "argument_model list" where
  "environment_variable_args =
    [api_arg ''name'' ''environment-name'' True False, api_arg ''buffer'' ''taint-output'' False True,
     api_arg ''size'' ''length'' False False]"

definition exit_args :: "argument_model list" where
  "exit_args =
    [api_arg ''exit_code'' ''status'' False False]"

definition api_models :: "api_model list" where
  "api_models =
    [
      api_entry ''kernel32'' ''CreateProcessA'' 0 process_args ''success'' [Reads_Memory, Writes_Memory, May_Fault]
        Taint_Sink Category_Process ''CREATE_*'' ''process/thread handles'' '''' Kind_Unknown False,
      api_entry ''kernel32'' ''CreateProcessW'' 0 process_args ''success'' [Reads_Memory, Writes_Memory, May_Fault]
        Taint_Sink Category_Process ''CREATE_*'' ''process/thread handles'' '''' Kind_Unknown False,
      api_entry ''kernel32'' ''CreateThread'' 0 create_thread_args ''thread-handle'' [Reads_Memory, Writes_Memory, May_Fault]
        Taint_Sink Category_Process ''STACK_SIZE_PARAM_IS_A_RESERVATION'' ''thread handle'' '''' Kind_Unknown False,
      api_entry ''kernel32'' ''VirtualAlloc'' 0 virtual_alloc_args ''allocated-address'' [Writes_Memory, May_Fault]
        Taint_None Category_Unknown ''MEM_*; PAGE_*'' ''memory region'' '''' Kind_Alloc False,
      api_entry ''kernel32'' ''VirtualAllocEx'' 0 virtual_alloc_ex_args ''remote-address'' [Writes_Memory, May_Fault]
        Taint_Sink Category_Process ''MEM_*; PAGE_*'' ''remote memory region'' ''process handle'' Kind_Alloc False,
      api_entry ''kernel32'' ''VirtualProtect'' 0 virtual_protect_args ''success'' [Reads_Memory, Writes_Memory, May_Fault]
        Taint_None Category_Unknown ''PAGE_*'' '''' ''memory region'' Kind_Unknown False,
      api_entry ''kernel32'' ''VirtualProtectEx'' 0 virtual_protect_ex_args ''success'' [Reads_Memory, Writes_Memory, May_Fault]
        Taint_Sink Category_Process ''PAGE_*'' '''' ''process handle'' Kind_Unknown False,
      api_entry ''kernel32'' ''ReadFile'' 0 read_file_args ''success'' [Reads_Memory, Writes_Memory, May_Fault]
        Taint_Source Category_File ''ERROR_IO_PENDING'' '''' ''file handle'' Kind_Input False,
      api_entry ''kernel32'' ''WriteFile'' 0 write_file_args ''success'' [Reads_Memory, Writes_Memory, May_Fault]
        Taint_Sink Category_File ''ERROR_IO_PENDING'' '''' ''file handle'' Kind_Unknown False,
      api_entry ''kernel32'' ''CreateFileA'' 0 create_file_args ''file-handle'' [Reads_Memory, May_Fault]
        Taint_Sink Category_File ''GENERIC_*; OPEN_*'' ''file handle'' '''' Kind_Unknown False,
      api_entry ''kernel32'' ''CreateFileW'' 0 create_file_args ''file-handle'' [Reads_Memory, May_Fault]
        Taint_Sink Category_File ''GENERIC_*; OPEN_*'' ''file handle'' '''' Kind_Unknown False,
      api_entry ''advapi32'' ''RegOpenKeyExA'' 0 reg_open_key_args ''status'' [Reads_Memory, Writes_Memory]
        Taint_Sink Category_Registry ''KEY_*'' ''registry key handle'' ''parent key'' Kind_Unknown False,
      api_entry ''advapi32'' ''RegOpenKeyExW'' 0 reg_open_key_args ''status'' [Reads_Memory, Writes_Memory]
        Taint_Sink Category_Registry ''KEY_*'' ''registry key handle'' ''parent key'' Kind_Unknown False,
      api_entry ''advapi32'' ''RegQueryValueExA'' 0 reg_query_value_args ''status'' [Reads_Memory, Writes_Memory]
        Taint_Source Category_Registry ''REG_*'' '''' ''registry key handle'' Kind_Input False,
      api_entry ''advapi32'' ''RegQueryValueExW'' 0 reg_query_value_args ''status'' [Reads_Memory, Writes_Memory]
        Taint_Source Category_Registry ''REG_*'' '''' ''registry key handle'' Kind_Input False,
      api_entry ''ws2_32'' ''recv'' 16 recv_args ''bytes-received'' [Reads_Memory, Writes_Memory, May_Fault]
        Taint_Source Category_Network ''MSG_*; SOCKET_ERROR'' '''' ''socket'' Kind_Input False,
      api_entry ''ws2_32'' ''recvfrom'' 17 recvfrom_args ''bytes-received'' [Reads_Memory, Writes_Memory, May_Fault]
        Taint_Source Category_Network ''MSG_*; SOCKET_ERROR'' '''' ''socket'' Kind_Input False,
      api_entry ''ws2_32'' ''send'' 19 send_args ''bytes-sent'' [Reads_Memory, May_Fault]
        Taint_Sink Category_Network ''MSG_*; SOCKET_ERROR'' '''' ''socket'' Kind_Unknown False,
      api_entry ''ws2_32'' ''connect'' 4 connect_args ''status'' [Reads_Memory, May_Fault]
        Taint_Sink Category_Network ''AF_*; SOCK_*'' ''connection'' ''socket'' Kind_Unknown False,
      api_entry ''winhttp'' ''WinHttpReadData'' 0 stream_read_args ''success'' [Reads_Memory, Writes_Memory, May_Fault]
        Taint_Source Category_Network ''ERROR_IO_PENDING'' '''' ''request handle'' Kind_Input False,
      api_entry ''wininet'' ''InternetReadFile'' 0 stream_read_args ''success'' [Reads_Memory, Writes_Memory, May_Fault]
        Taint_Source Category_Network ''ERROR_IO_PENDING'' '''' ''internet handle'' Kind_Input False,
      api_entry ''advapi32'' ''CryptEncrypt'' 0 crypt_encrypt_args ''success'' [Reads_Memory, Writes_Memory]
        Taint_Source_And_Sink Category_Unknown ''CRYPT_*'' '''' ''key handle'' Kind_Unknown False,
      api_entry ''advapi32'' ''CryptDecrypt'' 0 crypt_decrypt_args ''success'' [Reads_Memory, Writes_Memory]
        Taint_Source_And_Sink Category_Unknown ''CRYPT_*'' '''' ''key handle'' Kind_Unknown False,
      api_entry ''bcrypt'' ''BCryptEncrypt'' 0 bcrypt_crypt_args ''status'' [Reads_Memory, Writes_Memory]
        Taint_Source_And_Sink Category_Unknown ''BCRYPT_*'' '''' ''key handle'' Kind_Unknown False,
      api_entry ''bcrypt'' ''BCryptDecrypt'' 0 bcrypt_crypt_args ''status'' [Reads_Memory, Writes_Memory]
        Taint_Source_And_Sink Category_Unknown ''BCRYPT_*'' '''' ''key handle'' Kind_Unknown False,
      api_entry ''advapi32'' ''OpenSCManagerA'' 0 open_scm_args ''service-manager-handle'' [Reads_Memory, May_Fault]
        Taint_Sink Category_Process ''SC_MANAGER_*'' ''SCM handle'' '''' Kind_Unknown False,
      api_entry ''advapi32'' ''CreateServiceA'' 0 create_service_args ''service-handle'' [Reads_Memory, May_Fault]
        Taint_Sink Category_Process ''SERVICE_*'' ''service handle'' ''SCM handle'' Kind_Unknown False,
      api_entry ''advapi32'' ''StartServiceA'' 0 start_service_args ''success'' [Reads_Memory, May_Fault]
        Taint_Sink Category_Process ''SERVICE_*'' '''' ''service handle'' Kind_Unknown False,
      api_entry ''kernel32'' ''CreateMutexA'' 0 create_mutex_args ''mutex-handle'' [Reads_Memory, May_Fault]
        Taint_None Category_Unknown ''ERROR_ALREADY_EXISTS'' ''mutex handle'' '''' Kind_Unknown False,
      api_entry ''kernel32'' ''CreateEventA'' 0 create_event_args ''event-handle'' [Reads_Memory, May_Fault]
        Taint_None Category_Unknown ''manual-reset; initial-state'' ''event handle'' '''' Kind_Unknown False,
      api_entry ''kernel32'' ''WaitForSingleObject'' 0 wait_args ''wait-status'' [May_Fault]
        Taint_None Category_Unknown ''WAIT_*; INFINITE'' '''' ''sync handle'' Kind_Unknown False,
      api_entry ''kernel32'' ''LoadLibraryA'' 0 load_library_args ''module-handle'' [Reads_Memory, May_Fault]
        Taint_Sink Category_File ''LOAD_LIBRARY_*'' ''module handle'' '''' Kind_Unknown False,
      api_entry ''kernel32'' ''LoadLibraryW'' 0 load_library_args ''module-handle'' [Reads_Memory, May_Fault]
        Taint_Sink Category_File ''LOAD_LIBRARY_*'' ''module handle'' '''' Kind_Unknown False,
      api_entry ''kernel32'' ''GetProcAddress'' 0 get_proc_address_args ''function-address'' [Reads_Memory, May_Fault]
        Taint_None Category_Unknown ''ordinal <= 0xffff'' ''function address'' ''module handle'' Kind_Unknown False,
      api_entry ''kernel32'' ''IsDebuggerPresent'' 0 no_args ''boolean'' []
        Taint_None Category_Unknown ''BOOL'' '''' '''' Kind_Unknown False,
      api_entry ''kernel32'' ''CheckRemoteDebuggerPresent'' 0 check_debugger_args ''success'' [Writes_Memory, May_Fault]
        Taint_None Category_Unknown ''BOOL'' '''' ''process handle'' Kind_Unknown False,
      api_entry ''ntdll'' ''NtQueryInformationProcess'' 0 nt_query_process_args ''ntstatus'' [Reads_Memory, Writes_Memory, May_Fault]
        Taint_Source Category_Process ''ProcessDebugPort; ProcessDebugFlags'' '''' ''process handle'' Kind_Unknown False,
      api_entry ''kernel32'' ''GetCommandLineA'' 0 no_args ''user-command-line'' [Reads_Memory]
        Taint_Source Category_User ''process command line'' '''' '''' Kind_Unknown False,
      api_entry ''kernel32'' ''GetCommandLineW'' 0 no_args ''user-command-line'' [Reads_Memory]
        Taint_Source Category_User ''process command line'' '''' '''' Kind_Unknown False,
      api_entry ''kernel32'' ''GetEnvironmentVariableA'' 0 environment_variable_args ''characters-written'' [Reads_Memory, Writes_Memory]
        Taint_Source Category_User ''ERROR_ENVVAR_NOT_FOUND'' '''' '''' Kind_Unknown False,
      api_entry ''kernel32'' ''GetEnvironmentVariableW'' 0 environment_variable_args ''characters-written'' [Reads_Memory, Writes_Memory]
        Taint_Source Category_User ''ERROR_ENVVAR_NOT_FOUND'' '''' '''' Kind_Unknown False,
      api_entry ''kernel32'' ''ExitProcess'' 0 exit_args ''never'' [Never_Returns]
        Taint_None Category_Unknown ''exit-code'' '''' '''' Kind_No_Return True,
      api_entry ''ntdll'' ''RtlExitUserProcess'' 0 exit_args ''never'' [Never_Returns]
        Taint_None Category_Unknown ''exit-code'' '''' '''' Kind_No_Return True]"

definition normalized_module :: "string \<Rightarrow> string" where
  "normalized_module value =
     (let result = lower_string value in if ends_with result ''.dll'' then take (length result - 4) result else result)"

definition equal_fold :: "string \<Rightarrow> string \<Rightarrow> bool" where
  "equal_fold left right = (length left = length right \<and> list_all2 (\<lambda>a b. tolower a = tolower b) left right)"

definition api_matches :: "string \<Rightarrow> string \<Rightarrow> nat \<Rightarrow> api_model \<Rightarrow> bool" where
  "api_matches normalized n ordinal m =
     (\<not> (normalized \<noteq> [] \<and> normalized \<noteq> am_module m) \<and>
      (n \<noteq> [] \<and> equal_fold n (am_name m) \<or> n = [] \<and> ordinal \<noteq> 0 \<and> ordinal = am_ordinal m))"

definition find_api_model :: "string \<Rightarrow> string \<Rightarrow> nat \<Rightarrow> api_model option" where
  "find_api_model m n ordinal = find (api_matches (normalized_module m) n ordinal) api_models"

fun api_taint_role_name :: "taint_role \<Rightarrow> string" where
  "api_taint_role_name Taint_Source = ''source''"
| "api_taint_role_name Taint_Sink = ''sink''"
| "api_taint_role_name Taint_Source_And_Sink = ''source+sink''"
| "api_taint_role_name Taint_None = ''none''"

fun comma_list :: "string list \<Rightarrow> string" where
  "comma_list [] = []"
| "comma_list [t] = t"
| "comma_list (t # ts) = t @ '','' @ comma_list ts"

definition describe_api_effects :: "api_model \<Rightarrow> string" where
  "describe_api_effects m = comma_list (
     (if Reads_Memory \<in> set (am_effects m) then [''read-memory''] else []) @
     (if Writes_Memory \<in> set (am_effects m) then [''write-memory''] else []) @
     (if May_Fault \<in> set (am_effects m) then [''may-fault''] else []) @
     (if am_no_return m then [''no-return''] else []))"

text \<open>
  The registration: the registry of the engine answers \<open>None\<close> or an error status, and keeps what was registered
  before an error.
\<close>

record api_identity =
  id_module :: string
  id_name :: "string option"
  id_ordinal :: nat

type_synonym 'e registry = "'e \<Rightarrow> api_identity \<Rightarrow> model_kind \<Rightarrow> 'e \<times> nat option"

fun register_all :: "'e registry \<Rightarrow> 'e \<Rightarrow> api_model list \<Rightarrow> 'e \<times> nat option" where
  "register_all register env [] = (env, None)"
| "register_all register env (m # ms) =
     (case register env \<lparr>id_module = am_module m, id_name = Some (am_name m), id_ordinal = 0\<rparr> (am_kind m) of
        (env, Some e) \<Rightarrow> (env, Some e)
      | (env, None) \<Rightarrow>
          if am_ordinal m \<noteq> 0
          then (case register env \<lparr>id_module = am_module m, id_name = None, id_ordinal = am_ordinal m\<rparr> (am_kind m) of
                  (env, Some e) \<Rightarrow> (env, Some e)
                | (env, None) \<Rightarrow> register_all register env ms)
          else register_all register env ms)"

definition register_api_models :: "nat \<Rightarrow> 'e registry \<Rightarrow> 'e option \<Rightarrow> 'e option \<times> nat option" where
  "register_api_models bad_arg register env =
     (case env of
        None \<Rightarrow> (None, Some bad_arg)
      | Some e \<Rightarrow> (case register_all register e api_models of (e, status) \<Rightarrow> (Some e, status)))"

section \<open>What a lookup finds\<close>

lemma equal_fold_iff: "equal_fold s t \<longleftrightarrow> lower_string s = lower_string t"
  by (auto simp: equal_fold_def lower_string_def list_all2_conv_all_nth list_eq_iff_nth_eq)

text \<open>The keys of the table: the module as it is written, the name in lower case.\<close>

definition api_key :: "api_model \<Rightarrow> string \<times> string" where
  "api_key m = (am_module m, lower_string (am_name m))"

lemma api_keys_distinct: "distinct (map api_key api_models)"
  by (simp add: api_models_def api_entry_def api_key_def lower_string_def tolower_def is_upper_def char_of_def)

lemma api_names_given: "list_all (\<lambda>m. am_module m \<noteq> [] \<and> am_name m \<noteq> []) api_models"
  by (simp add: api_models_def api_entry_def)

lemma find_key:
  "distinct (map f xs) \<Longrightarrow> x \<in> set xs \<Longrightarrow> find (\<lambda>y. f y = f x) xs = Some x"
  by (induction xs) auto

text \<open>Every call of the table is found by its module and its name, in any case of their letters.\<close>

lemma find_api_model_complete:
  assumes m: "m \<in> set api_models" and "normalized_module library = am_module m" and "lower_string n = lower_string (am_name m)"
  shows "find_api_model library n ordinal = Some m"
proof -
  from api_names_given m have given: "am_module m \<noteq> []" "am_name m \<noteq> []" by (auto simp: list_all_iff)
  with assms(3) have "n \<noteq> []" by (auto simp: lower_string_def)
  then have "api_matches (normalized_module library) n ordinal = (\<lambda>y. api_key y = api_key m)"
    using assms(2,3) given by (auto simp: api_matches_def api_key_def equal_fold_iff fun_eq_iff)
  then show ?thesis using find_key[OF api_keys_distinct m] by (simp add: find_api_model_def)
qed

text \<open>The suffix of a library is optional.\<close>

lemma dll_suffix: "\<not> ends_with (lower_string m) ''.dll'' \<Longrightarrow> normalized_module (m @ ''.dll'') = normalized_module m"
  by (auto simp: normalized_module_def ends_with_def lower_string_def tolower_def is_upper_def Let_def)

section \<open>Decoded instructions\<close>

text \<open>
  The cache of one binary view: per address the status and the instruction that the engine's decoder gave, \<open>ok\<close>
  being the status without error.
\<close>

record ('s, 'i) decode_cache =
  dc_entries :: "(u64, 's \<times> 'i) smap"
  dc_requests :: nat
  dc_hits :: nat

definition new_cache :: "('s, 'i) decode_cache" where
  "new_cache = \<lparr>dc_entries = [], dc_requests = 0, dc_hits = 0\<rparr>"

definition cache_answer :: "('s \<Rightarrow> bool) \<Rightarrow> 's \<times> 'i \<Rightarrow> 's \<times> 'i option" where
  "cache_answer ok e = (fst e, if ok (fst e) then Some (snd e) else None)"

definition cached_decode ::
  "('s \<Rightarrow> bool) \<Rightarrow> (u64 \<Rightarrow> 's \<times> 'i) \<Rightarrow> u64 \<Rightarrow> ('s, 'i) decode_cache \<Rightarrow> ('s \<times> 'i option) \<times> ('s, 'i) decode_cache" where
  "cached_decode ok decode address c =
     (let c = c\<lparr>dc_requests := dc_requests c + 1\<rparr> in
      case smap_get (dc_entries c) address of
        Some e \<Rightarrow> (cache_answer ok e, c\<lparr>dc_hits := dc_hits c + 1\<rparr>)
      | None \<Rightarrow> (cache_answer ok (decode address), c\<lparr>dc_entries := smap_emplace address (decode address) (dc_entries c)\<rparr>))"

definition cache_stats :: "('s, 'i) decode_cache \<Rightarrow> nat \<times> nat \<times> nat" where
  "cache_stats c = (dc_requests c, dc_hits c, length (dc_entries c))"

definition clear_cache :: "('s, 'i) decode_cache \<Rightarrow> ('s, 'i) decode_cache" where
  "clear_cache c = c\<lparr>dc_entries := [], dc_requests := 0, dc_hits := 0\<rparr>"

text \<open>The entries are the decoder's answers, and every request was a hit or made an entry.\<close>

definition cache_ok :: "(u64 \<Rightarrow> 's \<times> 'i) \<Rightarrow> ('s, 'i) decode_cache \<Rightarrow> bool" where
  "cache_ok decode c =
     ((\<forall>a e. smap_get (dc_entries c) a = Some e \<longrightarrow> e = decode a) \<and> dc_requests c = dc_hits c + length (dc_entries c))"

lemma cache_ok_new [simp]: "cache_ok decode new_cache" "cache_ok decode (clear_cache c)"
  by (simp_all add: cache_ok_def new_cache_def clear_cache_def)

lemma length_put_new: "smap_get m k = None \<Longrightarrow> length (smap_put k v m) = Suc (length m)"
  by (induction k v m rule: smap_put.induct) (auto split: if_splits)

text \<open>The cache is transparent: it answers what the decoder would, and keeps its invariant.\<close>

lemma cached_decode_transparent:
  assumes "cache_ok decode c"
  shows "fst (cached_decode ok decode address c) = cache_answer ok (decode address)"
    and "cache_ok decode (snd (cached_decode ok decode address c))"
  using assms
  by (auto simp: cached_decode_def cache_ok_def Let_def smap_emplace_def smap_get_put length_put_new split: option.splits if_splits)

end
