(* ===== verification/Ind_Chars.thy ===== *)
theory Ind_Chars
  imports Ind_Base
begin

text \<open>
  The number formatting and parsing of the standard library that the program uses:
  \<^verbatim>\<open>std::from_chars\<close> on unsigned integers, \<^verbatim>\<open>std::to_string\<close>, hexadecimal output
  through \<^verbatim>\<open>std::hex\<close>, and the hexadecimal byte strings that the workbench and the
  harness exchange.  The round trips between them are what the evidence records rely on.
\<close>

section \<open>Digits\<close>

definition digit_val :: "nat \<Rightarrow> char \<Rightarrow> nat option" where
  "digit_val b c =
     (let v = (if is_digit c then Some (ord c - 48)
               else if is_lower c then Some (ord c - 87)
               else if is_upper c then Some (ord c - 55)
               else None)
      in case v of Some d \<Rightarrow> if d < b then Some d else None | None \<Rightarrow> None)"

text \<open>The digit the stream and the digit tables of the code write: lower case.\<close>

definition digit_char :: "nat \<Rightarrow> char" where
  "digit_char d = char_of (if d < 10 then 48 + d else 87 + d)"

definition is_digit_in :: "nat \<Rightarrow> char \<Rightarrow> bool" where
  "is_digit_in b c = (digit_val b c \<noteq> None)"

lemma digit_val_less: "digit_val b c = Some d \<Longrightarrow> d < b"
  by (auto simp: digit_val_def Let_def split: if_splits option.splits)

lemma ord_digit_char: "d < 36 \<Longrightarrow> ord (digit_char d) = (if d < 10 then 48 + d else 87 + d)"
  unfolding digit_char_def by (subst ord_char_of) auto

lemma digit_val_digit_char: "d < b \<Longrightarrow> b \<le> 36 \<Longrightarrow> digit_val b (digit_char d) = Some d"
  by (auto simp: digit_val_def ord_digit_char is_digit_def is_lower_def is_upper_def)

lemma is_digit_in_digit_char: "d < b \<Longrightarrow> b \<le> 36 \<Longrightarrow> is_digit_in b (digit_char d)"
  by (simp add: is_digit_in_def digit_val_digit_char)

section \<open>\<open>from_chars\<close>\<close>

datatype errc = Errc_Ok | Errc_Invalid | Errc_Range

fun digits_value :: "nat \<Rightarrow> nat \<Rightarrow> string \<Rightarrow> nat" where
  "digits_value b acc [] = acc"
| "digits_value b acc (c # cs) = digits_value b (acc * b + the (digit_val b c)) cs"

text \<open>
  \<^verbatim>\<open>std::from_chars(first, last, value, base)\<close> for an unsigned type whose largest value
  is \<open>limit\<close>: the error code, the value and the unread rest.  No sign, no white space
  and no prefix are accepted; with no digit nothing is consumed; out of range consumes
  every digit.
\<close>

definition from_chars :: "nat \<Rightarrow> nat \<Rightarrow> string \<Rightarrow> errc \<times> nat \<times> string" where
  "from_chars base limit s =
     (let ds = takeWhile (is_digit_in base) s;
          rest = dropWhile (is_digit_in base) s;
          v = digits_value base 0 ds
      in if ds = [] then (Errc_Invalid, 0, s)
         else if v > limit then (Errc_Range, 0, rest)
         else (Errc_Ok, v, rest))"

text \<open>
  The idiom of the code: the conversion succeeded and its \<^verbatim>\<open>ptr\<close> is the end of the text.
\<close>

definition from_chars_all :: "nat \<Rightarrow> nat \<Rightarrow> string \<Rightarrow> nat option" where
  "from_chars_all base limit s =
     (case from_chars base limit s of (ec, v, rest) \<Rightarrow>
        if ec = Errc_Ok \<and> rest = [] then Some v else None)"

abbreviation u64_max :: nat where "u64_max \<equiv> 2 ^ 64 - 1"
abbreviation u32_max :: nat where "u32_max \<equiv> 2 ^ 32 - 1"

lemma from_chars_all_iff:
  "from_chars_all b m s = Some v \<longleftrightarrow>
     s \<noteq> [] \<and> list_all (is_digit_in b) s \<and> digits_value b 0 s = v \<and> v \<le> m"
proof (cases "list_all (is_digit_in b) s")
  case True
  then have t: "takeWhile (is_digit_in b) s = s" and d: "dropWhile (is_digit_in b) s = []"
    by (simp_all add: list_all_iff)
  show ?thesis
    using True unfolding from_chars_all_def from_chars_def Let_def t d by auto
next
  case False
  then have "dropWhile (is_digit_in b) s \<noteq> []"
    by (simp add: list_all_iff dropWhile_eq_Nil_conv)
  with False show ?thesis
    by (auto simp: from_chars_all_def from_chars_def Let_def)
qed

lemma from_chars_all_le: "from_chars_all b m s = Some v \<Longrightarrow> v \<le> m"
  by (simp add: from_chars_all_iff)

lemma from_chars_all_Nil [simp]: "from_chars_all b m [] = None"
  by (simp add: from_chars_all_def from_chars_def)

section \<open>Writing a number in a base\<close>

fun digits_of :: "nat \<Rightarrow> nat \<Rightarrow> string" where
  "digits_of b n =
     (if n < b \<or> b < 2 then [digit_char n] else digits_of b (n div b) @ [digit_char (n mod b)])"

declare digits_of.simps [simp del]

definition to_string :: "nat \<Rightarrow> string" where
  "to_string n = digits_of 10 n"

definition to_string_int :: "int \<Rightarrow> string" where
  "to_string_int i = (if i < 0 then CHR ''-'' # to_string (nat (- i)) else to_string (nat i))"

definition hex_of :: "nat \<Rightarrow> string" where
  "hex_of n = digits_of 16 n"

text \<open>\<^verbatim>\<open>hex_address\<close>: the stream writes \<^verbatim>\<open>0x\<close> and lower-case digits.\<close>

definition hex_address :: "u64 \<Rightarrow> string" where
  "hex_address w = ''0x'' @ hex_of (unat w)"

lemma digits_value_append:
  "digits_value b acc (xs @ ys) = digits_value b (digits_value b acc xs) ys"
  by (induction xs arbitrary: acc) simp_all

lemma digits_of_not_Nil [simp]: "digits_of b n \<noteq> []"
  by (subst digits_of.simps) simp

lemma digits_of_digits:
  "2 \<le> b \<Longrightarrow> b \<le> 36 \<Longrightarrow> list_all (is_digit_in b) (digits_of b n)"
proof (induction b n rule: digits_of.induct)
  case (1 b n)
  then show ?case
    by (cases "n < b")
      (auto simp: digits_of.simps [of b n] is_digit_in_digit_char)
qed

lemma digits_value_digits_of:
  "2 \<le> b \<Longrightarrow> b \<le> 36 \<Longrightarrow> digits_value b 0 (digits_of b n) = n"
proof (induction b n rule: digits_of.induct)
  case (1 b n)
  then show ?case
    by (cases "n < b")
      (auto simp: digits_of.simps [of b n] digit_val_digit_char digits_value_append)
qed

lemma from_chars_digits_of:
  "2 \<le> b \<Longrightarrow> b \<le> 36 \<Longrightarrow> n \<le> m \<Longrightarrow> from_chars_all b m (digits_of b n) = Some n"
  by (simp add: from_chars_all_iff digits_of_digits digits_value_digits_of)

lemma from_chars_to_string: "n \<le> m \<Longrightarrow> from_chars_all 10 m (to_string n) = Some n"
  by (simp add: to_string_def from_chars_digits_of)

lemma from_chars_hex_of: "n \<le> m \<Longrightarrow> from_chars_all 16 m (hex_of n) = Some n"
  by (simp add: hex_of_def from_chars_digits_of)

lemma to_string_not_Nil [simp]: "to_string n \<noteq> []"
  by (simp add: to_string_def)

lemma to_string_inj [simp]: "to_string m = to_string n \<longleftrightarrow> m = n"
proof
  assume "to_string m = to_string n"
  then have "from_chars_all 10 (max m n) (to_string m) = from_chars_all 10 (max m n) (to_string n)"
    by simp
  then show "m = n" by (simp add: from_chars_to_string)
qed simp

lemma digit_char_decimal: "d < 10 \<Longrightarrow> digit_char d \<in> set ''0123456789''"
proof -
  have "list_all (\<lambda>d. digit_char d \<in> set ''0123456789'') [0..<10]" by code_simp
  then have "\<forall>d \<in> {0..<10}. digit_char d \<in> set ''0123456789''"
    by (simp only: list_all_iff set_upt)
  then show "d < 10 \<Longrightarrow> digit_char d \<in> set ''0123456789''"
    by (meson atLeastLessThan_iff zero_le)
qed

lemma digit_char_hex: "d < 16 \<Longrightarrow> digit_char d \<in> set ''0123456789abcdef''"
proof -
  have "list_all (\<lambda>d. digit_char d \<in> set ''0123456789abcdef'') [0..<16]" by code_simp
  then have "\<forall>d \<in> {0..<16}. digit_char d \<in> set ''0123456789abcdef''"
    by (simp only: list_all_iff set_upt)
  then show "d < 16 \<Longrightarrow> digit_char d \<in> set ''0123456789abcdef''"
    by (meson atLeastLessThan_iff zero_le)
qed

lemma only_of_digits_of:
  assumes "2 \<le> b" and "\<And>d. d < b \<Longrightarrow> digit_char d \<in> set cs"
  shows "only_of cs (digits_of b n)"
  using assms
proof (induction b n rule: digits_of.induct)
  case (1 b n)
  show ?case
  proof (cases "n < b")
    case True
    then show ?thesis
      using 1 by (simp add: digits_of.simps [of b n])
  next
    case False
    then show ?thesis
      using 1 by (simp add: digits_of.simps [of b n])
  qed
qed

lemma to_string_decimal: "only_of ''0123456789'' (to_string n)"
  unfolding to_string_def by (rule only_of_digits_of) (simp, erule digit_char_decimal)

section \<open>Hexadecimal byte strings\<close>

abbreviation hex_digits :: string where "hex_digits \<equiv> ''0123456789abcdef''"

definition hexval :: "char \<Rightarrow> nat" where
  "hexval c = the (digit_val 16 c)"

text \<open>
  The loop \<^verbatim>\<open>for (i = 0; i < s.size(); i += 2) out += stoul(s.substr(i, 2), nullptr, 16)\<close>
  that the readers run after they have checked the length to be even and every character
  to be a lower-case hexadecimal digit (so that \<^verbatim>\<open>stoul\<close> reads exactly two digits).
\<close>

fun unhex :: "string \<Rightarrow> string" where
  "unhex (a # b # s) = char_of (16 * hexval a + hexval b) # unhex s"
| "unhex _ = []"

text \<open>The loop that writes \<^verbatim>\<open>digits[value >> 4]\<close> and \<^verbatim>\<open>digits[value & 15]\<close>.\<close>

definition hex_byte :: "char \<Rightarrow> string" where
  "hex_byte c = [digit_char (ord c div 16), digit_char (ord c mod 16)]"

definition to_hex :: "string \<Rightarrow> string" where
  "to_hex s = concat (map hex_byte s)"

definition even_hex :: "string \<Rightarrow> bool" where
  "even_hex s = (even (length s) \<and> only_of hex_digits s)"

lemma hexval_digit_char: "d < 16 \<Longrightarrow> hexval (digit_char d) = d"
  by (simp add: hexval_def digit_val_digit_char)

lemma to_hex_simps [simp]:
  "to_hex [] = []"
  "to_hex (c # s) = hex_byte c @ to_hex s"
  "to_hex (s @ t) = to_hex s @ to_hex t"
  by (simp_all add: to_hex_def)

lemma length_to_hex [simp]: "length (to_hex s) = 2 * length s"
  by (induction s) (simp_all add: hex_byte_def)

lemma unhex_to_hex [simp]: "unhex (to_hex s) = s"
proof (induction s)
  case Nil
  then show ?case by simp
next
  case (Cons c s)
  have "ord c div 16 < 16"
    using ord_less_256 [of c] by linarith
  then show ?case
    using Cons by (simp add: hex_byte_def hexval_digit_char)
qed

lemma hex_byte_hex: "only_of hex_digits (hex_byte c)"
proof -
  have "ord c div 16 < 16"
    using ord_less_256 [of c] by linarith
  then have "digit_char (ord c div 16) \<in> set hex_digits"
    by (rule digit_char_hex)
  moreover have "digit_char (ord c mod 16) \<in> set hex_digits"
    by (rule digit_char_hex) simp
  ultimately show ?thesis
    by (simp add: hex_byte_def del: list.set)
qed

lemma to_hex_hex: "only_of hex_digits (to_hex s)"
proof (induction s)
  case Nil
  then show ?case by simp
next
  case (Cons c s)
  then show ?case
    using hex_byte_hex [of c] by (simp only: to_hex_simps only_of_simps simp_thms)
qed

lemma even_hex_to_hex [simp]: "even_hex (to_hex s)"
  by (simp add: even_hex_def to_hex_hex del: only_of_simps)

lemma length_unhex [simp]: "length (unhex s) = length s div 2"
  by (induction s rule: unhex.induct) simp_all

lemma hex_digit_cases:
  assumes "c \<in> set hex_digits"
  shows "hexval c < 16 \<and> digit_char (hexval c) = c"
proof -
  have "list_all (\<lambda>c. hexval c < 16 \<and> digit_char (hexval c) = c) hex_digits" by code_simp
  then show ?thesis
    using assms unfolding list_all_iff by blast
qed

lemma to_hex_unhex: "even_hex s \<Longrightarrow> to_hex (unhex s) = s"
proof (induction s rule: unhex.induct)
  case (1 a b s)
  then have a: "hexval a < 16" "digit_char (hexval a) = a"
    and b: "hexval b < 16" "digit_char (hexval b) = b"
    using hex_digit_cases [of a] hex_digit_cases [of b]
    by (auto simp: even_hex_def simp del: list.set)
  have "ord (char_of (16 * hexval a + hexval b)) = 16 * hexval a + hexval b"
    using a(1) b(1) by (intro ord_char_of) linarith
  then have "hex_byte (char_of (16 * hexval a + hexval b)) = [a, b]"
    using a b by (simp add: hex_byte_def)
  moreover have "even_hex s"
    using 1 by (simp add: even_hex_def)
  ultimately show ?case
    using 1 by simp
qed (simp_all add: even_hex_def)

end
