(* ===== verification/Ind_Json.thy ===== *)
theory Ind_Json
  imports Ind_Chars Ind_Map
begin

text \<open>
  The JSON values of the program (\<^verbatim>\<open>nlohmann::json\<close>, vendored under
  \<^verbatim>\<open>vendor/nlohmann\<close>): the value kinds, the accesses the code uses with the exception each
  one throws, equality, and the compact serializer \<^verbatim>\<open>dump()\<close> whose text the program hashes
  and measures.  An object is a \<^verbatim>\<open>std::map\<close>, so its entries are in key order.  Signed and
  unsigned integers are distinct kinds, as in the library.  A double is its exact value
  with the text the library's serializer prints for it, so that \<^verbatim>\<open>dump()\<close> is a function of
  the value without modelling the shortest-digits algorithm.
\<close>

datatype json =
    JNull
  | JBool bool
  | JInt u64
  | JUInt u64
  | JFloat rat string
  | JStr string
  | JArr "json list"
  | JObj "(string \<times> json) list"

section \<open>Kinds\<close>

definition is_object :: "json \<Rightarrow> bool" where
  "is_object j = (case j of JObj _ \<Rightarrow> True | _ \<Rightarrow> False)"

definition is_array :: "json \<Rightarrow> bool" where
  "is_array j = (case j of JArr _ \<Rightarrow> True | _ \<Rightarrow> False)"

definition is_string :: "json \<Rightarrow> bool" where
  "is_string j = (case j of JStr _ \<Rightarrow> True | _ \<Rightarrow> False)"

definition is_boolean :: "json \<Rightarrow> bool" where
  "is_boolean j = (case j of JBool _ \<Rightarrow> True | _ \<Rightarrow> False)"

definition is_null :: "json \<Rightarrow> bool" where
  "is_null j = (case j of JNull \<Rightarrow> True | _ \<Rightarrow> False)"

definition is_number_unsigned :: "json \<Rightarrow> bool" where
  "is_number_unsigned j = (case j of JUInt _ \<Rightarrow> True | _ \<Rightarrow> False)"

definition is_number_integer :: "json \<Rightarrow> bool" where
  "is_number_integer j = (case j of JUInt _ \<Rightarrow> True | JInt _ \<Rightarrow> True | _ \<Rightarrow> False)"

definition is_number :: "json \<Rightarrow> bool" where
  "is_number j = (case j of JUInt _ \<Rightarrow> True | JInt _ \<Rightarrow> True | JFloat _ _ \<Rightarrow> True | _ \<Rightarrow> False)"

definition is_structured :: "json \<Rightarrow> bool" where
  "is_structured j = (is_object j \<or> is_array j)"

definition is_primitive :: "json \<Rightarrow> bool" where
  "is_primitive j = (\<not> is_structured j)"

definition type_name :: "json \<Rightarrow> string" where
  "type_name j = (case j of
      JNull \<Rightarrow> ''null'' | JBool _ \<Rightarrow> ''boolean'' | JInt _ \<Rightarrow> ''number'' | JUInt _ \<Rightarrow> ''number''
    | JFloat _ _ \<Rightarrow> ''number'' | JStr _ \<Rightarrow> ''string'' | JArr _ \<Rightarrow> ''array'' | JObj _ \<Rightarrow> ''object'')"

lemmas json_kind_defs =
  is_object_def is_array_def is_string_def is_boolean_def is_null_def is_number_unsigned_def
  is_number_integer_def is_number_def is_structured_def is_primitive_def

lemma json_kinds [simp, json_simps]:
  "is_object (JObj m)" "is_array (JArr xs)" "is_string (JStr s)" "is_boolean (JBool b)"
  "is_null JNull" "is_number_unsigned (JUInt w)" "is_number_integer (JUInt w)"
  "is_number_integer (JInt w)"
  "\<not> is_object (JArr xs)" "\<not> is_object (JStr s)" "\<not> is_object JNull" "\<not> is_object (JBool b)"
  "\<not> is_object (JUInt w)" "\<not> is_object (JInt w)" "\<not> is_object (JFloat r t)"
  "\<not> is_array (JObj m)" "\<not> is_array (JStr s)" "\<not> is_array JNull" "\<not> is_array (JBool b)"
  "\<not> is_array (JUInt w)" "\<not> is_array (JInt w)" "\<not> is_array (JFloat r t)"
  "\<not> is_string (JObj m)" "\<not> is_string (JArr xs)" "\<not> is_string JNull" "\<not> is_string (JBool b)"
  "\<not> is_string (JUInt w)" "\<not> is_string (JInt w)" "\<not> is_string (JFloat r t)"
  "\<not> is_null (JObj m)" "\<not> is_null (JArr xs)" "\<not> is_null (JStr s)" "\<not> is_null (JBool b)"
  "\<not> is_null (JUInt w)" "\<not> is_null (JInt w)" "\<not> is_null (JFloat r t)"
  "\<not> is_number_integer (JStr s)" "\<not> is_number_integer (JArr xs)" "\<not> is_number_integer (JObj m)"
  "\<not> is_number_integer JNull" "\<not> is_number_integer (JBool b)" "\<not> is_number_integer (JFloat r t)"
  "\<not> is_number_unsigned (JStr s)" "\<not> is_number_unsigned (JInt w)" "\<not> is_number_unsigned JNull"
  "\<not> is_number_unsigned (JArr xs)" "\<not> is_number_unsigned (JObj m)" "\<not> is_number_unsigned (JBool b)"
  "\<not> is_number_unsigned (JFloat r t)"
  "\<not> is_boolean (JStr s)" "\<not> is_boolean (JInt w)" "\<not> is_boolean JNull" "\<not> is_boolean (JUInt w)"
  "\<not> is_boolean (JArr xs)" "\<not> is_boolean (JObj m)" "\<not> is_boolean (JFloat r t)"
  by (simp_all add: json_kind_defs)

section \<open>Accesses\<close>

definition entries :: "json \<Rightarrow> (string \<times> json) list" where
  "entries j = (case j of JObj m \<Rightarrow> m | _ \<Rightarrow> [])"

definition elems :: "json \<Rightarrow> json list" where
  "elems j = (case j of JArr xs \<Rightarrow> xs | _ \<Rightarrow> [])"

text \<open>A range-based for loop: the elements of an array, the values of an object, a scalar itself.\<close>

definition jrange :: "json \<Rightarrow> json list" where
  "jrange j = (case j of JArr xs \<Rightarrow> xs | JObj m \<Rightarrow> map snd m | JNull \<Rightarrow> [] | _ \<Rightarrow> [j])"

definition jsize :: "json \<Rightarrow> nat" where
  "jsize j = length (jrange j)"

definition jempty :: "json \<Rightarrow> bool" where
  "jempty j = (jrange j = [])"

definition contains :: "json \<Rightarrow> string \<Rightarrow> bool" where
  "contains j k = smap_has (entries j) k"

text \<open>\<^verbatim>\<open>j.at(key)\<close>, \<^verbatim>\<open>j.at(index)\<close>.\<close>

definition jat :: "string \<Rightarrow> json \<Rightarrow> json res" where
  "jat k j = (case j of
      JObj m \<Rightarrow> (case smap_get m k of Some v \<Rightarrow> Inr v | None \<Rightarrow> Inl Json_Out_Of_Range)
    | _ \<Rightarrow> Inl Json_Type)"

definition jnth :: "nat \<Rightarrow> json \<Rightarrow> json res" where
  "jnth i j = (case j of
      JArr xs \<Rightarrow> (if i < length xs then Inr (xs ! i) else Inl Json_Out_Of_Range)
    | _ \<Rightarrow> Inl Json_Type)"

text \<open>\<^verbatim>\<open>get<T>()\<close>. The 64-bit reads cast between the two integer kinds.\<close>

definition jstr :: "json \<Rightarrow> string res" where
  "jstr j = (case j of JStr s \<Rightarrow> Inr s | _ \<Rightarrow> Inl Json_Type)"

definition jstr_at :: "string \<Rightarrow> json \<Rightarrow> string res" where
  "jstr_at k j = bindE (jat k j) jstr"

definition jbool :: "json \<Rightarrow> bool res" where
  "jbool j = (case j of JBool b \<Rightarrow> Inr b | _ \<Rightarrow> Inl Json_Type)"

definition jword :: "json \<Rightarrow> u64 res" where
  "jword j = (case j of
      JUInt w \<Rightarrow> Inr w | JInt w \<Rightarrow> Inr w
    | JFloat r _ \<Rightarrow> Inr (word_of_int (if r < 0 then - \<lfloor>- r\<rfloor> else \<lfloor>r\<rfloor>))
    | _ \<Rightarrow> Inl Json_Type)"

definition ju64 :: "json \<Rightarrow> nat res" where
  "ju64 j = bindE (jword j) (\<lambda>w. Inr (unat w))"

definition ji64 :: "json \<Rightarrow> int res" where
  "ji64 j = bindE (jword j) (\<lambda>w. Inr (sint w))"

text \<open>\<^verbatim>\<open>j.value(key, default)\<close>, untyped and for the types the code asks for.\<close>

definition jvalue :: "string \<Rightarrow> json \<Rightarrow> json \<Rightarrow> json res" where
  "jvalue k d j = (case j of
      JObj m \<Rightarrow> (case smap_get m k of Some v \<Rightarrow> Inr v | None \<Rightarrow> Inr d)
    | _ \<Rightarrow> Inl Json_Type)"

definition jvalue_str :: "string \<Rightarrow> string \<Rightarrow> json \<Rightarrow> string res" where
  "jvalue_str k d j = bindE (jvalue k (JStr d) j) jstr"

definition jvalue_bool :: "string \<Rightarrow> bool \<Rightarrow> json \<Rightarrow> bool res" where
  "jvalue_bool k d j = bindE (jvalue k (JBool d) j) jbool"

definition jvalue_u64 :: "string \<Rightarrow> nat \<Rightarrow> json \<Rightarrow> nat res" where
  "jvalue_u64 k d j = (case j of
      JObj m \<Rightarrow> (case smap_get m k of Some v \<Rightarrow> ju64 v | None \<Rightarrow> Inr d)
    | _ \<Rightarrow> Inl Json_Type)"

text \<open>
  \<^verbatim>\<open>j[key] = v\<close>: null becomes an object; any other kind that is not an object throws.
  \<open>jput\<close> is the same on the objects that the code has just built.
\<close>

definition jset :: "string \<Rightarrow> json \<Rightarrow> json \<Rightarrow> json res" where
  "jset k v j = (case j of
      JObj m \<Rightarrow> Inr (JObj (smap_put k v m)) | JNull \<Rightarrow> Inr (JObj [(k, v)]) | _ \<Rightarrow> Inl Json_Type)"

definition jput :: "string \<Rightarrow> json \<Rightarrow> json \<Rightarrow> json" where
  "jput k v j = JObj (smap_put k v (entries j))"

definition jerase :: "string \<Rightarrow> json \<Rightarrow> json" where
  "jerase k j = (case j of JObj m \<Rightarrow> JObj (smap_del k m) | _ \<Rightarrow> j)"

text \<open>\<^verbatim>\<open>j[key].push_back(v)\<close> on an array field that the code has set before.\<close>

definition jpush :: "json \<Rightarrow> json \<Rightarrow> json" where
  "jpush v j = (case j of JArr xs \<Rightarrow> JArr (xs @ [v]) | _ \<Rightarrow> JArr [v])"

text \<open>A braced list of key and value pairs.\<close>

definition jobj :: "(string \<times> json) list \<Rightarrow> json" where
  "jobj kvs = JObj (fold (\<lambda>(k, v). smap_emplace k v) kvs [])"

abbreviation jnat :: "nat \<Rightarrow> json" where "jnat n \<equiv> JUInt (word_of_nat n)"
abbreviation jint :: "int \<Rightarrow> json" where "jint i \<equiv> JInt (word_of_int i)"

section \<open>Equality\<close>

text \<open>
  The conversion of an integer to a double: 53 significant bits, ties to even.
\<close>

fun bit_length :: "nat \<Rightarrow> nat" where
  "bit_length n = (if n = 0 then 0 else Suc (bit_length (n div 2)))"

declare bit_length.simps [simp del]

definition double_of_nat :: "nat \<Rightarrow> nat" where
  "double_of_nat n =
     (let k = bit_length n - 53 in
      if k = 0 then n
      else let q = n div 2 ^ k; r = n mod 2 ^ k; half = 2 ^ (k - 1)
           in (if r > half \<or> (r = half \<and> odd q) then Suc q else q) * 2 ^ k)"

definition double_of_int :: "int \<Rightarrow> rat" where
  "double_of_int i = (if i < 0 then - of_nat (double_of_nat (nat (- i))) else of_nat (double_of_nat (nat i)))"

fun jeq :: "json \<Rightarrow> json \<Rightarrow> bool"
and jeq_list :: "json list \<Rightarrow> json list \<Rightarrow> bool"
and jeq_obj :: "(string \<times> json) list \<Rightarrow> (string \<times> json) list \<Rightarrow> bool" where
  "jeq JNull JNull = True"
| "jeq (JBool a) (JBool b) = (a = b)"
| "jeq (JInt a) (JInt b) = (a = b)"
| "jeq (JUInt a) (JUInt b) = (a = b)"
| "jeq (JInt a) (JUInt b) = (sint a = sint b)"
| "jeq (JUInt a) (JInt b) = (sint a = sint b)"
| "jeq (JFloat a _) (JFloat b _) = (a = b)"
| "jeq (JFloat a _) (JInt b) = (a = double_of_int (sint b))"
| "jeq (JInt a) (JFloat b _) = (double_of_int (sint a) = b)"
| "jeq (JFloat a _) (JUInt b) = (a = double_of_int (uint b))"
| "jeq (JUInt a) (JFloat b _) = (double_of_int (uint a) = b)"
| "jeq (JStr a) (JStr b) = (a = b)"
| "jeq (JArr a) (JArr b) = jeq_list a b"
| "jeq (JObj a) (JObj b) = jeq_obj a b"
| "jeq _ _ = False"
| "jeq_list [] [] = True"
| "jeq_list (a # as) (b # bs) = (jeq a b \<and> jeq_list as bs)"
| "jeq_list _ _ = False"
| "jeq_obj [] [] = True"
| "jeq_obj ((k, a) # as) ((l, b) # bs) = (k = l \<and> jeq a b \<and> jeq_obj as bs)"
| "jeq_obj _ _ = False"

section \<open>\<open>dump()\<close>\<close>

text \<open>
  The strict serializer: a string is written only if it is valid UTF-8, as the
  decoder table of the library accepts it; otherwise \<^verbatim>\<open>type_error\<close> is thrown.
\<close>

abbreviation in_rng :: "nat \<Rightarrow> nat \<Rightarrow> char \<Rightarrow> bool" where
  "in_rng lo hi c \<equiv> lo \<le> ord c \<and> ord c \<le> hi"

definition utf8_second :: "char \<Rightarrow> char \<Rightarrow> bool" where
  "utf8_second a b =
     (if ord a = 224 then in_rng 160 191 b
      else if ord a = 237 then in_rng 128 159 b
      else if ord a = 240 then in_rng 144 191 b
      else if ord a = 244 then in_rng 128 143 b
      else in_rng 128 191 b)"

text \<open>The number of bytes that the lead byte announces, \<open>None\<close> for a byte that cannot lead.\<close>

definition utf8_length :: "char \<Rightarrow> nat option" where
  "utf8_length a =
     (if ord a < 128 then Some 1
      else if in_rng 194 223 a then Some 2
      else if in_rng 224 239 a then Some 3
      else if in_rng 240 244 a then Some 4
      else None)"

fun utf8_ok :: "string \<Rightarrow> bool" where
  "utf8_ok [] = True"
| "utf8_ok (a # s) =
     (case utf8_length a of
        None \<Rightarrow> False
      | Some n \<Rightarrow>
          if n = 1 then utf8_ok s
          else (case s of [] \<Rightarrow> False | b # t \<Rightarrow>
            utf8_second a b \<and> length t \<ge> n - 2 \<and> list_all (in_rng 128 191) (take (n - 2) t)
            \<and> utf8_ok (drop (n - 2) t)))"

declare utf8_ok.simps(2) [simp del]

definition escape_char :: "char \<Rightarrow> string" where
  "escape_char c =
     (if ord c = 8 then [CHR 0x5C, CHR ''b'']
      else if ord c = 9 then [CHR 0x5C, CHR ''t'']
      else if ord c = 10 then [CHR 0x5C, CHR ''n'']
      else if ord c = 12 then [CHR 0x5C, CHR ''f'']
      else if ord c = 13 then [CHR 0x5C, CHR ''r'']
      else if ord c = 34 then [CHR 0x5C, CHR 0x22]
      else if ord c = 92 then [CHR 0x5C, CHR 0x5C]
      else if ord c < 32 then [CHR 0x5C, CHR ''u'', CHR ''0'', CHR ''0''] @ hex_byte c
      else [c])"

definition quoted :: "string \<Rightarrow> string" where
  "quoted s = [CHR 0x22] @ concat (map escape_char s) @ [CHR 0x22]"

fun join :: "string \<Rightarrow> string list \<Rightarrow> string" where
  "join sep [] = []"
| "join sep [x] = x"
| "join sep (x # y # xs) = x @ sep @ join sep (y # xs)"

fun dump_text :: "json \<Rightarrow> string" where
  "dump_text JNull = ''null''"
| "dump_text (JBool b) = (if b then ''true'' else ''false'')"
| "dump_text (JInt w) = to_string_int (sint w)"
| "dump_text (JUInt w) = to_string (unat w)"
| "dump_text (JFloat _ t) = t"
| "dump_text (JStr s) = quoted s"
| "dump_text (JArr xs) = ''['' @ join '','' (map dump_text xs) @ '']''"
| "dump_text (JObj m) =
     ''{'' @ join '','' (map (\<lambda>(k, v). quoted k @ '':'' @ dump_text v) m) @ ''}''"

fun dumpable :: "json \<Rightarrow> bool" where
  "dumpable (JStr s) = utf8_ok s"
| "dumpable (JArr xs) = (\<forall>x \<in> set xs. dumpable x)"
| "dumpable (JObj m) = (\<forall>(k, v) \<in> set m. utf8_ok k \<and> dumpable v)"
| "dumpable _ = True"

definition dump :: "json \<Rightarrow> string res" where
  "dump j = (if dumpable j then Inr (dump_text j) else Inl Json_Type)"

definition dump_size :: "json \<Rightarrow> nat res" where
  "dump_size j = bindE (dump j) (\<lambda>t. Inr (length t))"

section \<open>JSON pointers\<close>

text \<open>
  \<^verbatim>\<open>json_pointer(text)\<close> splits the reference tokens and unescapes them;
  \<^verbatim>\<open>at(pointer)\<close> follows them with range checks.
\<close>

fun tilde_ok :: "string \<Rightarrow> bool" where
  "tilde_ok [] = True"
| "tilde_ok (c # s) =
     ((c = CHR ''~'' \<longrightarrow> (case s of [] \<Rightarrow> False | d # _ \<Rightarrow> d = CHR ''0'' \<or> d = CHR ''1'')) \<and> tilde_ok s)"

text \<open>\<^verbatim>\<open>unescape\<close>: every \<^verbatim>\<open>~1\<close> becomes a slash, then every \<^verbatim>\<open>~0\<close> a tilde.\<close>

fun replace2 :: "char \<Rightarrow> char \<Rightarrow> char \<Rightarrow> string \<Rightarrow> string" where
  "replace2 a b r (x # y # s) =
     (if x = a \<and> y = b then r # replace2 a b r s else x # replace2 a b r (y # s))"
| "replace2 a b r s = s"

definition unescape :: "string \<Rightarrow> string" where
  "unescape s = replace2 (CHR ''~'') (CHR ''0'') (CHR ''~'') (replace2 (CHR ''~'') (CHR ''1'') (CHR ''/'') s)"

fun split_slash :: "string \<Rightarrow> string \<Rightarrow> string list" where
  "split_slash cur [] = [cur]"
| "split_slash cur (c # s) = (if c = CHR ''/'' then cur # split_slash [] s else split_slash (cur @ [c]) s)"

definition pointer_tokens :: "string \<Rightarrow> string list res" where
  "pointer_tokens p = (case p of
      [] \<Rightarrow> Inr []
    | c # s \<Rightarrow> (if c \<noteq> CHR ''/'' then Inl Json_Parse
                else mapE (\<lambda>t. if tilde_ok t then Inr (unescape t) else Inl Json_Parse) (split_slash [] s)))"

definition array_index :: "string \<Rightarrow> nat res" where
  "array_index s =
     (if length s > 1 \<and> hd s = CHR ''0'' then Inl Json_Parse
      else if length s > 1 \<and> \<not> is_digit (hd s) then Inl Json_Parse
      else case from_chars_all 10 u64_max s of
             None \<Rightarrow> Inl Json_Out_Of_Range
           | Some n \<Rightarrow> (if n = u64_max then Inl Json_Out_Of_Range else Inr n))"

definition pointer_step :: "json \<Rightarrow> string \<Rightarrow> json res" where
  "pointer_step j t = (case j of
      JObj m \<Rightarrow> jat t j
    | JArr xs \<Rightarrow> (if t = ''-'' then Inl Json_Out_Of_Range
                  else bindE (array_index t) (\<lambda>i. jnth i j))
    | _ \<Rightarrow> Inl Json_Out_Of_Range)"

definition pointer_at :: "string \<Rightarrow> json \<Rightarrow> json res" where
  "pointer_at p j = bindE (pointer_tokens p) (\<lambda>ts. foldE (\<lambda>t j. pointer_step j t) ts j)"

text \<open>The escaping the program itself applies to a key when it writes a child pointer.\<close>

definition escape_key :: "string \<Rightarrow> string" where
  "escape_key k = concat (map (\<lambda>c. if c = CHR ''~'' then ''~0'' else if c = CHR ''/'' then ''~1'' else [c]) k)"

section \<open>Well-formed values\<close>

text \<open>Objects are maps: keys strictly ascending, at every level.\<close>

fun wf_json :: "json \<Rightarrow> bool" where
  "wf_json (JArr xs) = (\<forall>x \<in> set xs. wf_json x)"
| "wf_json (JObj m) = (smap_ok m \<and> (\<forall>(k, v) \<in> set m. wf_json v))"
| "wf_json _ = True"

section \<open>Lookups after updates\<close>

lemma jat_JObj: "jat k (JObj m) = (case smap_get m k of Some v \<Rightarrow> Inr v | None \<Rightarrow> Inl Json_Out_Of_Range)"
  by (simp add: jat_def)

lemma jat_eq_Inr: "jat k j = Inr v \<longleftrightarrow> (\<exists>m. j = JObj m \<and> smap_get m k = Some v)"
  by (auto simp: jat_def split: json.splits option.splits)

lemma contains_JObj [simp]: "contains (JObj m) k \<longleftrightarrow> smap_get m k \<noteq> None"
  by (simp add: contains_def entries_def smap_has_def)

lemma contains_iff: "contains j k \<longleftrightarrow> (\<exists>v. jat k j = Inr v)"
  by (auto simp: contains_def entries_def smap_has_def jat_def split: json.splits option.splits)

lemma jat_jput [simp, json_simps]:
  "jat k (jput k' v j) = (if k = k' then Inr v
     else case smap_get (entries j) k of Some w \<Rightarrow> Inr w | None \<Rightarrow> Inl Json_Out_Of_Range)"
  by (simp add: jput_def jat_def smap_get_put)

lemma jat_jput_obj [json_simps]:
  "is_object j \<Longrightarrow> jat k (jput k' v j) = (if k = k' then Inr v else jat k j)"
  by (cases j) (simp_all add: jat_def entries_def jput_def smap_get_put)

lemma contains_jput [simp, json_simps]: "contains (jput k' v j) k \<longleftrightarrow> k = k' \<or> contains j k"
  by (simp add: contains_def jput_def entries_def smap_has_def smap_get_put)

lemma is_object_jput [simp]: "is_object (jput k v j)"
  by (simp add: jput_def)

lemma is_object_jobj [simp]: "is_object (jobj kvs)"
  by (simp add: jobj_def)

lemma smap_get_emplaces:
  "smap_get (fold (\<lambda>(k, v). smap_emplace k v) kvs m) k =
     (case smap_get m k of Some v \<Rightarrow> Some v | None \<Rightarrow> map_of kvs k)"
proof (induction kvs arbitrary: m)
  case Nil
  then show ?case by (simp split: option.split)
next
  case (Cons kv kvs)
  then show ?case
    by (cases kv) (auto simp: smap_get_emplace split: option.splits)
qed

lemma smap_get_jobj [json_simps]: "smap_get (entries (jobj kvs)) k = map_of kvs k"
  by (simp add: jobj_def entries_def smap_get_emplaces)

lemma smap_get_jput [json_simps]:
  "smap_get (entries (jput k v j)) k' = (if k' = k then Some v else smap_get (entries j) k')"
  by (simp add: jput_def entries_def smap_get_put)

lemma smap_get_entries: "smap_get (entries j) k = (case jat k j of Inr v \<Rightarrow> Some v | Inl _ \<Rightarrow> None)"
  by (simp add: entries_def jat_def split: json.splits option.splits)

lemma jat_jobj [json_simps]:
  "jat k (jobj kvs) = (case map_of kvs k of Some v \<Rightarrow> Inr v | None \<Rightarrow> Inl Json_Out_Of_Range)"
  by (simp add: jobj_def jat_def smap_get_emplaces)

lemma jvalue_jobj [json_simps]: "jvalue k d (jobj kvs) = (case map_of kvs k of Some v \<Rightarrow> Inr v | None \<Rightarrow> Inr d)"
  using smap_get_jobj[of kvs k] by (simp add: jvalue_def jobj_def entries_def)

lemma keys_emplaces: "fst ` set (fold (\<lambda>(k, v). smap_emplace k v) kvs m) = fst ` set m \<union> fst ` set kvs"
proof (induction kvs arbitrary: m)
  case (Cons kv kvs)
  have "fst ` set (smap_emplace k v m) = insert k (fst ` set m)" for k v
  proof (cases "smap_get m k")
    case None
    then show ?thesis using keys_smap_put[of k v m] by (simp add: smap_emplace_def)
  next
    case (Some w)
    then have "k \<in> fst ` set m" using map_of_SomeD[of m k w] by force
    then show ?thesis using Some by (auto simp: smap_emplace_def)
  qed
  then show ?case by (cases kv) (simp add: Cons.IH)
qed simp

lemma keys_jobj [json_simps]: "fst ` set (entries (jobj kvs)) = fst ` set kvs"
  by (simp add: jobj_def entries_def keys_emplaces)

lemma jempty_jobj [json_simps]: "jempty (jobj kvs) \<longleftrightarrow> kvs = []"
  using keys_jobj[of kvs] by (auto simp: jempty_def jrange_def jobj_def entries_def)

lemma jrange_JArr [json_simps]: "jrange (JArr xs) = xs" "elems (JArr xs) = xs" "jsize (JArr xs) = length xs"
  by (simp_all add: jrange_def elems_def jsize_def)

lemma contains_jobj [json_simps]: "contains (jobj kvs) k \<longleftrightarrow> map_of kvs k \<noteq> None"
  by (simp add: contains_def smap_has_def smap_get_jobj)

lemma jat_jerase:
  "wf_json j \<Longrightarrow> jat k (jerase k' j) = (if k = k' \<and> is_object j then Inl Json_Out_Of_Range else jat k j)"
  by (cases j) (auto simp: jat_def jerase_def smap_get_del split: option.splits)

lemma jstr_eq_Inr [simp]: "jstr j = Inr s \<longleftrightarrow> j = JStr s"
  by (auto simp: jstr_def split: json.splits)

lemma jstr_JStr [simp]: "jstr (JStr s) = Inr s"
  by simp

lemma jstr_at_eq_Inr [simp]: "jstr_at k j = Inr s \<longleftrightarrow> jat k j = Inr (JStr s)"
  by (auto simp: jstr_at_def)

lemma jbool_eq_Inr [simp]: "jbool j = Inr b \<longleftrightarrow> j = JBool b"
  by (auto simp: jbool_def split: json.splits)

lemma ju64_JUInt [simp]: "ju64 (JUInt w) = Inr (unat w)"
  by (simp add: ju64_def jword_def)

lemma unat_jnat: "n < 2 ^ 64 \<Longrightarrow> unat (word_of_nat n :: u64) = n"
  by (simp add: unat_of_nat take_bit_nat_eq_self)

lemma jeq_JStr [simp]: "jeq (JStr a) j \<longleftrightarrow> j = JStr a" "jeq j (JStr a) \<longleftrightarrow> j = JStr a"
  by (cases j; auto)+

lemma jeq_list_refl: "\<forall>x \<in> set xs. jeq x x \<Longrightarrow> jeq_list xs xs"
  by (induction xs) simp_all

lemma jeq_obj_refl: "\<forall>x \<in> set m. jeq (snd x) (snd x) \<Longrightarrow> jeq_obj m m"
  by (induction m) auto

lemma jeq_refl [simp]: "jeq j j"
proof (induction j)
  case (JArr xs)
  then show ?case by (simp add: jeq_list_refl)
next
  case (JObj m)
  then have "\<forall>x \<in> set m. jeq (snd x) (snd x)" by force
  then show ?case by (simp add: jeq_obj_refl)
qed simp_all

lemma jeq_JBool [simp]: "jeq (JBool a) j \<longleftrightarrow> j = JBool a" "jeq j (JBool a) \<longleftrightarrow> j = JBool a"
  by (cases j; auto)+

lemma smap_ok_jput: "smap_ok (entries j) \<Longrightarrow> smap_ok (entries (jput k v j))"
  by (simp add: jput_def entries_def smap_ok_put)

lemma smap_ok_jobj: "smap_ok (entries (jobj kvs))"
proof -
  have "smap_ok m \<Longrightarrow> smap_ok (fold (\<lambda>(k, v). smap_emplace k v) kvs m)" for m :: "(string \<times> json) list"
    by (induction kvs arbitrary: m) auto
  then show ?thesis by (simp add: jobj_def entries_def)
qed

lemma jput_same: "smap_ok (entries j) \<Longrightarrow> jat k j = Inr v \<Longrightarrow> jput k v j = j"
  by (cases j) (auto simp: jat_eq_Inr jput_def entries_def smap_get_put intro!: smap_ok_eqI)

lemma jset_object: "is_object j \<Longrightarrow> jset k v j = Inr (jput k v j)"
  by (cases j) (simp_all add: jset_def jput_def entries_def)

lemma jvalue_u64_jobj: "map_of kvs k = Some v \<Longrightarrow> jvalue_u64 k d (jobj kvs) = ju64 v"
  using smap_get_jobj[of kvs k] by (simp add: jvalue_u64_def jobj_def entries_def)

lemma jvalue_u64_present: "jat k j = Inr v \<Longrightarrow> jvalue_u64 k d j = ju64 v"
  by (auto simp: jat_eq_Inr jvalue_u64_def)

section \<open>Cutting UTF-8 text\<close>

text \<open>
  The test of the code, \<^verbatim>\<open>(byte & 0xc0) == 0x80\<close>: the byte continues a sequence.
\<close>

definition is_cont :: "char \<Rightarrow> bool" where
  "is_cont c = (ord c div 64 = 2)"

lemma is_cont_iff: "is_cont c \<longleftrightarrow> in_rng 128 191 c"
  by (auto simp: is_cont_def)

text \<open>
  A cut of valid text is valid on both sides exactly at the positions that are not inside a
  sequence: the end of the text and every byte that is no continuation byte.
\<close>

lemma utf8_ok_Cons_iff:
  "utf8_ok (a # s) \<longleftrightarrow>
     (\<exists>n. utf8_length a = Some n \<and> n - 1 \<le> length s \<and>
        (n \<noteq> 1 \<longrightarrow> utf8_second a (hd s)) \<and> list_all (in_rng 128 191) (take (n - 1) s) \<and>
        utf8_ok (drop (n - 1) s))"
proof -
  have sec: "utf8_second a b \<Longrightarrow> in_rng 128 191 b" for b
    by (auto simp: utf8_second_def split: if_splits)
  have len: "utf8_length a = Some n \<Longrightarrow> n = 1 \<or> (\<exists>m. n = Suc (Suc m))" for n
    by (auto simp: utf8_length_def split: if_splits)
  show ?thesis
  proof (cases "utf8_length a")
    case None
    then show ?thesis by (simp add: utf8_ok.simps(2))
  next
    case (Some n)
    with len consider "n = 1" | m where "n = Suc (Suc m)" by blast
    then show ?thesis
    proof cases
      case 1
      with Some show ?thesis by (simp add: utf8_ok.simps(2))
    next
      case (2 m)
      with Some sec show ?thesis
        by (cases s) (auto simp: utf8_ok.simps(2))
    qed
  qed
qed

lemma utf8_cut:
  assumes "utf8_ok s" and "n \<le> length s" and "n < length s \<longrightarrow> \<not> is_cont (s ! n)"
  shows "utf8_ok (take n s) \<and> utf8_ok (drop n s)"
  using assms
proof (induction s arbitrary: n rule: length_induct)
  case (1 s)
  show ?case
  proof (cases s)
    case Nil
    then show ?thesis by simp
  next
    case (Cons a t)
    with "1.prems"(1) obtain k where k: "utf8_length a = Some k" "k - 1 \<le> length t"
      "k \<noteq> 1 \<longrightarrow> utf8_second a (hd t)" "list_all (in_rng 128 191) (take (k - 1) t)"
      "utf8_ok (drop (k - 1) t)"
      by (auto simp: utf8_ok_Cons_iff)
    show ?thesis
    proof (cases n)
      case 0
      with "1.prems"(1) show ?thesis by simp
    next
      case (Suc m)
      have "k - 1 \<le> m"
      proof (rule ccontr)
        assume "\<not> k - 1 \<le> m"
        then have "m < length (take (k - 1) t)" "take (k - 1) t ! m = t ! m"
          using k(2) by auto
        then have "in_rng 128 191 (t ! m)"
          using k(4) by (metis list_all_length)
        then show False
          using "1.prems"(3) Suc Cons \<open>m < length (take (k - 1) t)\<close> by (auto simp: is_cont_iff)
      qed
      define r where "r = drop (k - 1) t"
      have "utf8_ok (take (m - (k - 1)) r) \<and> utf8_ok (drop (m - (k - 1)) r)"
      proof (rule "1.IH" [rule_format])
        show "length r < length s" using Cons by (simp add: r_def)
        show "utf8_ok r" using k(5) by (simp add: r_def)
        show "m - (k - 1) \<le> length r"
          using "1.prems"(2) Suc Cons by (simp add: r_def)
        assume "m - (k - 1) < length r"
        then show "\<not> is_cont (r ! (m - (k - 1)))"
          using "1.prems"(3) Suc Cons \<open>k - 1 \<le> m\<close> by (simp add: r_def)
      qed
      moreover have "take (m - (k - 1)) r = drop (k - 1) (take m t)"
        by (simp add: r_def drop_take)
      moreover have "drop (m - (k - 1)) r = drop m t"
        using \<open>k - 1 \<le> m\<close> by (simp add: r_def)
      moreover have "take (k - 1) (take m t) = take (k - 1) t"
        using \<open>k - 1 \<le> m\<close> by (simp add: min_def)
      moreover have "k \<noteq> 1 \<longrightarrow> hd (take m t) = hd t"
      proof
        assume "k \<noteq> 1"
        moreover have "k \<noteq> 0"
          using k(1) by (auto simp: utf8_length_def split: if_splits)
        ultimately have "m \<noteq> 0"
          using \<open>k - 1 \<le> m\<close> by simp
        then show "hd (take m t) = hd t" by simp
      qed
      moreover have "k - 1 \<le> length (take m t)"
        using \<open>k - 1 \<le> m\<close> k(2) by simp
      ultimately show ?thesis
        using k Suc Cons by (auto simp: utf8_ok_Cons_iff)
    qed
  qed
qed

lemma utf8_ok_append: "utf8_ok s \<Longrightarrow> utf8_ok (s @ t) \<longleftrightarrow> utf8_ok t"
proof (induction s rule: length_induct)
  case (1 s)
  show ?case
  proof (cases s)
    case Nil
    then show ?thesis by simp
  next
    case (Cons a u)
    with "1.prems" obtain k where k: "utf8_length a = Some k" "k - 1 \<le> length u"
      "k \<noteq> 1 \<longrightarrow> utf8_second a (hd u)" "list_all (in_rng 128 191) (take (k - 1) u)"
      "utf8_ok (drop (k - 1) u)"
      by (auto simp: utf8_ok_Cons_iff)
    have "utf8_ok (drop (k - 1) u @ t) \<longleftrightarrow> utf8_ok t"
      using "1.IH" k(5) Cons by auto
    moreover have "k \<noteq> 1 \<longrightarrow> hd (u @ t) = hd u"
    proof
      assume "k \<noteq> 1"
      moreover have "k \<noteq> 0"
        using k(1) by (auto simp: utf8_length_def split: if_splits)
      ultimately have "u \<noteq> []" using k(2) by auto
      then show "hd (u @ t) = hd u" by simp
    qed
    ultimately show ?thesis
      using k Cons by (auto simp: utf8_ok_Cons_iff)
  qed
qed

lemma utf8_ok_ascii: "list_all (\<lambda>c. ord c < 128) s \<Longrightarrow> utf8_ok s"
  by (induction s) (auto simp: utf8_ok_Cons_iff utf8_length_def)

section \<open>Preservation of well-formedness\<close>

lemma set_smap_put: "set (smap_put k v m) \<subseteq> insert (k, v) (set m)"
  by (induction k v m rule: smap_put.induct) auto

lemma wf_jput [intro, wf_intros]: "wf_json j \<Longrightarrow> wf_json v \<Longrightarrow> wf_json (jput k v j)"
  using set_smap_put [of k v "entries j"]
  by (cases j) (auto simp: jput_def entries_def smap_ok_Cons)

lemma wf_jobj [intro, wf_intros]:
  assumes "\<forall>(k, v) \<in> set kvs. wf_json v"
  shows "wf_json (jobj kvs)"
proof -
  have "smap_ok m \<and> (\<forall>(k, v) \<in> set m. wf_json v) \<Longrightarrow>
    smap_ok (fold (\<lambda>(k, v). smap_emplace k v) kvs m) \<and>
    (\<forall>(k, v) \<in> set (fold (\<lambda>(k, v). smap_emplace k v) kvs m). wf_json v)" for m :: "(string \<times> json) list"
    using assms
  proof (induction kvs arbitrary: m)
    case Nil
    then show ?case by simp
  next
    case (Cons kv kvs)
    obtain k v where kv: "kv = (k, v)" by (cases kv)
    have "set (smap_emplace k v m) \<subseteq> insert (k, v) (set m)"
      using set_smap_put [of k v m] by (auto simp: smap_emplace_def split: option.splits)
    then have "smap_ok (smap_emplace k v m) \<and> (\<forall>(k, v) \<in> set (smap_emplace k v m). wf_json v)"
      using Cons.prems kv by (auto 0 4)
    then show ?case
      using Cons.IH Cons.prems(2) by (simp add: kv)
  qed
  from this [of "[]"] show ?thesis by (simp add: jobj_def)
qed

lemma set_emplaces: "set (fold (\<lambda>(k, v). smap_emplace k v) kvs m) \<subseteq> set m \<union> set kvs"
proof (induction kvs arbitrary: m)
  case (Cons kv kvs)
  obtain k v where kv: "kv = (k, v)" by (cases kv)
  have "set (smap_emplace k v m) \<subseteq> insert (k, v) (set m)"
    using set_smap_put [of k v m] by (auto simp: smap_emplace_def split: option.splits)
  then show ?case using Cons.IH[of "smap_emplace k v m"] by (auto simp: kv)
qed simp

lemma dumpable_jobj [intro]:
  assumes "\<forall>(k, v) \<in> set kvs. utf8_ok k \<and> dumpable v"
  shows "dumpable (jobj kvs)"
  using set_emplaces[of kvs "[]"] assms by (auto simp: jobj_def)

lemma dumpable_jput [intro]: "dumpable j \<Longrightarrow> utf8_ok k \<Longrightarrow> dumpable v \<Longrightarrow> dumpable (jput k v j)"
  using set_smap_put [of k v "entries j"] by (cases j) (auto simp: jput_def entries_def)

lemma dump_dumpable: "dumpable j \<Longrightarrow> dump j = Inr (dump_text j)"
  by (simp add: dump_def)

lemma wf_jat: "wf_json j \<Longrightarrow> jat k j = Inr v \<Longrightarrow> wf_json v"
  by (auto simp: jat_eq_Inr dest!: map_of_SomeD)

lemma jvalue_present: "jat k j = Inr v \<Longrightarrow> jvalue k d j = Inr v"
  by (auto simp: jat_eq_Inr jvalue_def)

text \<open>A parser that reads nothing, for instances in which no stored text is parsed.\<close>

abbreviation no_parse :: "string \<Rightarrow> json res" where
  "no_parse \<equiv> (\<lambda>_. Inl Json_Parse)"

end
