(* ===== verification/Ind_Sha256.thy ===== *)
theory Ind_Sha256
  imports Ind_Chars
begin

text \<open>
  The hash of the content store (\<^verbatim>\<open>src/sha256.cpp\<close>): the streaming hasher as the class
  has it, with its partly filled block, the two entry points, and the lemmas that it is
  independent of how the data is cut and computes the padded block chain of the standard.
\<close>

unbundle bit_operations_syntax

section \<open>The hasher\<close>

definition constants :: "u32 list" where
  "constants = concat [
     [0x428a2f98, 0x71374491, 0xb5c0fbcf, 0xe9b5dba5],
     [0x3956c25b, 0x59f111f1, 0x923f82a4, 0xab1c5ed5],
     [0xd807aa98, 0x12835b01, 0x243185be, 0x550c7dc3],
     [0x72be5d74, 0x80deb1fe, 0x9bdc06a7, 0xc19bf174],
     [0xe49b69c1, 0xefbe4786, 0x0fc19dc6, 0x240ca1cc],
     [0x2de92c6f, 0x4a7484aa, 0x5cb0a9dc, 0x76f988da],
     [0x983e5152, 0xa831c66d, 0xb00327c8, 0xbf597fc7],
     [0xc6e00bf3, 0xd5a79147, 0x06ca6351, 0x14292967],
     [0x27b70a85, 0x2e1b2138, 0x4d2c6dfc, 0x53380d13],
     [0x650a7354, 0x766a0abb, 0x81c2c92e, 0x92722c85],
     [0xa2bfe8a1, 0xa81a664b, 0xc24b8b70, 0xc76c51a3],
     [0xd192e819, 0xd6990624, 0xf40e3585, 0x106aa070],
     [0x19a4c116, 0x1e376c08, 0x2748774c, 0x34b0bcb5],
     [0x391c0cb3, 0x4ed8aa4a, 0x5b9cca4f, 0x682e6ff3],
     [0x748f82ee, 0x78a5636f, 0x84c87814, 0x8cc70208],
     [0x90befffa, 0xa4506ceb, 0xbef9a3f7, 0xc67178f2]]"

definition rotate_right :: "u32 \<Rightarrow> nat \<Rightarrow> u32" where
  "rotate_right value count = drop_bit count value OR push_bit (32 - count) value"

record sha256 =
  state :: "u32 list"
  block :: "u8 list"
  buffered :: nat
  total_bytes :: u64

definition sha256_iv :: "u32 list" where
  "sha256_iv = [0x6a09e667, 0xbb67ae85, 0x3c6ef372, 0xa54ff53a, 0x510e527f, 0x9b05688c, 0x1f83d9ab, 0x5be0cd19]"

definition sha256_init :: sha256 where
  "sha256_init = \<lparr>state = sha256_iv, block = replicate 64 0, buffered = 0, total_bytes = 0\<rparr>"

definition word_at :: "u8 list \<Rightarrow> nat \<Rightarrow> u32" where
  "word_at d i =
     push_bit 24 (ucast (d ! (i * 4))) OR push_bit 16 (ucast (d ! (i * 4 + 1)))
     OR push_bit 8 (ucast (d ! (i * 4 + 2))) OR ucast (d ! (i * 4 + 3))"

definition schedule_step :: "u32 list \<Rightarrow> nat \<Rightarrow> u32 list" where
  "schedule_step w i =
     (let x = w ! (i - 15); y = w ! (i - 2);
          s0 = rotate_right x 7 XOR rotate_right x 18 XOR drop_bit 3 x;
          s1 = rotate_right y 17 XOR rotate_right y 19 XOR drop_bit 10 y
      in w @ [w ! (i - 16) + s0 + w ! (i - 7) + s1])"

definition schedule :: "u8 list \<Rightarrow> u32 list" where
  "schedule d = foldl schedule_step (map (word_at d) [0..<16]) [16..<64]"

fun round_step :: "u32 list \<Rightarrow> u32 \<times> u32 \<Rightarrow> u32 list" where
  "round_step [a, b, c, d, e, f, g, h] (k, w) =
     (let s1 = rotate_right e 6 XOR rotate_right e 11 XOR rotate_right e 25;
          choice = (e AND f) XOR (NOT e AND g);
          temp1 = h + s1 + choice + k + w;
          s0 = rotate_right a 2 XOR rotate_right a 13 XOR rotate_right a 22;
          majority = (a AND b) XOR (a AND c) XOR (b AND c);
          temp2 = s0 + majority
      in [temp1 + temp2, a, b, c, d + temp1, e, f, g])"
| "round_step s _ = s"

text \<open>\<^verbatim>\<open>transform\<close>: the compression of one 64-byte block into the state.\<close>

definition transform :: "u32 list \<Rightarrow> u8 list \<Rightarrow> u32 list" where
  "transform st d = map2 (+) st (foldl round_step st (zip constants (schedule d)))"

text \<open>\<^verbatim>\<open>std::copy_n(data, count, block_.begin() + buffered_)\<close>.\<close>

definition overwrite :: "'a list \<Rightarrow> nat \<Rightarrow> 'a list \<Rightarrow> 'a list" where
  "overwrite xs pos ys = take pos xs @ ys @ drop (pos + length ys) xs"

text \<open>
  The loop of \<^verbatim>\<open>update\<close>.  Between iterations \<open>buffered_\<close> is below 64 (\<open>sha_ok\<close>), so
  \<open>count\<close> is positive and the loop ends; the test \<open>count = 0\<close> only makes the recursion
  total on values that the class cannot hold.
\<close>

function update_loop :: "sha256 \<Rightarrow> u8 list \<Rightarrow> sha256" where
  "update_loop h data =
     (let count = min (length data) (64 - buffered h) in
      if data = [] \<or> count = 0 then h
      else let b = overwrite (block h) (buffered h) (take count data);
               n = buffered h + count;
               h' = (if n = 64 then h\<lparr>state := transform (state h) b, block := b, buffered := 0\<rparr>
                     else h\<lparr>block := b, buffered := n\<rparr>)
           in update_loop h' (drop count data))"
  by pat_completeness auto
termination
  by (relation "measure (\<lambda>(h, d). length d)") auto

declare update_loop.simps [simp del]

definition update :: "sha256 \<Rightarrow> u8 list \<Rightarrow> sha256" where
  "update h data = update_loop (h\<lparr>total_bytes := total_bytes h + word_of_nat (length data)\<rparr>) data"

definition be_bytes :: "u64 \<Rightarrow> u8 list" where
  "be_bytes n = map (\<lambda>i. ucast (drop_bit ((7 - i) * 8) n)) [0..<8]"

definition digest_bytes :: "u32 list \<Rightarrow> u8 list" where
  "digest_bytes st = concat (map (\<lambda>w. map (\<lambda>j. ucast (drop_bit (24 - j * 8) w)) [0..<4]) st)"

definition finish :: "sha256 \<Rightarrow> u8 list" where
  "finish h =
     (let bit_length = total_bytes h * 8;
          b1 = overwrite (block h) (buffered h) [0x80];
          n1 = buffered h + 1;
          (st, b2, n2) =
            (if n1 > 56
             then (let b = overwrite b1 n1 (replicate (64 - n1) 0)
                   in (transform (state h) b, b, 0))
             else (state h, b1, n1));
          b3 = overwrite b2 n2 (replicate (56 - n2) 0);
          b4 = overwrite b3 56 (be_bytes bit_length)
      in digest_bytes (transform st b4))"

definition hex_text :: "u8 list \<Rightarrow> string" where
  "hex_text bs = to_hex (string_of bs)"

definition sha256_text :: "string \<Rightarrow> string" where
  "sha256_text text = hex_text (finish (update sha256_init (bytes_of text)))"

text \<open>
  \<^verbatim>\<open>sha256_file\<close> reads chunks of 64 KiB until a read comes back short; \<open>content\<close> is the
  file's bytes, \<open>None\<close> a file that cannot be opened.
\<close>

function read_chunks :: "nat \<Rightarrow> 'a list \<Rightarrow> 'a list list" where
  "read_chunks n bs =
     (if length bs < n \<or> n = 0 then [bs] else take n bs # read_chunks n (drop n bs))"
  by pat_completeness auto
termination
  by (relation "measure (\<lambda>(n, bs). length bs)") auto

declare read_chunks.simps [simp del]

definition sha256_file :: "string \<Rightarrow> string option \<Rightarrow> string res" where
  "sha256_file path content =
     (case content of
        None \<Rightarrow> throw (''cannot open file for hashing: '' @ path)
      | Some text \<Rightarrow>
          Inr (hex_text (finish (fold (\<lambda>c h. update h c) (read_chunks 65536 (bytes_of text)) sha256_init))))"

section \<open>The interface of a streaming hasher\<close>

text \<open>
  What a caller of the class relies on: updates compose, so the digest depends on the
  concatenated data only.
\<close>

locale stream_hasher =
  fixes init :: 'h and upd :: "'h \<Rightarrow> 'b list \<Rightarrow> 'h" and inv :: "'h \<Rightarrow> bool"
  assumes inv_init: "inv init"
    and inv_upd: "inv h \<Longrightarrow> inv (upd h d)"
    and upd_Nil: "inv h \<Longrightarrow> upd h [] = h"
    and upd_append: "inv h \<Longrightarrow> upd (upd h d) e = upd h (d @ e)"
begin

lemma fold_upd: "inv h \<Longrightarrow> fold (\<lambda>c h. upd h c) cs h = upd h (concat cs)"
proof (induction cs arbitrary: h)
  case Nil
  then show ?case by (simp add: upd_Nil)
next
  case (Cons c cs)
  then show ?case by (simp add: inv_upd upd_append)
qed

lemma fold_upd_init: "fold (\<lambda>c h. upd h c) cs init = upd init (concat cs)"
  by (rule fold_upd) (rule inv_init)

end

section \<open>One byte at a time\<close>

definition sha_ok :: "sha256 \<Rightarrow> bool" where
  "sha_ok h = (length (block h) = 64 \<and> buffered h < 64 \<and> length (state h) = 8)"

definition push :: "sha256 \<Rightarrow> u8 \<Rightarrow> sha256" where
  "push h x =
     (let b = (block h)[buffered h := x] in
      if buffered h + 1 = 64
      then h\<lparr>state := transform (state h) b, block := b, buffered := 0\<rparr>
      else h\<lparr>block := b, buffered := buffered h + 1\<rparr>)"

lemma push_below:
  "buffered h + 1 \<noteq> 64 \<Longrightarrow>
     push h x = h\<lparr>block := (block h)[buffered h := x], buffered := buffered h + 1\<rparr>"
  by (simp add: push_def)

lemma push_flush:
  "buffered h + 1 = 64 \<Longrightarrow>
     push h x = h\<lparr>state := transform (state h) ((block h)[buffered h := x]),
       block := (block h)[buffered h := x], buffered := 0\<rparr>"
  by (simp add: push_def Let_def)

lemma length_round_step: "length st = 8 \<Longrightarrow> length (round_step st kw) = 8"
  by (induction st kw rule: round_step.induct) (auto simp: Let_def)

lemma length_rounds: "length st = 8 \<Longrightarrow> length (foldl round_step st kws) = 8"
  by (induction kws arbitrary: st) (simp_all add: length_round_step)

lemma length_transform [simp]: "length st = 8 \<Longrightarrow> length (transform st d) = 8"
  by (simp add: transform_def length_rounds)

lemma sha_ok_push: "sha_ok h \<Longrightarrow> sha_ok (push h x)"
  by (auto simp: sha_ok_def push_def Let_def)

lemma sha_ok_pushes: "sha_ok h \<Longrightarrow> sha_ok (foldl push h xs)"
  by (induction xs arbitrary: h) (simp_all add: sha_ok_push)

lemma overwrite_Nil [simp]: "overwrite xs n [] = xs"
  by (simp add: overwrite_def)

lemma overwrite_snoc:
  assumes "n + length ys < length xs"
  shows "overwrite xs n (ys @ [y]) = (overwrite xs n ys)[n + length ys := y]"
proof -
  have "drop (n + length ys) xs = xs ! (n + length ys) # drop (Suc (n + length ys)) xs"
    using assms by (simp add: Cons_nth_drop_Suc)
  moreover have "min (length xs) n = n"
    using assms by simp
  ultimately show ?thesis
    by (simp add: overwrite_def list_update_append)
qed

lemma length_overwrite [simp]: "n + length ys \<le> length xs \<Longrightarrow> length (overwrite xs n ys) = length xs"
  by (simp add: overwrite_def)

lemma pushes_below:
  assumes "sha_ok h" and "buffered h + length ys < 64"
  shows "foldl push h ys = h\<lparr>block := overwrite (block h) (buffered h) ys, buffered := buffered h + length ys\<rparr>"
  using assms
proof (induction ys rule: rev_induct)
  case Nil
  then show ?case by simp
next
  case (snoc y ys)
  then have "foldl push h (ys @ [y]) =
      push (h\<lparr>block := overwrite (block h) (buffered h) ys, buffered := buffered h + length ys\<rparr>) y"
    by simp
  also have "\<dots> = h\<lparr>block := (overwrite (block h) (buffered h) ys)[buffered h + length ys := y],
      buffered := buffered h + length ys + 1\<rparr>"
    using snoc.prems by (subst push_below) simp_all
  finally show ?case
    using snoc.prems by (simp add: overwrite_snoc sha_ok_def)
qed

lemma pushes_flush:
  assumes "sha_ok h" and "buffered h + length ys = 64"
  shows "foldl push h ys =
    (let b = overwrite (block h) (buffered h) ys in
     h\<lparr>state := transform (state h) b, block := b, buffered := 0\<rparr>)"
proof -
  have "ys \<noteq> []"
    using assms by (auto simp: sha_ok_def)
  then obtain zs z where ys: "ys = zs @ [z]"
    by (cases ys rule: rev_cases) auto
  then have "foldl push h ys =
      push (h\<lparr>block := overwrite (block h) (buffered h) zs, buffered := buffered h + length zs\<rparr>) z"
    using assms by (simp add: pushes_below)
  also have "\<dots> = h\<lparr>state := transform (state h) ((overwrite (block h) (buffered h) zs)[buffered h + length zs := z]),
      block := (overwrite (block h) (buffered h) zs)[buffered h + length zs := z], buffered := 0\<rparr>"
    using assms ys by (subst push_flush) simp_all
  finally show ?thesis
    using assms ys by (simp add: Let_def overwrite_snoc sha_ok_def)
qed

lemma push_total [simp]: "total_bytes (push h x) = total_bytes h"
  by (simp add: push_def Let_def)

lemma pushes_total [simp]: "total_bytes (foldl push h xs) = total_bytes h"
  by (induction xs arbitrary: h) simp_all

lemma push_with_total: "push (h\<lparr>total_bytes := n\<rparr>) x = (push h x)\<lparr>total_bytes := n\<rparr>"
  by (simp add: push_def Let_def)

lemma pushes_with_total: "foldl push (h\<lparr>total_bytes := n\<rparr>) xs = (foldl push h xs)\<lparr>total_bytes := n\<rparr>"
  by (induction xs arbitrary: h) (simp_all add: push_with_total)

text \<open>The chunked loop of the source does what pushing the bytes one by one does.\<close>

lemma update_loop_push: "sha_ok h \<Longrightarrow> update_loop h data = foldl push h data"
proof (induction h data rule: update_loop.induct)
  case (1 h data)
  let ?count = "min (length data) (64 - buffered h)"
  show ?case
  proof (cases "data = []")
    case True
    then show ?thesis by (simp add: update_loop.simps)
  next
    case False
    have count: "?count \<noteq> 0"
      using False "1.prems" by (auto simp: sha_ok_def)
    define ys where "ys = take ?count data"
    define b where "b = overwrite (block h) (buffered h) ys"
    define h' where "h' = (if buffered h + ?count = 64
      then h\<lparr>state := transform (state h) b, block := b, buffered := 0\<rparr>
      else h\<lparr>block := b, buffered := buffered h + ?count\<rparr>)"
    have len: "length ys = ?count"
      by (simp add: ys_def)
    have b64: "buffered h < 64" "?count \<le> 64 - buffered h"
      using "1.prems" by (simp_all add: sha_ok_def)
    have h': "h' = foldl push h ys"
    proof (cases "buffered h + ?count = 64")
      case True
      with "1.prems" len show ?thesis
        by (simp add: h'_def b_def pushes_flush Let_def)
    next
      case no: False
      have "buffered h + length ys < 64"
        using no len b64 by linarith
      with "1.prems" no len show ?thesis
        by (simp add: h'_def b_def pushes_below)
    qed
    have "update_loop h data = update_loop h' (drop ?count data)"
      using False count by (subst update_loop.simps) (simp add: Let_def h'_def b_def ys_def)
    also have "\<dots> = foldl push h' (drop ?count data)"
    proof -
      have "sha_ok h'"
        using h' "1.prems" by (simp add: sha_ok_pushes)
      then show ?thesis
        unfolding h'_def b_def ys_def
        by (rule "1.IH" [OF refl _ refl refl refl, rotated]) (use False count in blast)
    qed
    also have "\<dots> = foldl push h data"
      by (metis append_take_drop_id foldl_append h' ys_def)
    finally show ?thesis .
  qed
qed

lemma sha_ok_total [simp]: "sha_ok (h\<lparr>total_bytes := n\<rparr>) = sha_ok h"
  by (simp add: sha_ok_def)

lemma update_push:
  "sha_ok h \<Longrightarrow> update h data = (foldl push h data)\<lparr>total_bytes := total_bytes h + word_of_nat (length data)\<rparr>"
  by (simp add: update_def update_loop_push pushes_with_total)

lemma sha_ok_init [simp]: "sha_ok sha256_init"
  by (simp add: sha_ok_def sha256_init_def sha256_iv_def)

lemma sha_ok_update: "sha_ok h \<Longrightarrow> sha_ok (update h data)"
  by (simp add: update_push sha_ok_pushes)

lemma update_append: "sha_ok h \<Longrightarrow> update (update h d) e = update h (d @ e)"
  by (simp add: update_push sha_ok_pushes pushes_with_total algebra_simps)

lemma update_Nil: "sha_ok h \<Longrightarrow> update h [] = h"
  by (simp add: update_push)

interpretation sha: stream_hasher sha256_init update sha_ok
  by unfold_locales (simp_all add: sha_ok_update update_append update_Nil)

lemma concat_read_chunks: "concat (read_chunks n bs) = bs"
proof (induction n bs rule: read_chunks.induct)
  case (1 n bs)
  then show ?case
    by (subst read_chunks.simps) auto
qed

section \<open>The padded block chain\<close>

text \<open>
  The reference: the message, the byte 0x80, zeros up to 56 modulo 64, and the length in
  bits as eight big-endian bytes, cut into blocks of 64 that are compressed in order.
\<close>

function blocks :: "'a list \<Rightarrow> 'a list list" where
  "blocks xs = (if length xs < 64 then [] else take 64 xs # blocks (drop 64 xs))"
  by pat_completeness auto
termination
  by (relation "measure length") auto

declare blocks.simps [simp del]

definition zero_count :: "nat \<Rightarrow> nat" where
  "zero_count n = (119 - n mod 64) mod 64"

definition padded :: "u8 list \<Rightarrow> u8 list" where
  "padded m = m @ [0x80] @ replicate (zero_count (length m)) 0 @ be_bytes (word_of_nat (length m) * 8)"

definition sha256_spec :: "u8 list \<Rightarrow> u8 list" where
  "sha256_spec m = digest_bytes (foldl transform sha256_iv (blocks (padded m)))"

lemma blocks_short: "length xs < 64 \<Longrightarrow> blocks xs = []"
  by (simp add: blocks.simps)

lemma blocks_append:
  "64 dvd length xs \<Longrightarrow> blocks (xs @ ys) = blocks xs @ blocks ys"
proof (induction xs rule: blocks.induct)
  case (1 xs)
  show ?case
  proof (cases "length xs < 64")
    case True
    with "1.prems" have "xs = []" by (auto simp: dvd_def)
    then show ?thesis by (simp add: blocks_short)
  next
    case False
    moreover have "64 dvd length (drop 64 xs)"
      using "1.prems" False by (simp add: dvd_minus_self)
    ultimately have "blocks (drop 64 xs @ ys) = blocks (drop 64 xs) @ blocks ys"
      using "1.IH" by simp
    then show ?thesis
      using False by (simp add: blocks.simps [of xs] blocks.simps [of "xs @ ys"])
  qed
qed

lemma blocks_one: "length xs = 64 \<Longrightarrow> blocks xs = [xs]"
  by (simp add: blocks.simps)

text \<open>
  What a hasher that has read \<open>m\<close> holds: the chain over the full blocks of \<open>m\<close>, and the
  rest of \<open>m\<close> in its block.
\<close>

definition holds_message :: "sha256 \<Rightarrow> u8 list \<Rightarrow> bool" where
  "holds_message h m =
     (\<exists>done rest. m = done @ rest \<and> 64 dvd length done \<and> length rest < 64 \<and>
        buffered h = length rest \<and> take (length rest) (block h) = rest \<and>
        state h = foldl transform sha256_iv (blocks done))"

lemma holds_message_push:
  assumes "sha_ok h" and "holds_message h m"
  shows "holds_message (push h x) (m @ [x])"
proof -
  from assms(2) obtain d rest where m: "m = d @ rest" "64 dvd length d" "length rest < 64"
    "buffered h = length rest" "take (length rest) (block h) = rest"
    "state h = foldl transform sha256_iv (blocks d)"
    by (auto simp: holds_message_def)
  have tk: "take (Suc (length rest)) ((block h)[length rest := x]) = rest @ [x]"
    using m(3,5) assms(1) by (simp add: sha_ok_def take_Suc_conv_app_nth)
  show ?thesis
  proof (cases "length rest + 1 = 64")
    case True
    have b: "(block h)[length rest := x] = rest @ [x]"
      using tk True assms(1) by (simp add: sha_ok_def)
    have "blocks (d @ rest @ [x]) = blocks d @ [rest @ [x]]"
      using m(2) True by (simp add: blocks_append blocks_one)
    then have "state (push h x) = foldl transform sha256_iv (blocks (d @ rest @ [x]))"
      using True m b by (simp add: push_def Let_def)
    moreover have "64 dvd length (d @ rest @ [x])"
      using m(2) True by simp
    moreover have "buffered (push h x) = 0"
      using True m by (simp add: push_def Let_def)
    ultimately show ?thesis
      unfolding holds_message_def using m(1)
      by (intro exI [of _ "d @ rest @ [x]"] exI [of _ "[]"]) simp
  next
    case False
    then show ?thesis
      unfolding holds_message_def using m tk
      by (intro exI [of _ d] exI [of _ "rest @ [x]"]) (simp add: push_def Let_def)
  qed
qed

lemma holds_message_pushes:
  "sha_ok h \<Longrightarrow> holds_message h m \<Longrightarrow> holds_message (foldl push h xs) (m @ xs)"
proof (induction xs arbitrary: h m)
  case Nil
  then show ?case by simp
next
  case (Cons x xs)
  from Cons.IH [OF sha_ok_push [OF Cons.prems(1)] holds_message_push [OF Cons.prems]]
  show ?case by simp
qed

lemma holds_message_init: "holds_message sha256_init []"
  by (auto simp: holds_message_def sha256_init_def blocks_short)

lemma holds_message_total [simp]: "holds_message (h\<lparr>total_bytes := n\<rparr>) m = holds_message h m"
  by (simp add: holds_message_def)

lemma length_be_bytes [simp]: "length (be_bytes n) = 8"
  by (simp add: be_bytes_def)

lemma zero_count_eq:
  assumes "64 dvd d" and "r < 64"
  shows "zero_count (d + r) = (if r < 56 then 55 - r else 119 - r)"
proof -
  have "(d + r) mod 64 = r"
    using assms by (metis mod_add_eq mod_less add_0 dvd_imp_mod_0 mod_mod_trivial)
  then show ?thesis
    using assms(2) by (auto simp: zero_count_def mod_if)
qed

lemma take_drop_overwrite:
  "n + length ys \<le> length xs \<Longrightarrow> take (n + length ys) (overwrite xs n ys) = take n xs @ ys"
  by (simp add: overwrite_def)

lemma overwrite_end: "n + length ys = length xs \<Longrightarrow> overwrite xs n ys = take n xs @ ys"
  by (simp add: overwrite_def)

lemma finish_spec:
  assumes ok: "sha_ok h" and holds: "holds_message h m"
    and total: "total_bytes h = word_of_nat (length m)"
  shows "finish h = sha256_spec m"
proof -
  from holds obtain d rest where m: "m = d @ rest" "64 dvd length d" "length rest < 64"
    "buffered h = length rest" "take (length rest) (block h) = rest"
    "state h = foldl transform sha256_iv (blocks d)"
    by (auto simp: holds_message_def)
  define r where "r = length rest"
  define len8 where "len8 = be_bytes (total_bytes h * 8)"
  have blk: "length (block h) = 64"
    using ok by (simp add: sha_ok_def)
  define b1 where "b1 = overwrite (block h) r [0x80]"
  have len_b1: "length b1 = 64"
    using blk m(3) by (simp add: b1_def r_def)
  have take_b1: "take (Suc r) b1 = rest @ [0x80]"
    using take_drop_overwrite [of r "[0x80]" "block h"] blk m(3,5) by (simp add: b1_def r_def)
  have pad: "padded m = d @ rest @ [0x80] @ replicate (zero_count (length d + r)) 0 @ len8"
    by (simp add: padded_def m(1) len8_def total r_def)
  show ?thesis
  proof (cases "r + 1 > 56")
    case True
    define c where "c = rest @ [0x80] @ replicate (64 - Suc r) 0"
    have c: "overwrite b1 (Suc r) (replicate (64 - Suc r) 0) = c"
      using len_b1 take_b1 m(3) by (simp add: overwrite_end c_def r_def)
    have len_c: "length c = 64"
      using m(3) by (simp add: c_def r_def)
    define e where "e = replicate 56 (0::u8) @ len8"
    have e: "overwrite (overwrite c 0 (replicate 56 0)) 56 len8 = e"
    proof -
      have "take 56 (overwrite c 0 (replicate 56 0)) = replicate 56 (0::u8)"
        using take_drop_overwrite [of 0 "replicate 56 0" c] len_c by simp
      then show ?thesis
        using len_c by (subst overwrite_end) (simp_all add: len8_def e_def)
    qed
    have "replicate (119 - r) (0::u8) = replicate (64 - Suc r) 0 @ replicate 56 0"
      using True m(3) by (simp add: replicate_add [symmetric] r_def)
    then have "padded m = d @ c @ e"
      using True m(3) by (simp add: pad zero_count_eq [OF m(2)] c_def e_def r_def)
    then have "blocks (padded m) = blocks d @ [c, e]"
      using m(2) len_c by (simp add: blocks_append blocks_one e_def len8_def)
    moreover have "finish h = digest_bytes (transform (transform (state h) c) e)"
      using True m(4) c e
      by (simp add: finish_def Let_def b1_def [symmetric] r_def [symmetric] len8_def [symmetric])
    ultimately show ?thesis
      by (simp add: sha256_spec_def m(6))
  next
    case False
    define e where "e = rest @ [0x80] @ replicate (55 - r) 0 @ len8"
    have b3: "take 56 (overwrite b1 (Suc r) (replicate (56 - Suc r) 0)) = rest @ [0x80] @ replicate (55 - r) 0"
      using take_drop_overwrite [of "Suc r" "replicate (56 - Suc r) 0" b1] len_b1 take_b1 False by simp
    have e: "overwrite (overwrite b1 (Suc r) (replicate (56 - Suc r) 0)) 56 len8 = e"
      using b3 len_b1 False by (subst overwrite_end) (simp_all add: len8_def e_def)
    have "padded m = d @ e"
      using False m(3) by (simp add: pad zero_count_eq [OF m(2)] e_def r_def)
    moreover have "length e = 64"
      using False by (simp add: e_def len8_def r_def)
    ultimately have "blocks (padded m) = blocks d @ [e]"
      using m(2) by (simp add: blocks_append blocks_one)
    moreover have "finish h = digest_bytes (transform (state h) e)"
      using False m(4) e
      by (simp add: finish_def Let_def b1_def [symmetric] r_def [symmetric] len8_def [symmetric])
    ultimately show ?thesis
      by (simp add: sha256_spec_def m(6))
  qed
qed

lemma holds_message_update:
  "sha_ok h \<Longrightarrow> holds_message h m \<Longrightarrow> total_bytes h = word_of_nat (length m) \<Longrightarrow>
     holds_message (update h d) (m @ d) \<and> total_bytes (update h d) = word_of_nat (length (m @ d))"
  by (simp add: update_push holds_message_pushes)

lemma sha256_text_spec: "sha256_text text = hex_text (sha256_spec (bytes_of text))"
proof -
  have "holds_message (update sha256_init (bytes_of text)) (bytes_of text) \<and>
      total_bytes (update sha256_init (bytes_of text)) = word_of_nat (length (bytes_of text))"
    using holds_message_update [OF sha_ok_init holds_message_init, of "bytes_of text"]
    by (simp add: sha256_init_def)
  then show ?thesis
    using finish_spec sha_ok_update [OF sha_ok_init] by (auto simp: sha256_text_def)
qed

lemma sha256_file_text: "sha256_file path (Some text) = Inr (sha256_text text)"
  by (simp add: sha256_file_def sha256_text_def sha.fold_upd_init concat_read_chunks)

lemma length_digest_bytes: "length st = 8 \<Longrightarrow> length (digest_bytes st) = 32"
proof -
  have "length (concat (map (\<lambda>w. map (\<lambda>j. ucast (drop_bit (24 - j * 8) w) :: u8) [0..<4]) st)) = 4 * length st"
    for st :: "u32 list"
    by (induction st) simp_all
  then show "length st = 8 \<Longrightarrow> length (digest_bytes st) = 32"
    by (simp add: digest_bytes_def)
qed

lemma length_finish: "sha_ok h \<Longrightarrow> length (finish h) = 32"
  by (auto simp: finish_def Let_def sha_ok_def intro!: length_digest_bytes split: prod.splits if_splits)

lemma sha256_text_shape: "length (sha256_text text) = 64 \<and> only_of hex_digits (sha256_text text)"
  using length_finish [OF sha_ok_update [OF sha_ok_init]]
  by (simp add: sha256_text_def hex_text_def to_hex_hex del: only_of_simps)

lemma length_sha256_text [simp]: "length (sha256_text text) = 64"
  using sha256_text_shape by blast

section \<open>Properties\<close>

text \<open>
  C6. The streaming hasher computes the padded block chain of FIPS 180-4: the digest of a
  text is the hexadecimal text of the chain over its padded message, and hashing a readable
  file in 64 KiB reads gives the digest of its contents.
\<close>

theorem sha256_correct:
  "sha256_text t = to_hex (string_of (digest_bytes (foldl transform sha256_iv (blocks (padded (bytes_of t)))))) \<and>
   sha256_file path (Some t) = Inr (sha256_text t) \<and>
   length (sha256_text t) = 64 \<and> only_of hex_digits (sha256_text t)"
  using sha256_text_shape [of t]
  by (simp add: sha256_text_spec hex_text_def sha256_spec_def sha256_file_text del: only_of_simps)

end
