(* ===== verification/Ind_Workbench.thy ===== *)
theory Ind_Workbench
  imports Ind_Json Ind_Sha256
begin

text \<open>
  The request checks and the content store that every workbench and harness operation
  goes through (\<^verbatim>\<open>src/workbench_db.hpp\<close>, \<^verbatim>\<open>src/core.cpp\<close>): identifiers, hashes, bounded
  integers, closed key sets, bounded file reads and verified objects.
\<close>

section \<open>Names and hashes\<close>

definition identifier_chars :: string where
  "identifier_chars = ''abcdefghijklmnopqrstuvwxyzABCDEFGHIJKLMNOPQRSTUVWXYZ0123456789_-''"

definition check_identifier :: "string \<Rightarrow> unit res" where
  "check_identifier s =
     (if s = [] \<or> length s > 128 \<or> \<not> only_of identifier_chars s
      then throw ''invalid identifier'' else Inr ())"

text \<open>\<^verbatim>\<open>validate_name\<close> of the project store: the same names through \<^verbatim>\<open>isalnum\<close>.\<close>

definition validate_name :: "string \<Rightarrow> unit res" where
  "validate_name value =
     (if value = [] \<or> length value > 128 then throw ''invalid identifier length''
      else if \<not> list_all (\<lambda>c. is_alnum c \<or> c = CHR ''-'' \<or> c = CHR ''_'') value
      then throw (''identifiers must contain letters, digits, '' @
        [CHR 0x27, CHR ''-'', CHR 0x27] @ '' or '' @ [CHR 0x27, CHR ''_'', CHR 0x27])
      else Inr ())"

definition check_hash :: "string \<Rightarrow> unit res" where
  "check_hash s = (if length s \<noteq> 64 \<or> \<not> only_of hex_digits s then throw ''invalid SHA-256'' else Inr ())"

text \<open>The path of an object below the store's root, one name per list element.\<close>

definition object_path :: "string \<Rightarrow> string list res" where
  "object_path sha = bindE (check_hash sha) (\<lambda>_. Inr [''objects'', ''sha256'', take 2 sha, drop 2 sha])"

section \<open>Bounds and keys\<close>

definition bound :: "json \<Rightarrow> string \<Rightarrow> nat \<Rightarrow> nat \<Rightarrow> nat res" where
  "bound j key fallback limit =
     (if \<not> contains j key then Inr fallback
      else bindE (jat key j) (\<lambda>v.
        if \<not> is_number_integer v then throw (''invalid bound: '' @ key)
        else bindE (ji64 v) (\<lambda>i. bindE (ju64 v) (\<lambda>u.
          if i < 0 \<or> u > limit then throw (''invalid bound: '' @ key) else Inr u))))"

definition check_keys :: "json \<Rightarrow> string list \<Rightarrow> unit res" where
  "check_keys j allowed =
     (if \<not> is_object j then throw ''expected an object''
      else case find (\<lambda>(k, v). k \<notin> set allowed) (entries j) of
             None \<Rightarrow> Inr ()
           | Some (k, v) \<Rightarrow> throw (''unknown field: '' @ k))"

section \<open>Bounded reads and the content store\<close>

text \<open>
  \<^verbatim>\<open>read(path, max)\<close>: \<open>sz\<close> is what \<^verbatim>\<open>file_size\<close> says (\<open>None\<close>: it throws) and
  \<open>stream\<close> the bytes that the later read finds (\<open>None\<close>: the file does not open), which
  may differ when the file changes in between.
\<close>

definition read_file :: "nat option \<Rightarrow> string option \<Rightarrow> nat \<Rightarrow> string res" where
  "read_file sz stream limit =
     (case sz of None \<Rightarrow> Inl Fs_Error | Some n \<Rightarrow>
       (if n > limit then throw ''input exceeds byte budget''
        else case stream of
            None \<Rightarrow> throw ''input unavailable''
          | Some bytes \<Rightarrow>
              (if length bytes \<noteq> n then throw ''input changed while reading bounded file''
               else Inr bytes)))"

text \<open>
  The object files of a workspace, by their path: the immutable content store.  A quiet file
  has the same size and bytes at both looks.
\<close>

type_synonym files = "string list \<Rightarrow> string option"

definition read_object :: "files \<Rightarrow> string \<Rightarrow> nat \<Rightarrow> string res" where
  "read_object fs sha limit =
     bindE (object_path sha) (\<lambda>p. read_file (map_option length (fs p)) (fs p) limit)"

text \<open>
  \<^verbatim>\<open>publish_blob\<close>: the staged bytes are hashed, moved to the path of their hash unless an
  object is already there, and the object in place is hashed again.
\<close>

definition publish_blob :: "files \<Rightarrow> string \<Rightarrow> (string \<times> files) res" where
  "publish_blob fs bytes =
     (let h = sha256_text bytes in
      bindE (object_path h) (\<lambda>dest.
        let fs' = (case fs dest of None \<Rightarrow> fs(dest \<mapsto> bytes) | Some _ \<Rightarrow> fs) in
        bindE (sha256_file [] (fs' dest)) (\<lambda>again.
          if again \<noteq> h then throw ''content store integrity failure'' else Inr (h, fs'))))"

section \<open>What the checks guarantee\<close>

lemma check_identifier_ok_iff:
  "check_identifier s = Inr () \<longleftrightarrow> s \<noteq> [] \<and> length s \<le> 128 \<and> only_of identifier_chars s"
  by (auto simp: check_identifier_def)

lemma hash_ok_iff: "check_hash s = Inr () \<longleftrightarrow> length s = 64 \<and> only_of hex_digits s"
  by (auto simp: check_hash_def)

lemma hash_sha256_text [simp]: "check_hash (sha256_text t) = Inr ()"
  using sha256_text_shape by (simp add: hash_ok_iff del: only_of_simps)

lemma object_path_sha256_text [simp]:
  "object_path (sha256_text t) =
     Inr [''objects'', ''sha256'', take 2 (sha256_text t), drop 2 (sha256_text t)]"
  by (simp add: object_path_def)

lemma object_path_inj:
  assumes "object_path a = Inr p" and "object_path b = Inr p"
  shows "a = b"
proof -
  from assms have "take 2 a = take 2 b" "drop 2 a = drop 2 b"
    by (auto simp: object_path_def)
  then show ?thesis by (metis append_take_drop_id)
qed

lemma bound_le:
  "bound j key fallback limit = Inr n \<Longrightarrow> fallback \<le> limit \<Longrightarrow> n \<le> limit"
  by (auto simp: bound_def split: if_splits)

lemma bound_cases:
  assumes "bound j key fallback limit = Inr n"
  shows "(\<not> contains j key \<and> n = fallback) \<or>
    (\<exists>v. jat key j = Inr v \<and> is_number_integer v \<and> ju64 v = Inr n \<and> n \<le> limit \<and> n < 2 ^ 63)"
  using assms sint_nonneg_unat(2)
  by (auto simp: bound_def ju64_def ji64_def not_less split: if_splits)

lemma find_pair_None: "find P xs = None \<longleftrightarrow> (\<forall>x \<in> set xs. \<not> P x)"
  by (auto simp: find_None_iff)

lemma check_keys_ok:
  "check_keys j allowed = Inr () \<longleftrightarrow> is_object j \<and> (\<forall>(k, v) \<in> set (entries j). k \<in> set allowed)"
proof (cases "find (\<lambda>(k, v). k \<notin> set allowed) (entries j)")
  case None
  have "\<forall>(k, v) \<in> set (entries j). k \<in> set allowed"
    using None find_pair_None [of "\<lambda>(k, v). k \<notin> set allowed" "entries j"] by auto
  then show ?thesis
    unfolding check_keys_def None by simp
next
  case (Some kv)
  then have "\<not> (\<forall>x \<in> set (entries j). \<not> (case x of (k, v) \<Rightarrow> k \<notin> set allowed))"
    by (metis find_pair_None option.distinct(1))
  then show ?thesis
    using Some by (auto simp: check_keys_def split: prod.splits)
qed

lemma check_keys_jobj [json_simps]: "check_keys (jobj kvs) allowed = Inr () \<longleftrightarrow> fst ` set kvs \<subseteq> set allowed"
  using keys_jobj[of kvs] by (fastforce simp: check_keys_ok image_iff subset_iff)

lemma utf8_hex: "only_of hex_digits s \<Longrightarrow> utf8_ok s"
proof -
  assume "only_of hex_digits s"
  moreover have "\<forall>c \<in> set hex_digits. ord c < 128" by code_simp
  ultimately show ?thesis by (intro utf8_ok_ascii) (auto simp: only_of_iff list_all_iff)
qed

lemma dumpable_sha [simp]: "dumpable (JStr (sha256_text t))" "utf8_ok (sha256_text t)"
  using sha256_text_shape[of t] by (simp_all add: utf8_hex)

lemma check_keys_contains:
  "check_keys j allowed = Inr () \<Longrightarrow> contains j k \<Longrightarrow> k \<in> set allowed"
  by (auto simp: check_keys_ok contains_def smap_has_def dest!: map_of_SomeD)

lemma read_file_ok:
  "read_file sz stream limit = Inr bytes \<Longrightarrow> stream = Some bytes \<and> length bytes \<le> limit"
  by (auto simp: read_file_def split: option.splits if_splits)

text \<open>The interface of a content-addressed store, and the store of the program as its model.\<close>

locale content_store =
  fixes put :: "'f \<Rightarrow> 'v \<Rightarrow> ('k \<times> 'f) res" and get :: "'f \<Rightarrow> 'k \<Rightarrow> 'v option" and key :: "'v \<Rightarrow> 'k"
  assumes put_key: "put f v = Inr (k, f') \<Longrightarrow> k = key v"
    and put_get: "put f v = Inr (k, f') \<Longrightarrow> \<exists>w. get f' k = Some w \<and> key w = k"
    and put_other: "put f v = Inr (k, f') \<Longrightarrow> get f k' = Some w \<Longrightarrow> get f' k' = Some w"
begin

text \<open>An object is immutable through any later puts.\<close>

lemma get_stable:
  "foldE (\<lambda>v f. bindE (put f v) (\<lambda>(k, f'). Inr f')) vs f = Inr f' \<Longrightarrow> get f k = Some w \<Longrightarrow> get f' k = Some w"
proof (induction vs arbitrary: f)
  case Nil
  then show ?case by simp
next
  case (Cons v vs)
  then obtain k1 f1 where "put f v = Inr (k1, f1)"
    and "foldE (\<lambda>v f. bindE (put f v) (\<lambda>(k, f'). Inr f')) vs f1 = Inr f'"
    by (auto split: prod.splits)
  then show ?case
    using Cons put_other by blast
qed

end

definition object_at :: "files \<Rightarrow> string \<Rightarrow> string option" where
  "object_at fs sha = (case object_path sha of Inl _ \<Rightarrow> None | Inr p \<Rightarrow> fs p)"

lemma publish_blob_Inr:
  assumes "publish_blob fs bytes = Inr (h, fs')"
  shows "h = sha256_text bytes"
    and "\<exists>w. object_at fs' h = Some w \<and> sha256_text w = h"
    and "object_at fs k = Some w \<Longrightarrow> object_at fs' k = Some w"
  using assms
  by (auto simp: publish_blob_def Let_def object_at_def sha256_file_text sha256_file_def [where content = None]
      split: option.splits if_splits sum.splits)

interpretation objects: content_store publish_blob object_at sha256_text
  using publish_blob_Inr by unfold_locales blast+

section \<open>Properties\<close>

text \<open>
  C7. The content store is immutable and addressed by content: a publication answers the
  SHA-256 of the bytes, an object with that hash is then in place, and every object that was
  stored before is still read back unchanged, through any number of later publications.
\<close>

theorem content_store_immutable:
  assumes "publish_blob fs bytes = Inr (sha, fs1)"
    and "foldE (\<lambda>b f. bindE (publish_blob f b) (\<lambda>(k, f'). Inr f')) later fs1 = Inr fs2"
  shows "sha = sha256_text bytes \<and> (\<exists>w. object_at fs2 sha = Some w \<and> sha256_text w = sha) \<and>
    (\<forall>k v. object_at fs k = Some v \<longrightarrow> object_at fs2 k = Some v)"
proof -
  obtain w where w: "object_at fs1 sha = Some w" "sha256_text w = sha"
    using objects.put_get [OF assms(1)] by blast
  have "object_at fs2 k = Some v" if "object_at fs k = Some v" for k v
    by (rule objects.get_stable [OF assms(2) objects.put_other [OF assms(1) that]])
  then show ?thesis
    using objects.put_key [OF assms(1)] objects.get_stable [OF assms(2) w(1)] w(2) by blast
qed

lemma publish_blob_empty: "publish_blob (\<lambda>_. None) b = Inr (sha256_text b,
    [[''objects'', ''sha256'', take 2 (sha256_text b), drop 2 (sha256_text b)] \<mapsto> b])"
  by (simp add: publish_blob_def sha256_file_text Let_def)

theorem content_store_immutable_witness:
  "sha256_text ''abc'' = sha256_text ''abc'' \<and>
   (\<exists>w. object_at [[''objects'', ''sha256'', take 2 (sha256_text ''abc''), drop 2 (sha256_text ''abc'')] \<mapsto> ''abc'']
      (sha256_text ''abc'') = Some w \<and> sha256_text w = sha256_text ''abc'')"
  using content_store_immutable [OF publish_blob_empty [of "''abc''"], of "[]"] by simp

text \<open>
  C8. A bound that a request is granted is the fallback when the field is absent, and
  otherwise the field's value, an integer from 0 to the limit; nothing else is accepted.
\<close>

theorem bound_accepts:
  "bound j key fallback limit = Inr n \<longleftrightarrow>
     (if contains j key
      then \<exists>v. jat key j = Inr v \<and> is_number_integer v \<and> (\<exists>i. ji64 v = Inr i \<and> 0 \<le> i \<and> n = nat i \<and> n \<le> limit)
      else n = fallback)"
proof (cases "contains j key")
  case True
  then obtain v where v: "jat key j = Inr v" by (auto simp: contains_iff)
  show ?thesis
  proof (cases "is_number_integer v")
    case True
    then obtain w where w: "jword v = Inr w"
      by (cases v) (simp_all add: jword_def)
    then show ?thesis
      using True \<open>contains j key\<close> v sint_nonneg_unat(1) [of w]
      by (auto simp: bound_def ju64_def ji64_def not_less)
  next
    case False
    then show ?thesis
      using \<open>contains j key\<close> v by (simp add: bound_def)
  qed
qed (auto simp: bound_def)

end
