(* ===== verification/Ind_Contract.thy ===== *)
theory Ind_Contract
  imports Ind_Json
begin

text \<open>
  The contract checker (\<^verbatim>\<open>src/contracts.cpp\<close>): the part of JSON Schema that the bundled
  schemas use, applied to every action, evidence record and result before it is stored.
  The schemas that the publication of a result goes through are given as values, as the
  files under \<^verbatim>\<open>contracts/json\<close> have them (without their annotations).
\<close>

section \<open>Patterns\<close>

text \<open>
  \<^verbatim>\<open>std::regex_search\<close> on the patterns of the schemas: an anchored sequence of characters,
  classes and groups, each with a counted or unbounded repetition.
\<close>

datatype re =
    RClass "(char \<times> char) list"
  | RGroup "(re \<times> nat \<times> nat option) list"

type_synonym piece = "re \<times> nat \<times> nat option"

fun reps :: "(string \<Rightarrow> string list) \<Rightarrow> nat \<Rightarrow> nat \<Rightarrow> nat option \<Rightarrow> string \<Rightarrow> string list" where
  "reps f fuel mn mx s =
     (if mn = 0 then [s] else []) @
     (case fuel of 0 \<Rightarrow> []
      | Suc k \<Rightarrow> (if mx = Some 0 then []
                 else concat (map (reps f k (mn - 1) (map_option (\<lambda>x. x - 1) mx)) (f s))))"

declare reps.simps [simp del]

fun re_match :: "re \<Rightarrow> string \<Rightarrow> string list"
and seq_match :: "piece list \<Rightarrow> string \<Rightarrow> string list" where
  "re_match (RClass rs) s =
     (case s of [] \<Rightarrow> [] | c # t \<Rightarrow> (if \<exists>(a, b) \<in> set rs. a \<le> c \<and> c \<le> b then [t] else []))"
| "re_match (RGroup ps) s = seq_match ps s"
| "seq_match [] s = [s]"
| "seq_match ((r, mn, mx) # ps) s = concat (map (seq_match ps) (reps (re_match r) (length s) mn mx s))"

fun read_class :: "string \<Rightarrow> (char \<times> char) list \<times> string" where
  "read_class [] = ([], [])"
| "read_class (c # s) =
     (if c = CHR '']'' then ([], s)
      else case s of
          m # d # t \<Rightarrow> (if m = CHR ''-'' \<and> d \<noteq> CHR '']''
                       then (case read_class t of (rs, u) \<Rightarrow> ((c, d) # rs, u))
                       else (case read_class s of (rs, u) \<Rightarrow> ((c, c) # rs, u)))
        | _ \<Rightarrow> (case read_class s of (rs, u) \<Rightarrow> ((c, c) # rs, u)))"

definition read_count :: "string \<Rightarrow> nat \<times> string" where
  "read_count s = (digits_value 10 0 (takeWhile is_digit s), dropWhile is_digit s)"

text \<open>The repetition after an atom: \<^verbatim>\<open>*\<close>, \<^verbatim>\<open>+\<close>, \<^verbatim>\<open>{n}\<close>, \<^verbatim>\<open>{m,n}\<close> or none.\<close>

definition read_quant :: "string \<Rightarrow> (nat \<times> nat option) \<times> string" where
  "read_quant s =
     (case s of
        [] \<Rightarrow> ((1, Some 1), [])
      | c # t \<Rightarrow>
          if c = CHR ''*'' then ((0, None), t)
          else if c = CHR ''+'' then ((1, None), t)
          else if c = CHR ''{'' then
            (case read_count t of (m, u) \<Rightarrow>
              (case u of
                 [] \<Rightarrow> ((m, Some m), [])
               | d # v \<Rightarrow> if d = CHR '','' then (case read_count v of (n, w) \<Rightarrow> ((m, Some n), drop 1 w))
                          else ((m, Some m), v)))
          else ((1, Some 1), s))"

fun read_seq :: "nat \<Rightarrow> string \<Rightarrow> piece list \<times> string" where
  "read_seq 0 s = ([], s)"
| "read_seq (Suc k) s =
     (case s of
        [] \<Rightarrow> ([], [])
      | c # t \<Rightarrow>
          if c = CHR '')'' then ([], t)
          else if c = CHR ''$'' then ([], s)
          else (case (if c = CHR ''['' then (case read_class t of (rs, u) \<Rightarrow> (RClass rs, u))
                      else if c = CHR ''('' then (case read_seq k t of (ps, u) \<Rightarrow> (RGroup ps, u))
                      else (RClass [(c, c)], t)) of
                  (r, u) \<Rightarrow> (case read_quant u of ((mn, mx), v) \<Rightarrow>
                    (case read_seq k v of (ps, w) \<Rightarrow> ((r, mn, mx) # ps, w)))))"

definition match_here :: "piece list \<Rightarrow> bool \<Rightarrow> string \<Rightarrow> bool" where
  "match_here ps stop s = (\<exists>r \<in> set (seq_match ps s). stop \<longrightarrow> r = [])"

fun suffixes_of :: "string \<Rightarrow> string list" where
  "suffixes_of [] = [[]]"
| "suffixes_of (c # s) = (c # s) # suffixes_of s"

definition regex_search :: "string \<Rightarrow> string \<Rightarrow> bool" where
  "regex_search p s =
     (let anchored = starts_with p ''^'';
          body = (if anchored then drop 1 p else p)
      in case read_seq (length body) body of (ps, rest) \<Rightarrow>
           if anchored then match_here ps (rest = ''$'') s
           else list_ex (match_here ps (rest = ''$'')) (suffixes_of s))"

section \<open>Comparing numbers\<close>

text \<open>
  \<^verbatim>\<open>operator<\<close> with a number on one side: integers of both kinds compare as signed, a
  double against the double of the integer, and values of different types by their type.
\<close>

definition type_rank :: "json \<Rightarrow> nat" where
  "type_rank j = (case j of JNull \<Rightarrow> 0 | JBool _ \<Rightarrow> 1 | JInt _ \<Rightarrow> 2 | JUInt _ \<Rightarrow> 2 | JFloat _ _ \<Rightarrow> 2
     | JObj _ \<Rightarrow> 3 | JArr _ \<Rightarrow> 4 | JStr _ \<Rightarrow> 5)"

definition num_less :: "json \<Rightarrow> json \<Rightarrow> bool" where
  "num_less a b = (case (a, b) of
      (JInt x, JInt y) \<Rightarrow> sint x < sint y
    | (JUInt x, JUInt y) \<Rightarrow> x < y
    | (JInt x, JUInt y) \<Rightarrow> sint x < sint y
    | (JUInt x, JInt y) \<Rightarrow> sint x < sint y
    | (JFloat x _, JFloat y _) \<Rightarrow> x < y
    | (JFloat x _, JInt y) \<Rightarrow> x < double_of_int (sint y)
    | (JInt x, JFloat y _) \<Rightarrow> double_of_int (sint x) < y
    | (JFloat x _, JUInt y) \<Rightarrow> x < double_of_int (uint y)
    | (JUInt x, JFloat y _) \<Rightarrow> double_of_int (uint x) < y
    | _ \<Rightarrow> type_rank a < type_rank b)"

section \<open>The checker\<close>

definition has_type :: "json \<Rightarrow> string \<Rightarrow> bool" where
  "has_type v t =
     (if t = ''object'' then is_object v
      else if t = ''array'' then is_array v
      else if t = ''string'' then is_string v
      else if t = ''integer'' then is_number_integer v
      else if t = ''number'' then is_number v
      else if t = ''boolean'' then is_boolean v
      else if t = ''null'' then is_null v
      else False)"

definition fail :: "string \<Rightarrow> string \<Rightarrow> 'a res" where
  "fail path why = throw (''contract '' @ path @ '': '' @ why)"

definition check_if :: "string \<Rightarrow> json \<Rightarrow> (json \<Rightarrow> unit res) \<Rightarrow> unit res" where
  "check_if key s f = (if contains s key then bindE (jat key s) f else Inr ())"

text \<open>\<^verbatim>\<open>if (c) fail(why)\<close>, as a statement of its own.\<close>

definition fail_if :: "bool \<Rightarrow> string \<Rightarrow> string \<Rightarrow> unit res" where
  "fail_if c path why = (if c then fail path why else Inr ())"

definition check_type :: "json \<Rightarrow> json \<Rightarrow> string \<Rightarrow> unit res" where
  "check_type s v path =
     check_if ''type'' s (\<lambda>t.
       bindE (if is_array t
              then foldE (\<lambda>x ok. bindE (jstr x) (\<lambda>n. Inr (ok \<or> has_type v n))) (elems t) False
              else bindE (jstr t) (\<lambda>n. Inr (has_type v n)))
         (\<lambda>ok. fail_if (\<not> ok) path ''wrong type''))"

definition check_text :: "json \<Rightarrow> string \<Rightarrow> string \<Rightarrow> unit res" where
  "check_text s t path =
     bindE (check_if ''minLength'' s (\<lambda>m. bindE (ju64 m) (\<lambda>n. fail_if (length t < n) path ''too short''))) (\<lambda>_.
     bindE (check_if ''maxLength'' s (\<lambda>m. bindE (ju64 m) (\<lambda>n. fail_if (length t > n) path ''too long''))) (\<lambda>_.
     check_if ''pattern'' s (\<lambda>p. bindE (jstr p) (\<lambda>p. fail_if (\<not> regex_search p t) path ''invalid format''))))"

definition check_number :: "json \<Rightarrow> json \<Rightarrow> string \<Rightarrow> unit res" where
  "check_number s v path =
     bindE (check_if ''minimum'' s (\<lambda>m. fail_if (num_less v m) path ''below minimum'')) (\<lambda>_.
     check_if ''maximum'' s (\<lambda>m. fail_if (num_less m v) path ''above maximum''))"

definition check_required :: "json \<Rightarrow> json \<Rightarrow> string \<Rightarrow> unit res" where
  "check_required s v path =
     check_if ''required'' s (\<lambda>r.
       foldE (\<lambda>k _. bindE (jstr k) (\<lambda>k. fail_if (\<not> contains v k) path (''missing '' @ k))) (jrange r) ())"

function validate :: "json \<Rightarrow> json \<Rightarrow> string \<Rightarrow> unit res" where
  "validate s v path =
     bindE (check_type s v path) (\<lambda>_.
     bindE (check_if ''const'' s (\<lambda>c. fail_if (\<not> jeq c v) path ''wrong constant'')) (\<lambda>_.
     bindE (check_if ''enum'' s (\<lambda>e. fail_if (\<not> list_ex (\<lambda>x. jeq x v) (jrange e)) path ''unsupported value'')) (\<lambda>_.
     bindE (if is_object v then
        bindE (check_required s v path) (\<lambda>_.
        bindE (jvalue ''properties'' (jobj []) s) (\<lambda>props.
        foldE (\<lambda>(k, x) _.
           if contains props k then bindE (jat k props) (\<lambda>p. validate p x (path @ ''/'' @ k))
           else bindE (jvalue ''additionalProperties'' (JBool True) s) (\<lambda>a.
             fail_if (jeq a (JBool False)) path (''unknown field '' @ k))) (entries v) ()))
      else Inr ()) (\<lambda>_.
     bindE (if is_array v then
        bindE (check_if ''maxItems'' s (\<lambda>m. bindE (ju64 m) (\<lambda>n. fail_if (jsize v > n) path ''too many items''))) (\<lambda>_.
        bindE (check_if ''minItems'' s (\<lambda>m. bindE (ju64 m) (\<lambda>n. fail_if (jsize v < n) path ''too few items''))) (\<lambda>_.
        if contains s ''items'' then
          bindE (jat ''items'' s) (\<lambda>p.
          foldE (\<lambda>(i, x) _. validate p x (path @ ''/'' @ to_string i)) (zip [0..<length (elems v)] (elems v)) ())
        else Inr ()))
      else Inr ()) (\<lambda>_.
     bindE (case v of JStr t \<Rightarrow> check_text s t path | _ \<Rightarrow> Inr ()) (\<lambda>_.
     if is_number v then check_number s v path else Inr ()))))))"
  by pat_completeness auto

lemma size_entries: "(k, x) \<in> set (entries v) \<Longrightarrow> size x < size v"
proof (cases v)
  case (JObj m)
  assume "(k, x) \<in> set (entries v)"
  then have "(k, x) \<in> set m" using JObj by (simp add: entries_def)
  then have "size x < size_list (size_prod (\<lambda>_. 0) size) m"
    by (induction m) auto
  then show ?thesis using JObj by simp
qed (simp_all add: entries_def)

lemma size_elems: "x \<in> set (elems v) \<Longrightarrow> size x < size v"
proof (cases v)
  case (JArr xs)
  assume "x \<in> set (elems v)"
  then have "x \<in> set xs" using JArr by (simp add: elems_def)
  then have "size x < Suc (size_list size xs)"
    by (induction xs) auto
  then show ?thesis using JArr by simp
qed (simp_all add: elems_def)

termination validate
proof (relation "measure (\<lambda>(s, v, path). size v)", goal_cases)
  case 1
  show ?case by simp
next
  case 2
  then show ?case by (auto dest: size_entries)
next
  case 3
  then show ?case by (auto dest!: set_zip_rightD intro: size_elems)
qed

declare validate.simps [simp del]

section \<open>The bundled schemas of records and results\<close>

definition const_of :: "string \<Rightarrow> json" where
  "const_of s = jobj [(''const'', JStr s)]"

definition enum_of :: "string list \<Rightarrow> json" where
  "enum_of ss = jobj [(''enum'', JArr (map JStr ss))]"

definition of_type :: "string \<Rightarrow> json" where
  "of_type t = jobj [(''type'', JStr t)]"

definition text_like :: "string \<Rightarrow> json" where
  "text_like p = jobj [(''type'', JStr ''string''), (''pattern'', JStr p)]"

definition sha_pattern :: string where "sha_pattern = ''^[a-f0-9]{64}$''"

definition result_statuses :: "string list" where
  "result_statuses = [''completed'', ''partial'', ''failed'', ''cancelled'', ''timeout'', ''unavailable'',
     ''invalid_request'', ''not_found'', ''interrupted'']"

definition result_properties :: json where
  "result_properties = jobj [
     (''schema'', const_of ''indago.result.v1''),
     (''request_id'', text_like ''^job_''),
     (''status'', enum_of result_statuses),
     (''result_revision'', text_like ''^rev_''),
     (''completeness'', enum_of [''complete'', ''partial'', ''unknown'']),
     (''backend'', enum_of [''airece'', ''xair'', ''sym'', ''ghidra'', ''ilspy'', ''capa'', ''floss'', ''lief'',
        ''wireshark'', ''runtime'']),
     (''artifact_sha256'', text_like sha_pattern),
     (''raw_sha256'', text_like sha_pattern),
     (''evidence_ids'', jobj [(''type'', JStr ''array''), (''minItems'', jnat 1), (''items'', text_like ''^ev_'')]),
     (''data'', of_type ''object''),
     (''data_omitted'', of_type ''boolean''),
     (''diagnostics'', jobj [(''type'', JStr ''array''), (''items'', of_type ''string'')])]"

definition result_schema :: json where
  "result_schema = jobj [
     (''type'', JStr ''object''),
     (''required'', JArr (map JStr [''schema'', ''request_id'', ''status'', ''result_revision'', ''completeness'',
        ''backend'', ''artifact_sha256'', ''evidence_ids'', ''raw_sha256'', ''diagnostics''])),
     (''properties'', result_properties),
     (''additionalProperties'', JBool True)]"

definition evidence_properties :: json where
  "evidence_properties = jobj [
     (''schema'', const_of ''indago.evidence.v1''),
     (''id'', text_like ''^ev_''),
     (''project'', of_type ''string''),
     (''revision'', text_like ''^rev_''),
     (''job_id'', text_like ''^job_''),
     (''status'', of_type ''string''),
     (''artifact_sha256'', text_like sha_pattern),
     (''raw_sha256'', text_like sha_pattern),
     (''request'', of_type ''object''),
     (''created_at'', of_type ''string''),
     (''state'', enum_of [''observed'', ''derived'', ''validated'', ''inferred'', ''contradicted'', ''unknown'']),
     (''producer'', jobj [(''type'', JStr ''string''), (''minLength'', jnat 1)]),
     (''location'', jobj [(''type'', JArr [JStr ''object'', JStr ''null''])]),
     (''completeness'', enum_of [''complete'', ''partial'', ''unknown''])]"

definition evidence_schema :: json where
  "evidence_schema = jobj [
     (''type'', JStr ''object''),
     (''required'', JArr (map JStr [''schema'', ''id'', ''project'', ''revision'', ''job_id'', ''state'', ''producer'',
        ''status'', ''artifact_sha256'', ''raw_sha256'', ''request'', ''created_at''])),
     (''properties'', evidence_properties),
     (''additionalProperties'', JBool True)]"

text \<open>
  \<^verbatim>\<open>validate_contract\<close> for the names the records of the store use; the schemas of the two
  action contracts and of the workbench are the argument \<open>other\<close>.
\<close>

definition contract_schema :: "(string \<Rightarrow> json option) \<Rightarrow> string \<Rightarrow> json res" where
  "contract_schema other name =
     (if name = ''result'' then Inr result_schema
      else if name = ''evidence'' then Inr evidence_schema
      else if name \<in> {''action'', ''runtime-action'', ''workbench''}
      then (case other name of Some s \<Rightarrow> Inr s | None \<Rightarrow> Inl Json_Parse)
      else throw (''unknown contract: '' @ name))"

definition validate_contract :: "(string \<Rightarrow> json option) \<Rightarrow> string \<Rightarrow> json \<Rightarrow> unit res" where
  "validate_contract other name v = bindE (contract_schema other name) (\<lambda>s. validate s v name)"

section \<open>What an accepted value satisfies\<close>

lemma fail_if_ok [simp]: "fail_if c path why = Inr () \<longleftrightarrow> \<not> c"
  by (simp add: fail_if_def fail_def)

lemma check_if_ok: "check_if k s f = Inr () \<Longrightarrow> jat k s = Inr x \<Longrightarrow> f x = Inr ()"
  by (auto simp: check_if_def contains_iff split: if_splits)

lemma validate_parts:
  assumes "validate s v path = Inr ()"
  shows "check_type s v path = Inr ()"
    and "jat ''const'' s = Inr c \<Longrightarrow> jeq c v"
    and "jat ''enum'' s = Inr e \<Longrightarrow> \<exists>x \<in> set (jrange e). jeq x v"
    and "is_object v \<Longrightarrow> check_required s v path = Inr ()"
    and "v = JStr t \<Longrightarrow> check_text s t path = Inr ()"
    and "is_number v \<Longrightarrow> check_number s v path = Inr ()"
proof -
  have "check_if ''const'' s (\<lambda>c. fail_if (\<not> jeq c v) path ''wrong constant'') = Inr ()"
    and enum: "check_if ''enum'' s (\<lambda>e. fail_if (\<not> list_ex (\<lambda>x. jeq x v) (jrange e)) path ''unsupported value'') = Inr ()"
    using assms by (auto simp: validate.simps [of s v path])
  from check_if_ok [OF this(1)] check_if_ok [OF enum]
  show "jat ''const'' s = Inr c \<Longrightarrow> jeq c v"
    and "jat ''enum'' s = Inr e \<Longrightarrow> \<exists>x \<in> set (jrange e). jeq x v"
    by (auto simp: list_ex_iff)
  show "check_type s v path = Inr ()"
    and "is_object v \<Longrightarrow> check_required s v path = Inr ()"
    and "v = JStr t \<Longrightarrow> check_text s t path = Inr ()"
    and "is_number v \<Longrightarrow> check_number s v path = Inr ()"
    using assms [unfolded validate.simps [of s v path]] by auto
qed

lemma foldE_unit_each:
  "foldE f xs () = Inr () \<Longrightarrow> x \<in> set xs \<Longrightarrow> f x () = Inr ()"
proof (induction xs)
  case (Cons y ys)
  from Cons.prems(1) obtain u :: unit where "f y u = Inr ()" "foldE f ys () = Inr ()"
    by auto
  then show ?case using Cons by auto
qed simp

text \<open>A named field is checked against its own schema, at any depth by iteration.\<close>

lemma validate_field:
  assumes "validate s v path = Inr ()" and "jat ''properties'' s = Inr props"
    and "jat k props = Inr p" and "jat k v = Inr x"
  shows "validate p x (path @ ''/'' @ k) = Inr ()"
proof -
  obtain m where m: "v = JObj m" "(k, x) \<in> set (entries v)"
    using assms(4) by (auto simp: jat_eq_Inr entries_def dest: map_of_SomeD)
  have props: "jvalue ''properties'' (jobj []) s = Inr props"
    using assms(2) by (auto simp: jvalue_def jat_def split: json.splits option.splits)
  have "contains props k"
    using assms(3) by (auto simp: contains_iff)
  then have
    "foldE (\<lambda>(k, x) _.
       if contains props k then bindE (jat k props) (\<lambda>p. validate p x (path @ ''/'' @ k))
       else bindE (jvalue ''additionalProperties'' (JBool True) s) (\<lambda>a.
         fail_if (jeq a (JBool False)) path (''unknown field '' @ k))) (entries v) () = Inr ()"
    using assms(1) [unfolded validate.simps [of s v path]] m(1) props by auto
  from foldE_unit_each [OF this m(2)] \<open>contains props k\<close> assms(3) show ?thesis
    by simp
qed

lemma validate_required:
  assumes "validate s v path = Inr ()" and "is_object v" and "jat ''required'' s = Inr (JArr (map JStr ks))"
    and "k \<in> set ks"
  shows "\<exists>x. jat k v = Inr x"
proof -
  have "foldE (\<lambda>k _. bindE (jstr k) (\<lambda>k. fail_if (\<not> contains v k) path (''missing '' @ k))) (map JStr ks) () = Inr ()"
    using check_if_ok [OF validate_parts(4) [OF assms(1,2), unfolded check_required_def] assms(3)]
    by (simp add: jrange_def)
  from foldE_unit_each [OF this, of "JStr k"] assms(4) show ?thesis
    by (simp add: contains_iff)
qed

section \<open>The hash pattern\<close>

definition hex_class :: re where
  "hex_class = RClass [(CHR ''a'', CHR ''f''), (CHR ''0'', CHR ''9'')]"

lemma hex_class_char: "(CHR ''a'' \<le> c \<and> c \<le> CHR ''f'') \<or> (CHR ''0'' \<le> c \<and> c \<le> CHR ''9'') \<longleftrightarrow> c \<in> set hex_digits"
proof -
  have "c \<in> set hex_digits \<longleftrightarrow> ord c \<in> (\<lambda>c. ord c) ` set hex_digits"
    by (rule inj_image_mem_iff [symmetric]) (rule injI, simp)
  also have "(\<lambda>c. ord c :: nat) ` set hex_digits = set ([48..<58] @ [97..<103])"
    by (simp add: upt_rec)
  also have "ord c \<in> \<dots> \<longleftrightarrow> (97 \<le> ord c \<and> ord c \<le> 102) \<or> (48 \<le> ord c \<and> ord c \<le> 57)"
    unfolding set_append set_upt by auto
  finally show ?thesis
    by (simp add: less_eq_char_def)
qed

lemma re_match_hex: "re_match hex_class s = (case s of [] \<Rightarrow> [] | c # t \<Rightarrow> (if c \<in> set hex_digits then [t] else []))"
  using hex_class_char by (auto simp: hex_class_def split: list.splits)

lemma reps_hex:
  "fuel \<ge> length s \<Longrightarrow>
     set (reps (re_match hex_class) fuel n (Some n) s) =
       (if n \<le> length s \<and> only_of hex_digits (take n s) then {drop n s} else {})"
proof (induction n arbitrary: s fuel)
  case 0
  then show ?case
    by (cases fuel) (simp_all add: reps.simps)
next
  case (Suc n)
  show ?case
  proof (cases s)
    case Nil
    then show ?thesis
      by (cases fuel) (simp_all add: reps.simps re_match_hex)
  next
    case (Cons c t)
    then obtain k where k: "fuel = Suc k" "k \<ge> length t"
      using Suc.prems by (cases fuel) auto
    show ?thesis
    proof (cases "c \<in> set hex_digits")
      case True
      then have one: "re_match hex_class (c # t) = [t]"
        by (simp add: re_match_hex)
      show ?thesis
        using Cons k Suc.IH [OF k(2)] True one by (subst reps.simps) (simp del: list.set)
    next
      case False
      then show ?thesis
        using Cons k by (subst reps.simps) (simp add: re_match_hex del: list.set)
    qed
  qed
qed

lemma sha_pattern_reads:
  "read_seq (length (drop 1 sha_pattern)) (drop 1 sha_pattern) = ([(hex_class, 64, Some 64)], ''$'')"
  "starts_with sha_pattern ''^''"
  by code_simp+

lemma regex_search_sha: "regex_search sha_pattern t \<longleftrightarrow> length t = 64 \<and> only_of hex_digits t"
proof -
  have "regex_search sha_pattern t \<longleftrightarrow> (\<exists>r \<in> set (reps (re_match hex_class) (length t) 64 (Some 64) t). r = [])"
    using sha_pattern_reads by (simp add: regex_search_def match_here_def)
  also have "\<dots> \<longleftrightarrow> length t = 64 \<and> only_of hex_digits t"
    by (subst reps_hex) auto
  finally show ?thesis .
qed

lemma validate_sha_text:
  assumes "validate (text_like sha_pattern) v path = Inr ()"
  shows "\<exists>t. v = JStr t \<and> length t = 64 \<and> only_of hex_digits t"
proof -
  have "check_type (text_like sha_pattern) v path = Inr ()"
    by (rule validate_parts(1) [OF assms])
  then have "is_string v"
    by (auto simp: check_type_def check_if_def text_like_def contains_jobj jat_jobj has_type_def)
  then obtain t where t: "v = JStr t"
    by (cases v) auto
  have "check_text (text_like sha_pattern) t path = Inr ()"
    by (rule validate_parts(5) [OF assms t])
  then have "regex_search sha_pattern t"
    by (auto simp: check_text_def check_if_def text_like_def contains_jobj jat_jobj)
  with t show ?thesis
    by (simp add: regex_search_sha)
qed

lemma validate_enum_of:
  assumes "validate (enum_of ss) v path = Inr ()"
  shows "\<exists>s \<in> set ss. v = JStr s"
  using validate_parts(3) [OF assms, of "JArr (map JStr ss)"]
  by (auto simp: enum_of_def jat_jobj jrange_def)

text \<open>An accepted result names a finished status and well-formed hashes.\<close>

lemma result_contract:
  assumes "validate_contract other ''result'' v = Inr ()"
  shows "\<exists>s \<in> set result_statuses. jat ''status'' v = Inr (JStr s)"
    and "\<exists>h. jat ''raw_sha256'' v = Inr (JStr h) \<and> length h = 64 \<and> only_of hex_digits h"
    and "\<exists>h. jat ''artifact_sha256'' v = Inr (JStr h) \<and> length h = 64 \<and> only_of hex_digits h"
proof -
  have v: "validate result_schema v ''result'' = Inr ()"
    using assms by (simp add: validate_contract_def contract_schema_def)
  have "check_type result_schema v ''result'' = Inr ()"
    by (rule validate_parts(1) [OF v])
  then have obj: "is_object v"
    by (auto simp: check_type_def check_if_def result_schema_def contains_jobj jat_jobj has_type_def)
  have props: "jat ''properties'' result_schema = Inr result_properties"
    by (simp add: result_schema_def jat_jobj)
  have req: "jat ''required'' result_schema = Inr (JArr (map JStr [''schema'', ''request_id'', ''status'',
      ''result_revision'', ''completeness'', ''backend'', ''artifact_sha256'', ''evidence_ids'', ''raw_sha256'',
      ''diagnostics'']))"
    by (simp add: result_schema_def jat_jobj)
  note field = validate_field [OF v props]
  have p: "jat ''status'' result_properties = Inr (enum_of result_statuses)"
    "jat ''raw_sha256'' result_properties = Inr (text_like sha_pattern)"
    "jat ''artifact_sha256'' result_properties = Inr (text_like sha_pattern)"
    by (simp_all add: result_properties_def jat_jobj)
  obtain a b c where a: "jat ''status'' v = Inr a" and b: "jat ''raw_sha256'' v = Inr b"
    and c: "jat ''artifact_sha256'' v = Inr c"
    using validate_required [OF v obj req] by (meson list.set_intros)
  show "\<exists>s \<in> set result_statuses. jat ''status'' v = Inr (JStr s)"
    using validate_enum_of [OF field [OF p(1) a]] a by auto
  show "\<exists>h. jat ''raw_sha256'' v = Inr (JStr h) \<and> length h = 64 \<and> only_of hex_digits h"
    using validate_sha_text [OF field [OF p(2) b]] b by auto
  show "\<exists>h. jat ''artifact_sha256'' v = Inr (JStr h) \<and> length h = 64 \<and> only_of hex_digits h"
    using validate_sha_text [OF field [OF p(3) c]] c by auto
qed

section \<open>What is accepted\<close>

lemma check_if_absent: "\<not> contains s k \<Longrightarrow> check_if k s f = Inr ()"
  by (simp add: check_if_def)

lemma check_if_present: "jat k s = Inr x \<Longrightarrow> f x = Inr () \<Longrightarrow> check_if k s f = Inr ()"
  by (auto simp: check_if_def contains_iff)

lemma foldE_unit_all: "(\<And>x. x \<in> set xs \<Longrightarrow> f x () = Inr ()) \<Longrightarrow> foldE f xs () = Inr ()"
  by (induction xs) auto

text \<open>An object whose fields are all declared and accepted is accepted.\<close>

lemma validate_object:
  assumes "jat ''type'' s = Inr (JStr ''object'')" "\<not> contains s ''const''" "\<not> contains s ''enum''"
    and "jat ''required'' s = Inr (JArr (map JStr ks))" "\<forall>k \<in> set ks. contains v k"
    and props: "jat ''properties'' s = Inr props" and v: "is_object v"
    and fields: "\<And>k x. (k, x) \<in> set (entries v) \<Longrightarrow> \<exists>p. jat k props = Inr p \<and> validate p x (path @ ''/'' @ k) = Inr ()"
  shows "validate s v path = Inr ()"
proof -
  obtain m where m: "v = JObj m" using v by (cases v) auto
  have "check_type s v path = Inr ()"
    unfolding check_type_def by (rule check_if_present[OF assms(1)]) (simp add: has_type_def fail_if_def v)
  moreover have "check_required s v path = Inr ()"
    unfolding check_required_def using assms(4,5)
    by (intro check_if_present[OF assms(4)] foldE_unit_all) (auto simp: jrange_def)
  moreover have "jvalue ''properties'' (jobj []) s = Inr props"
    using props by (auto simp: jat_eq_Inr jvalue_def)
  moreover have "foldE (\<lambda>(k, x) _.
      if contains props k then bindE (jat k props) (\<lambda>p. validate p x (path @ ''/'' @ k))
      else bindE (jvalue ''additionalProperties'' (JBool True) s) (\<lambda>a.
        fail_if (jeq a (JBool False)) path (''unknown field '' @ k))) (entries v) () = Inr ()"
  proof (rule foldE_unit_all, clarify)
    fix k x assume "(k, x) \<in> set (entries v)"
    from fields[OF this] show "(if contains props k then bindE (jat k props) (\<lambda>p. validate p x (path @ ''/'' @ k))
      else bindE (jvalue ''additionalProperties'' (JBool True) s) (\<lambda>a.
        fail_if (jeq a (JBool False)) path (''unknown field '' @ k))) = Inr ()"
      by (auto simp: contains_iff)
  qed
  ultimately show ?thesis
    using m assms(2,3) by (subst validate.simps) (simp add: check_if_absent is_number_def)
qed

lemma validate_text_like: "regex_search p t \<Longrightarrow> validate (text_like p) (JStr t) path = Inr ()"
  by (subst validate.simps) (simp add: text_like_def check_type_def check_if_def check_text_def has_type_def json_simps fail_if_def is_number_def)

lemma validate_const_of: "validate (const_of t) (JStr t) path = Inr ()"
  by (subst validate.simps) (simp add: const_of_def check_type_def check_if_def check_text_def has_type_def json_simps fail_if_def is_number_def)

lemma validate_enum_in: "t \<in> set ts \<Longrightarrow> validate (enum_of ts) (JStr t) path = Inr ()"
  by (subst validate.simps) (simp add: enum_of_def check_type_def check_if_def check_text_def has_type_def json_simps fail_if_def is_number_def list_ex_iff jrange_def)

lemma validate_text: "validate (of_type ''string'') (JStr t) path = Inr ()"
  by (subst validate.simps) (simp add: of_type_def check_type_def check_if_def check_text_def has_type_def json_simps fail_if_def is_number_def)

lemma validate_any_object: "is_object v \<Longrightarrow> validate (of_type ''object'') v path = Inr ()"
  by (subst validate.simps, cases v) (simp_all add: of_type_def check_type_def check_if_def check_text_def has_type_def json_simps fail_if_def is_number_def
     check_required_def foldE_unit_all split_def)


lemma entries_jobj_sub: "(k, v) \<in> set (entries (jobj kvs)) \<Longrightarrow> (k, v) \<in> set kvs"
  using set_emplaces[of kvs "[]"] by (auto simp: jobj_def entries_def)

lemma validate_jobj:
  assumes "jat ''type'' s = Inr (JStr ''object'')" "\<not> contains s ''const''" "\<not> contains s ''enum''"
    and "jat ''required'' s = Inr (JArr (map JStr ks))" "set ks \<subseteq> fst ` set kvs"
    and "jat ''properties'' s = Inr props"
    and "list_all (\<lambda>(k, x). \<exists>p. jat k props = Inr p \<and> validate p x (path @ ''/'' @ k) = Inr ()) kvs"
  shows "validate s (jobj kvs) path = Inr ()"
proof (rule validate_object[OF assms(1-4) _ assms(6)])
  show "\<forall>k \<in> set ks. contains (jobj kvs) k" using assms(5) by (auto simp: contains_jobj map_of_eq_None_iff)
  fix k x assume "(k, x) \<in> set (entries (jobj kvs))"
  then have "(k, x) \<in> set kvs" by (rule entries_jobj_sub)
  then show "\<exists>p. jat k props = Inr p \<and> validate p x (path @ ''/'' @ k) = Inr ()"
    using assms(7) unfolding list_all_iff by blast
qed simp

lemma validate_array:
  assumes "jat ''type'' s = Inr (JStr ''array'')" "\<not> contains s ''const''" "\<not> contains s ''enum''"
    and "\<not> contains s ''maxItems''" and "\<And>m. jat ''minItems'' s = Inr m \<Longrightarrow> \<exists>n. ju64 m = Inr n \<and> n \<le> length xs"
    and "jat ''items'' s = Inr p" and "\<And>x path. x \<in> set xs \<Longrightarrow> validate p x path = Inr ()"
  shows "validate s (JArr xs) path = Inr ()"
proof -
  have "check_type s (JArr xs) path = Inr ()"
    unfolding check_type_def by (rule check_if_present[OF assms(1)]) (simp add: has_type_def fail_if_def)
  moreover have "check_if ''minItems'' s (\<lambda>m. bindE (ju64 m) (\<lambda>n. fail_if (jsize (JArr xs) < n) path ''too few items'')) = Inr ()"
    using assms(5) by (auto simp: check_if_def contains_iff jrange_JArr)
  moreover have "foldE (\<lambda>(i, x) _. validate p x (path @ ''/'' @ to_string i)) (zip [0..<length xs] xs) () = Inr ()"
    by (rule foldE_unit_all) (auto dest: set_zip_rightD intro: assms(7))
  moreover have "contains s ''items''" using assms(6) by (auto simp: contains_iff)
  ultimately show ?thesis
    using assms(2-4,6) by (subst validate.simps) (simp add: check_if_absent is_number_def jrange_JArr)
qed

end
