(* ===== verification/Ind_Store.thy ===== *)
theory Ind_Store
  imports Ind_Workbench Ind_Contract "HOL-Library.Product_Lexorder"
begin

text \<open>
  The project store (\<^verbatim>\<open>src/core.cpp\<close>): projects, imported targets, analysis jobs with
  their leases and events, published evidence and the function views read from it.  A table
  of the database is the list of its rows in \<^verbatim>\<open>rowid\<close> order, a transaction is a function
  from the store to the store it commits, and an exception leaves the tables as they were.
  An object that a failed publication has already written stays in the content store.

  Random identifiers (\<^verbatim>\<open>make_id\<close>), time stamps and clock readings are arguments of the
  operation, in the order in which the code draws them; \<open>parse\<close> is \<^verbatim>\<open>Json::parse\<close>.
\<close>

section \<open>Tables\<close>

record project_row =
  p_name :: string
  p_id :: string
  p_created :: string

record target_row =
  t_id :: string
  t_project :: string
  t_sha :: string
  t_name :: string
  t_size :: nat
  t_created :: string

record job_row =
  j_id :: string
  j_project :: string
  j_target :: string
  j_revision :: string
  j_status :: string
  j_request :: string
  j_created :: string
  j_finished :: string
  j_result :: string

record lease_row =
  l_job :: string
  l_token :: string
  l_deadline :: int
  l_heartbeat :: int

record job_event =
  e_seq :: nat
  e_job :: string
  e_kind :: string
  e_at :: string
  e_detail :: string

record idem_row =
  i_project :: string
  i_key :: string
  i_request :: string
  i_job :: string

record derivation_row =
  d_id :: string
  d_project :: string
  d_artifact :: string
  d_record :: string
  d_sha :: string

record evidence_row =
  v_id :: string
  v_project :: string
  v_job :: string
  v_revision :: string
  v_backend :: string
  v_sha :: string
  v_status :: string
  v_record :: string
  v_created :: string

record function_row =
  f_id :: string
  f_project :: string
  f_artifact :: string
  f_address :: string

record view_row =
  w_function :: string
  w_evidence :: string
  w_backend :: string
  w_record :: string

record store =
  projects :: "project_row list"
  targets :: "target_row list"
  jobs :: "job_row list"
  idems :: "idem_row list"
  leases :: "lease_row list"
  job_log :: "job_event list"
  derivation_rows :: "derivation_row list"
  evidence_rows :: "evidence_row list"
  function_rows :: "function_row list"
  view_rows :: "view_row list"
  cancels :: "string list"
  objects :: files

text \<open>\<^verbatim>\<open>TargetRecord\<close>.\<close>

record target_rec =
  tr_id :: string
  tr_project :: string
  tr_sha :: string
  tr_name :: string
  tr_size :: nat

abbreviation constraint :: "'a res" where
  "constraint \<equiv> throw ''constraint failed''"

section \<open>Projects and targets\<close>

definition require_project :: "store \<Rightarrow> string \<Rightarrow> unit res" where
  "require_project st name =
     bindE (validate_name name) (\<lambda>_.
       if list_ex (\<lambda>r. p_name r = name) (projects st) then Inr ()
       else throw (''unknown project: '' @ name))"

definition create_project :: "store \<Rightarrow> string \<Rightarrow> string \<Rightarrow> string \<Rightarrow> (string \<times> store) res" where
  "create_project st name pid created =
     bindE (validate_name name) (\<lambda>_.
       let record' = jobj [(''schema'', JStr ''indago.project.v1''), (''name'', JStr name), (''id'', JStr pid),
             (''created_at'', JStr created)]
       in if list_ex (\<lambda>r. p_name r = name \<or> p_id r = pid) (projects st) then constraint
          else bindE (dump record') (\<lambda>text.
            Inr (text, st\<lparr>projects := projects st @ [\<lparr>p_name = name, p_id = pid, p_created = created\<rparr>]\<rparr>)))"

definition matching :: "string \<Rightarrow> string \<Rightarrow> bool" where
  "matching wanted have = (have = wanted \<or> wanted = [])"

definition target :: "store \<Rightarrow> string \<Rightarrow> string \<Rightarrow> bool \<Rightarrow> target_rec res" where
  "target st project tid verify =
     bindE (require_project st project) (\<lambda>_.
       case find (\<lambda>r. t_project r = project \<and> matching tid (t_id r)) (rev (targets st)) of
         None \<Rightarrow> throw ''project has no matching target''
       | Some r \<Rightarrow>
           bindE (object_path (t_sha r)) (\<lambda>path.
             let result = \<lparr>tr_id = t_id r, tr_project = project, tr_sha = t_sha r, tr_name = t_name r,
                            tr_size = t_size r\<rparr>
             in if verify then
                  bindE (sha256_file [] (objects st path)) (\<lambda>h.
                    throw_if (h \<noteq> t_sha r) ''artifact integrity check failed'' (Inr result))
                else Inr result))"

definition latest_target :: "store \<Rightarrow> string \<Rightarrow> target_rec res" where
  "latest_target st project = target st project [] True"

definition import_limit :: nat where "import_limit = 512 * 1024 * 1024"

text \<open>
  \<open>source\<close> is the size that the first look at a regular file gives, and the bytes that
  the copy then holds.
\<close>

definition import_target ::
  "store \<Rightarrow> string \<Rightarrow> (nat \<times> string) option \<Rightarrow> string \<Rightarrow> string \<Rightarrow> string \<Rightarrow> (target_rec \<times> store) res" where
  "import_target st project source filename tid created =
     bindE (require_project st project) (\<lambda>_.
       case source of
         None \<Rightarrow> throw ''target is not a regular file''
       | Some (sz, bytes) \<Rightarrow>
           if sz > import_limit then throw ''target exceeds 512 MiB import limit''
           else if length bytes > import_limit then throw ''copied target exceeds import limit''
           else
             let sha = sha256_text bytes in
             bindE (object_path sha) (\<lambda>dest.
               let fs = (case objects st dest of None \<Rightarrow> (objects st)(dest \<mapsto> bytes) | Some _ \<Rightarrow> objects st) in
               bindE (sha256_file [] (fs dest)) (\<lambda>again.
                 throw_if (again \<noteq> sha) ''content store corruption''
                 (let old = list_ex (\<lambda>r. t_id r = tid \<or> (t_project r = project \<and> t_sha r = sha)) (targets st);
                      rows = (if old then targets st
                              else targets st @ [\<lparr>t_id = tid, t_project = project, t_sha = sha, t_name = filename,
                                t_size = length bytes, t_created = created\<rparr>]);
                      st' = st\<lparr>targets := rows, objects := fs\<rparr>
                  in bindE (target st' project
                        (case find (\<lambda>r. t_project r = project \<and> t_sha r = sha) rows of
                           Some r \<Rightarrow> t_id r | None \<Rightarrow> []) True)
                      (\<lambda>rec. Inr (rec, st'))))))"

definition record_derivation :: "store \<Rightarrow> target_rec \<Rightarrow> json \<Rightarrow> store res" where
  "record_derivation st t lineage =
     bindE (require_project st (tr_project t)) (\<lambda>_.
       bindE (dump lineage) (\<lambda>raw.
         let h = sha256_text raw; did = ''der_'' @ h in
         Inr (if list_ex (\<lambda>r. d_id r = did) (derivation_rows st) then st
              else st\<lparr>derivation_rows := derivation_rows st @ [\<lparr>d_id = did, d_project = tr_project t,
                     d_artifact = tr_sha t, d_record = raw, d_sha = h\<rparr>]\<rparr>)))"

definition derivations :: "(string \<Rightarrow> json res) \<Rightarrow> store \<Rightarrow> string \<Rightarrow> string \<Rightarrow> json list res" where
  "derivations parse st project artifact =
     bindE (require_project st project) (\<lambda>_.
       mapE (\<lambda>r. if sha256_text (d_record r) \<noteq> d_sha r then throw ''derivation integrity mismatch''
                 else parse (d_record r))
         (take 100 (filter (\<lambda>r. d_project r = project \<and> d_artifact r = artifact) (derivation_rows st))))"

definition project_info :: "store \<Rightarrow> string \<Rightarrow> json res" where
  "project_info st project =
     bindE (require_project st project) (\<lambda>_.
       case find (\<lambda>r. p_name r = project) (projects st) of
         None \<Rightarrow> throw (''unknown project: '' @ project)
       | Some r \<Rightarrow> Inr (jobj [(''schema'', JStr ''indago.project.v1''), (''name'', JStr project),
           (''id'', JStr (p_id r)), (''created_at'', JStr (p_created r)),
           (''targets'', JArr (map (\<lambda>t. jobj [(''id'', JStr (t_id t)), (''artifact_sha256'', JStr (t_sha t)),
               (''name'', JStr (t_name t)), (''size'', jint (int (t_size t)))])
             (filter (\<lambda>t. t_project t = project) (targets st))))]))"

text \<open>\<^verbatim>\<open>wb::project\<close>: the project a workbench request names.\<close>

definition wb_project :: "store \<Rightarrow> json \<Rightarrow> string res" where
  "wb_project st r =
     bindE (jat ''project'' r) (\<lambda>j. bindE (jstr j) (\<lambda>p.
       bindE (check_identifier p) (\<lambda>_. bindE (project_info st p) (\<lambda>_. Inr p))))"

section \<open>Jobs\<close>

definition job_json :: "(string \<Rightarrow> json res) \<Rightarrow> bool \<Rightarrow> job_row \<Rightarrow> json res" where
  "job_json parse single r =
     bindE (parse (j_request r)) (\<lambda>req.
       let item = jobj [(''id'', JStr (j_id r)), (''revision'', JStr (j_revision r)), (''status'', JStr (j_status r)),
             (''request'', req), (''created_at'', JStr (j_created r)), (''finished_at'', JStr (j_finished r))]
       in bindE (if single \<and> j_result r \<noteq> [] then bindE (parse (j_result r)) (\<lambda>v. Inr (jput ''result'' v item))
                 else Inr item) (\<lambda>item.
          if single then Inr item
          else if \<not> is_object req then Inl Json_Type
          else Inr (jput ''details_omitted'' (JBool True) (jput ''request'' (jerase ''arguments'' req) item))))"

definition job_items :: "(string \<Rightarrow> json res) \<Rightarrow> store \<Rightarrow> string \<Rightarrow> string \<Rightarrow> json list res" where
  "job_items parse st project jid =
     bindE (require_project st project) (\<lambda>_.
       bindE (mapE (job_json parse (jid \<noteq> []))
               (take 100 (filter (\<lambda>r. j_project r = project \<and> matching jid (j_id r)) (rev (jobs st))))) (\<lambda>items.
         if jid \<noteq> [] \<and> items = [] then throw ''unknown job'' else Inr items))"

definition job_info :: "(string \<Rightarrow> json res) \<Rightarrow> store \<Rightarrow> string \<Rightarrow> string \<Rightarrow> json res" where
  "job_info parse st project jid =
     bindE (job_items parse st project jid) (\<lambda>items.
       Inr (jobj [(''schema'', JStr ''indago.jobs.v1''), (''jobs'', JArr items)]))"

text \<open>\<^verbatim>\<open>job_info(project, id)["jobs"][0]\<close>.\<close>

definition first_job :: "(string \<Rightarrow> json res) \<Rightarrow> store \<Rightarrow> string \<Rightarrow> string \<Rightarrow> json res" where
  "first_job parse st project jid =
     bindE (job_items parse st project jid) (\<lambda>items.
       case items of [] \<Rightarrow> Inl Json_Out_Of_Range | i # _ \<Rightarrow> Inr i)"

text \<open>\<^verbatim>\<open>INSERT INTO job_events\<close>: the sequence number is assigned.\<close>

definition log_event :: "string \<Rightarrow> string \<Rightarrow> string \<Rightarrow> string \<Rightarrow> store \<Rightarrow> store" where
  "log_event jid kind at' detail st =
     st\<lparr>job_log := job_log st @ [\<lparr>e_seq = Suc (length (job_log st)), e_job = jid, e_kind = kind, e_at = at',
                                 e_detail = detail\<rparr>]\<rparr>"

definition start_job ::
  "(string \<Rightarrow> json res) \<Rightarrow> store \<Rightarrow> target_rec \<Rightarrow> json \<Rightarrow> string \<Rightarrow> string \<Rightarrow> string \<Rightarrow> (json \<times> store) res" where
  "start_job parse st t request jid revision at' =
     bindE (jvalue_str ''idempotency_key'' [] request) (\<lambda>key.
     bindE (dump request) (\<lambda>text.
       case (if key = [] then None
             else find (\<lambda>r. i_project r = tr_project t \<and> i_key r = key) (idems st)) of
         Some old \<Rightarrow>
           if i_request old \<noteq> text then throw ''idempotency key reused with different request''
           else bindE (first_job parse st (tr_project t) (i_job old)) (\<lambda>j. Inr (j, st))
       | None \<Rightarrow>
           if list_ex (\<lambda>r. j_id r = jid \<or> j_revision r = revision) (jobs st)
              \<or> \<not> list_ex (\<lambda>r. p_name r = tr_project t) (projects st)
              \<or> \<not> list_ex (\<lambda>r. t_id r = tr_id t) (targets st)
           then constraint
           else
             let job = jobj [(''id'', JStr jid), (''revision'', JStr revision), (''status'', JStr ''queued''),
                   (''request'', request), (''created_at'', JStr at')];
                 row = \<lparr>j_id = jid, j_project = tr_project t, j_target = tr_id t, j_revision = revision,
                        j_status = ''queued'', j_request = text, j_created = at', j_finished = [], j_result = []\<rparr>;
                 st1 = st\<lparr>jobs := jobs st @ [row],
                          idems := (if key = [] then idems st
                            else idems st @ [\<lparr>i_project = tr_project t, i_key = key, i_request = text, i_job = jid\<rparr>])\<rparr>
             in Inr (job, log_event jid ''queued'' at' ''{}'' st1)))"

definition set_jobs :: "(job_row \<Rightarrow> bool) \<Rightarrow> (job_row \<Rightarrow> job_row) \<Rightarrow> store \<Rightarrow> store" where
  "set_jobs P f st = st\<lparr>jobs := map (\<lambda>r. if P r then f r else r) (jobs st)\<rparr>"

text \<open>
  \<^verbatim>\<open>claim_job\<close> commits the lease (\<open>claim_commit\<close>) and then reads the job back.
\<close>

definition claim_commit :: "store \<Rightarrow> string \<Rightarrow> string \<Rightarrow> string \<Rightarrow> int \<Rightarrow> int \<Rightarrow> string \<Rightarrow> store res" where
  "claim_commit st project jid token now1 now2 at' =
     (case find (\<lambda>r. j_project r = project \<and> j_id r = jid) (jobs st) of
        None \<Rightarrow> throw ''unknown job''
      | Some r \<Rightarrow>
          if j_status r \<noteq> ''queued'' \<and> j_status r \<noteq> ''running''
          then throw ''job is terminal; submit a new request to retry''
          else if list_ex (\<lambda>l. l_job l = jid) (leases st)
          then throw ''job already has an owner; recover expired leases explicitly''
          else
            let st1 = st\<lparr>leases := leases st @ [\<lparr>l_job = jid, l_token = token, l_deadline = now1 + 30000,
                          l_heartbeat = now2\<rparr>]\<rparr>
            in Inr (log_event jid ''started'' at' ''{}''
                     (set_jobs (\<lambda>r. j_id r = jid) (\<lambda>r. r\<lparr>j_status := ''running''\<rparr>) st1)))"

definition claim_job ::
  "(string \<Rightarrow> json res) \<Rightarrow> store \<Rightarrow> string \<Rightarrow> string \<Rightarrow> string \<Rightarrow> int \<Rightarrow> int \<Rightarrow> string \<Rightarrow> (json \<times> store) res" where
  "claim_job parse st project jid token now1 now2 at' =
     bindE (claim_commit st project jid token now1 now2 at') (\<lambda>st2.
       bindE (first_job parse st2 project jid) (\<lambda>job. Inr (jput ''lease_token'' (JStr token) job, st2)))"

definition heartbeat :: "store \<Rightarrow> string \<Rightarrow> string \<Rightarrow> int \<Rightarrow> int \<Rightarrow> store res" where
  "heartbeat st jid token now1 now2 =
     (if \<not> list_ex (\<lambda>l. l_job l = jid \<and> l_token l = token) (leases st) then throw ''job lease lost''
      else Inr (st\<lparr>leases := map (\<lambda>l. if l_job l = jid \<and> l_token l = token
                    then l\<lparr>l_heartbeat := now1, l_deadline := now2 + 30000\<rparr> else l) (leases st)\<rparr>))"

definition expired :: "store \<Rightarrow> string \<Rightarrow> int \<Rightarrow> job_row \<Rightarrow> bool" where
  "expired st project now r =
     (j_project r = project \<and> j_status r = ''running'' \<and>
       (case find (\<lambda>l. l_job l = j_id r) (leases st) of None \<Rightarrow> True | Some l \<Rightarrow> l_deadline l < now))"

definition recover_one :: "string \<Rightarrow> string \<Rightarrow> store \<Rightarrow> store" where
  "recover_one at' jid st =
     (let st1 = set_jobs (\<lambda>r. j_id r = jid) (\<lambda>r. r\<lparr>j_status := ''interrupted'', j_finished := at'\<rparr>) st;
          st2 = log_event jid ''interrupted'' at'
            (''{'' @ quoted ''reason'' @ '':'' @ quoted ''expired worker lease'' @ ''}'') st1
      in st2\<lparr>leases := filter (\<lambda>l. l_job l \<noteq> jid) (leases st2)\<rparr>)"

definition recover_jobs :: "store \<Rightarrow> string \<Rightarrow> int \<Rightarrow> string \<Rightarrow> (json \<times> store) res" where
  "recover_jobs st project now at' =
     bindE (require_project st project) (\<lambda>_.
       let ids = map j_id (filter (expired st project now) (jobs st)) in
       Inr (jobj [(''schema'', JStr ''indago.recovery.v1''), (''interrupted_jobs'', JArr (map JStr ids)),
                  (''replayed'', JBool False)],
            fold (recover_one at') ids st))"

definition job_events :: "(string \<Rightarrow> json res) \<Rightarrow> store \<Rightarrow> string \<Rightarrow> string \<Rightarrow> json res" where
  "job_events parse st project jid =
     bindE (job_info parse st project jid) (\<lambda>_.
       bindE (mapE (\<lambda>e. bindE (parse (e_detail e)) (\<lambda>d.
                 Inr (jobj [(''sequence'', jint (int (e_seq e))), (''kind'', JStr (e_kind e)), (''at'', JStr (e_at e)),
                            (''detail'', d)])))
               (take 1000 (filter (\<lambda>e. e_job e = jid) (job_log st)))) (\<lambda>rows.
         Inr (jobj [(''schema'', JStr ''indago.job-events.v1''), (''events'', JArr rows)])))"

definition cancel_job :: "(string \<Rightarrow> json res) \<Rightarrow> store \<Rightarrow> string \<Rightarrow> string \<Rightarrow> (json \<times> store) res" where
  "cancel_job parse st project jid =
     bindE (first_job parse st project jid) (\<lambda>j. bindE (jat ''status'' j) (\<lambda>s. bindE (jstr s) (\<lambda>state.
       let active = (state = ''running'' \<or> state = ''queued'');
           answer = jobj [(''schema'', JStr ''indago.cancel.v1''), (''job_id'', JStr jid),
             (''status'', JStr (if active then ''cancellation_requested'' else state))]
       in if active then bindE (validate_name jid) (\<lambda>_.
              Inr (answer, if jid \<in> set (cancels st) then st else st\<lparr>cancels := cancels st @ [jid]\<rparr>))
          else Inr (answer, st))))"

end
