(* ===== verification/Ind_Scope.thy ===== *)
theory Ind_Scope
  imports Ind_Store
begin

text \<open>
  The scope of an investigation (\<^verbatim>\<open>src/harness_scope.hpp\<close>): the components that an
  operator declared when the investigation was created, and those that verified receipts have
  added.  Every read of the harness selects one of them, so the selection is what keeps a
  request inside the scope.
\<close>

section \<open>Components\<close>

text \<open>\<^verbatim>\<open>push_back\<close>: null becomes an array, other kinds throw.\<close>

definition push_back :: "json \<Rightarrow> json \<Rightarrow> json res" where
  "push_back v j = (case j of JArr xs \<Rightarrow> Inr (JArr (xs @ [v])) | JNull \<Rightarrow> Inr (JArr [v]) | _ \<Rightarrow> Inl Json_Type)"

definition root_component :: "json \<Rightarrow> json res" where
  "root_component iv =
     bindE (jat ''target_id'' iv) (\<lambda>t. bindE (jat ''artifact_sha256'' iv) (\<lambda>a.
       Inr (jobj [(''target_id'', t), (''artifact_sha256'', a)])))"

definition harness_components :: "json \<Rightarrow> json res" where
  "harness_components iv =
     bindE (if contains iv ''scope'' then bindE (jat ''scope'' iv) (jat ''components'')
            else bindE (root_component iv) (\<lambda>c. Inr (JArr [c]))) (\<lambda>declared.
     bindE (jvalue ''derived_components'' (JArr []) iv) (\<lambda>derived.
       foldE push_back (jrange derived) declared))"

fun any_artifact :: "json \<Rightarrow> json list \<Rightarrow> bool res" where
  "any_artifact sha [] = Inr False"
| "any_artifact sha (c # cs) =
     bindE (jat ''artifact_sha256'' c) (\<lambda>a. if jeq a sha then Inr True else any_artifact sha cs)"

definition harness_contains_artifact :: "json \<Rightarrow> json \<Rightarrow> bool res" where
  "harness_contains_artifact iv sha =
     bindE (harness_components iv) (\<lambda>cs. any_artifact sha (jrange cs))"

text \<open>One conjunct of the selection: the request does not name the field, or it agrees.\<close>

definition agrees :: "json \<Rightarrow> string \<Rightarrow> json \<Rightarrow> string \<Rightarrow> bool res" where
  "agrees r key c field =
     (if \<not> contains r key then Inr True
      else bindE (jat key r) (\<lambda>v. bindE (jat field c) (\<lambda>w. Inr (jeq v w))))"

definition selects :: "json \<Rightarrow> json \<Rightarrow> bool res" where
  "selects r c =
     bindE (agrees r ''target_id'' c ''target_id'') (\<lambda>t. if \<not> t then Inr False else
     bindE (agrees r ''artifact_sha256'' c ''artifact_sha256'') (\<lambda>a. if \<not> a then Inr False else
     agrees r ''artifact'' c ''artifact_sha256''))"

fun select_among :: "json \<Rightarrow> json list \<Rightarrow> json res" where
  "select_among r [] = throw ''cross-scope or mismatched component request''"
| "select_among r (c # cs) = bindE (selects r c) (\<lambda>ok. if ok then Inr c else select_among r cs)"

definition harness_select_component :: "json \<Rightarrow> json \<Rightarrow> json res" where
  "harness_select_component iv r =
     bindE (if contains r ''project''
            then bindE (jat ''project'' r) (\<lambda>p. bindE (jat ''project'' iv) (\<lambda>q. Inr (\<not> jeq p q)))
            else Inr False) (\<lambda>foreign.
     throw_if foreign ''cross-project investigation request''
     (bindE (harness_components iv) (\<lambda>cs.
        if \<not> contains r ''target_id'' \<and> \<not> contains r ''artifact_sha256'' \<and> \<not> contains r ''artifact''
        then root_component iv
        else select_among r (jrange cs))))"

section \<open>What a selection guarantees\<close>

lemma select_among_Inr:
  "select_among r cs = Inr c \<Longrightarrow> c \<in> set cs \<and> selects r c = Inr True"
  by (induction cs) (auto split: if_splits)

lemma agrees_True:
  "agrees r key c field = Inr True \<Longrightarrow> jat key r = Inr v \<Longrightarrow> \<exists>w. jat field c = Inr w \<and> jeq v w"
  by (auto simp: agrees_def contains_iff split: if_splits)

lemma selects_True:
  assumes "selects r c = Inr True"
  shows "agrees r ''target_id'' c ''target_id'' = Inr True"
    and "agrees r ''artifact_sha256'' c ''artifact_sha256'' = Inr True"
    and "agrees r ''artifact'' c ''artifact_sha256'' = Inr True"
  using assms by (auto simp: selects_def split: if_splits)

lemma any_artifact_True: "any_artifact sha cs = Inr True \<Longrightarrow> \<exists>c \<in> set cs. \<exists>a. jat ''artifact_sha256'' c = Inr a \<and> jeq a sha"
  by (induction cs) (auto split: if_splits)

lemma foldE_push_back: "foldE push_back vs (JArr xs) = Inr (JArr (xs @ vs))"
  by (induction vs arbitrary: xs) (simp_all add: push_back_def)

text \<open>The components of an investigation without a declared scope: its root, then the derived ones.\<close>

lemma components_unscoped:
  assumes "root_component iv = Inr c" and "\<not> contains iv ''scope''"
    and "jvalue ''derived_components'' (JArr []) iv = Inr d"
  shows "harness_components iv = Inr (JArr (c # jrange d))"
  using assms foldE_push_back [of "jrange d" "[c]"] by (simp add: harness_components_def)

section \<open>Properties\<close>

text \<open>
  C18. A selected component is the root of the investigation or one of its components, the
  request is for the project of the investigation, and every target or artifact that the
  request names is that of the selected component: no request reaches outside the scope.
\<close>

theorem select_component_in_scope:
  assumes "harness_select_component iv r = Inr c"
  shows "(root_component iv = Inr c \<or> (\<exists>cs. harness_components iv = Inr cs \<and> c \<in> set (jrange cs))) \<and>
    (\<forall>p. jat ''project'' r = Inr p \<longrightarrow> (\<exists>q. jat ''project'' iv = Inr q \<and> jeq p q)) \<and>
    (\<forall>v. jat ''target_id'' r = Inr v \<longrightarrow> (\<exists>w. jat ''target_id'' c = Inr w \<and> jeq v w)) \<and>
    (\<forall>v. jat ''artifact_sha256'' r = Inr v \<or> jat ''artifact'' r = Inr v \<longrightarrow>
       (\<exists>w. jat ''artifact_sha256'' c = Inr w \<and> jeq v w))"
proof -
  have project: "\<exists>q. jat ''project'' iv = Inr q \<and> jeq p q" if "jat ''project'' r = Inr p" for p
    using assms that by (auto simp: harness_select_component_def contains_iff split: if_splits)
  obtain cs where cs: "harness_components iv = Inr cs"
    using assms by (auto simp: harness_select_component_def)
  show ?thesis
  proof (cases "\<not> contains r ''target_id'' \<and> \<not> contains r ''artifact_sha256'' \<and> \<not> contains r ''artifact''")
    case True
    then have "root_component iv = Inr c"
      using assms by (auto simp: harness_select_component_def)
    with True project show ?thesis
      by (auto simp: contains_iff)
  next
    case False
    then have "select_among r (jrange cs) = Inr c"
      using assms cs by (auto simp: harness_select_component_def)
    from select_among_Inr [OF this] have c: "c \<in> set (jrange cs)" "selects r c = Inr True"
      by auto
    note a = selects_True [OF c(2), THEN agrees_True]
    show ?thesis
      using project cs c(1) a by blast
  qed
qed

definition demo_investigation :: json where
  "demo_investigation = jobj [(''id'', JStr ''inv_1''), (''project'', JStr ''p''), (''target_id'', JStr ''tgt_1''),
     (''artifact_sha256'', JStr ''aa''),
     (''derived_components'', JArr [jobj [(''target_id'', JStr ''tgt_2''), (''artifact_sha256'', JStr ''bb'')]])]"

lemma demo_select:
  "harness_select_component demo_investigation (jobj [(''project'', JStr ''p''), (''target_id'', JStr ''tgt_2'')]) =
     Inr (jobj [(''target_id'', JStr ''tgt_2''), (''artifact_sha256'', JStr ''bb'')])"
  by code_simp

theorem select_component_in_scope_witness:
  "\<exists>cs. harness_components demo_investigation = Inr cs \<and>
     jobj [(''target_id'', JStr ''tgt_2''), (''artifact_sha256'', JStr ''bb'')] \<in> set (jrange cs)"
proof -
  have "root_component demo_investigation \<noteq> Inr (jobj [(''target_id'', JStr ''tgt_2''), (''artifact_sha256'', JStr ''bb'')])"
    by code_simp
  then show ?thesis
    using select_component_in_scope [OF demo_select] by blast
qed

end
