(* ===== verification/Ind_Number.thy ===== *)
theory Ind_Number
  imports Ind_Json
begin

text \<open>
  The two readers of unsigned integers in requests and native records: \<^verbatim>\<open>runtime_number\<close>
  (\<^verbatim>\<open>src/runtime_image.cpp\<close>) and \<^verbatim>\<open>harness_unsigned\<close> (\<^verbatim>\<open>src/harness_validation.hpp\<close>).
\<close>

definition runtime_number :: "json \<Rightarrow> nat res" where
  "runtime_number v =
     (case v of
        JUInt w \<Rightarrow> Inr (unat w)
      | JStr s \<Rightarrow>
          (let hex = starts_with s ''0x''; body = (if hex then drop 2 s else s) in
           case from_chars_all (if hex then 16 else 10) u64_max body of
             Some n \<Rightarrow> Inr n
           | None \<Rightarrow> throw ''invalid runtime integer'')
      | _ \<Rightarrow>
          (if is_number_integer v
           then bindE (ji64 v) (\<lambda>i. if 0 \<le> i then ju64 v
                  else throw ''expected unsigned integer or hexadecimal address'')
           else throw ''expected unsigned integer or hexadecimal address''))"

definition harness_unsigned :: "json \<Rightarrow> nat res" where
  "harness_unsigned v =
     (case v of
        JUInt w \<Rightarrow> Inr (unat w)
      | JStr s \<Rightarrow>
          (let hex = (starts_with s ''0x'' \<or> starts_with s ''0X''); body = (if hex then drop 2 s else s) in
           case from_chars_all (if hex then 16 else 10) u64_max body of
             Some n \<Rightarrow> Inr n
           | None \<Rightarrow> throw ''Invalid or overflowing unsigned integer'')
      | _ \<Rightarrow>
          (if is_number_integer v
           then bindE (ji64 v) (\<lambda>i. if 0 \<le> i then ju64 v
                  else throw ''Expected unsigned integer or hexadecimal address'')
           else throw ''Expected unsigned integer or hexadecimal address''))"

lemma unat_u64_le [simp]: "unat (w :: u64) \<le> 18446744073709551615"
  using unsigned_less [of w, where ?'a = nat] by simp

lemma ju64_le: "ju64 v = Inr n \<Longrightarrow> n \<le> 18446744073709551615"
  by (auto simp: ju64_def)

lemma from_chars_u64_le: "from_chars_all b 18446744073709551615 s = Some n \<Longrightarrow> n \<le> 18446744073709551615"
  by (rule from_chars_all_le)

lemma runtime_number_le: "runtime_number v = Inr n \<Longrightarrow> n \<le> 18446744073709551615"
  using ju64_le [of v n] from_chars_u64_le
  by (auto simp: runtime_number_def Let_def split: json.splits option.splits if_splits)

lemma harness_unsigned_le: "harness_unsigned v = Inr n \<Longrightarrow> n \<le> 18446744073709551615"
  using ju64_le [of v n] from_chars_u64_le
  by (auto simp: harness_unsigned_def Let_def split: json.splits option.splits if_splits)

lemma to_string_no_prefix: "\<not> starts_with (to_string n) (CHR ''0'' # CHR ''x'' # [])"
  "\<not> starts_with (to_string n) (CHR ''0'' # CHR ''X'' # [])"
proof -
  have "c \<in> set ''0123456789''" if "starts_with (to_string n) [CHR ''0'', c]" for c
    using to_string_decimal [of n] that by (auto simp: starts_with_iff only_of_iff)
  then show "\<not> starts_with (to_string n) (CHR ''0'' # CHR ''x'' # [])"
    "\<not> starts_with (to_string n) (CHR ''0'' # CHR ''X'' # [])"
    by auto
qed

lemma hex_address_body: "starts_with (hex_address w) ''0x''" "drop 2 (hex_address w) = hex_of (unat w)"
  by (simp_all add: hex_address_def starts_with_def)

section \<open>Properties\<close>

text \<open>
  C19. Both readers invert both writers of the program: an address written by
  \<^verbatim>\<open>hex_address\<close> and a number written in decimal are read back exactly, at every 64-bit
  value, by the runtime and by the harness.
\<close>

theorem number_roundtrip:
  "runtime_number (JStr (hex_address w)) = Inr (unat w) \<and> harness_unsigned (JStr (hex_address w)) = Inr (unat w) \<and>
   runtime_number (JStr (to_string (unat w))) = Inr (unat w) \<and>
   harness_unsigned (JStr (to_string (unat w))) = Inr (unat w)"
  using to_string_no_prefix [of "unat w"] from_chars_hex_of [OF unat_u64_le [of w]]
    from_chars_to_string [OF unat_u64_le [of w]]
  by (simp add: runtime_number_def harness_unsigned_def hex_address_body)

text \<open>The readers disagree on the prefix \<^verbatim>\<open>0X\<close>.\<close>

lemma prefix_disagreement:
  "harness_unsigned (JStr ''0X1f'') = Inr 31 \<and> runtime_number (JStr ''0X1f'') = throw ''invalid runtime integer''"
  by (simp add: harness_unsigned_def runtime_number_def starts_with_def from_chars_all_def from_chars_def
      is_digit_in_def digit_val_def is_digit_def is_lower_def is_upper_def Let_def)

end
