(* ===== verification/Ind_Artifact.thy ===== *)
theory Ind_Artifact
  imports Ind_Scope Ind_Number
begin

text \<open>
  The bounded page of an imported artifact (\<^verbatim>\<open>src/harness_artifact_read.hpp\<close>): a slice of
  the verified object, at a file offset or at the file offset of a virtual address.  The
  mapping of addresses is the XAIR library's, an argument of the model: \<open>xair raw\<close> is \<open>None\<close> when
  the library does not load the bytes, and otherwise its search for the segment of an address.
\<close>

record segment =
  seg_va :: nat
  seg_file_offset :: nat
  seg_file_size :: nat

type_synonym loader = "string \<Rightarrow> (nat \<Rightarrow> segment option) option"

definition artifact_limit :: nat where "artifact_limit = 64 * 1024 * 1024"

text \<open>The file offset and the readable bytes after it, for an address in a segment.\<close>

definition segment_range :: "segment \<Rightarrow> nat \<Rightarrow> nat \<Rightarrow> (nat \<times> nat) res" where
  "segment_range s n address =
     (if address < seg_va s \<or> address - seg_va s \<ge> seg_file_size s
      then throw ''Address has no file-backed mapping; runtime or zero-filled bytes are not artifact bytes''
      else
        let delta = address - seg_va s in
        if seg_file_offset s > n \<or> delta > n - seg_file_offset s
        then throw ''Native mapping exceeds artifact''
        else
          let offset = seg_file_offset s + delta in
          Inr (offset, min (seg_file_size s - delta) (n - offset)))"

definition map_address :: "loader \<Rightarrow> string \<Rightarrow> json \<Rightarrow> (nat \<times> nat \<times> json) res" where
  "map_address xair raw request =
     (case xair raw of
        None \<Rightarrow> throw ''Native file mapping unavailable; use a file offset''
      | Some find_segment \<Rightarrow>
          bindE (jstr_at ''address'' request) (\<lambda>atext.
          bindE (runtime_number (JStr atext)) (\<lambda>address.
            case find_segment address of
              None \<Rightarrow> throw ''Address has no file-backed mapping; runtime or zero-filled bytes are not artifact bytes''
            | Some s \<Rightarrow>
                bindE (segment_range s (length raw) address) (\<lambda>(offset, available).
                  Inr (offset, available,
                       jobj [(''virtual_address'', JStr atext), (''segment_va'', jnat (seg_va s)),
                             (''file_offset'', jnat offset),
                             (''source'', JStr ''XAIR binary loader; static file-backed mapping'')])))))"

definition artifact_page_json :: "string \<Rightarrow> string \<Rightarrow> nat \<Rightarrow> nat \<Rightarrow> nat \<Rightarrow> json \<Rightarrow> json" where
  "artifact_page_json sha bytes offset count available mapping =
     jobj [(''schema'', JStr ''indago.artifact-page.v1''), (''artifact_sha256'', JStr sha), (''raw_sha256'', JStr sha),
       (''source_verified'', JBool True), (''offset'', jnat offset), (''pointer'', JStr ''/artifact_bytes''),
       (''offset_unit'', JStr ''file_bytes''), (''length'', jnat count), (''hex'', JStr (to_hex bytes)),
       (''slice_sha256'', JStr (sha256_text bytes)), (''mapping'', mapping),
       (''next_offset'', if count < available then jnat (offset + count) else JNull),
       (''trust'', JStr ''Exact artifact bytes; no runtime observation or semantic proof'')]"

text \<open>The verified bytes of the component: its hash, and the contents of its object.\<close>

definition artifact_source :: "store \<Rightarrow> json \<Rightarrow> json \<Rightarrow> (string \<times> string) res" where
  "artifact_source st component request =
     bindE (jstr_at ''project'' request) (\<lambda>project.
     bindE (jstr_at ''target_id'' component) (\<lambda>tid.
     bindE (target st project tid True) (\<lambda>t.
     bindE (jstr_at ''artifact_sha256'' component) (\<lambda>sha.
     bindE (if contains request ''raw_sha256'' then bindE (jat ''raw_sha256'' request) (\<lambda>p. Inr (\<not> jeq p (JStr sha)))
            else Inr False) (\<lambda>mismatch.
     throw_if mismatch ''Artifact source pin mismatch'' (
     bindE (read_object (objects st) (tr_sha t) artifact_limit) (\<lambda>raw.
     throw_if (sha256_text raw \<noteq> sha) ''Artifact source integrity failure'' (Inr (sha, raw)))))))))"

definition artifact_window :: "loader \<Rightarrow> string \<Rightarrow> json \<Rightarrow> (nat \<times> nat \<times> json) res" where
  "artifact_window xair raw request =
     bindE (bound request ''offset'' 0 artifact_limit) (\<lambda>offset.
       if contains request ''address'' then map_address xair raw request
       else Inr (offset, if offset \<le> length raw then length raw - offset else 0, JNull))"

definition harness_artifact_page :: "loader \<Rightarrow> store \<Rightarrow> json \<Rightarrow> json \<Rightarrow> nat \<Rightarrow> json res" where
  "harness_artifact_page xair st component request maximum =
     bindE (check_keys request [''project'', ''offset'', ''address'', ''max_bytes'', ''raw_sha256'']) (\<lambda>_.
     throw_if (contains request ''address'' \<and> contains request ''offset'')
       ''Select a virtual address or a file offset, not both'' (
     bindE (bound request ''max_bytes'' 256 maximum) (\<lambda>len.
     throw_if (len = 0) ''Artifact page must request at least one byte'' (
     bindE (artifact_source st component request) (\<lambda>(sha, raw).
     bindE (artifact_window xair raw request) (\<lambda>(offset, available, mapping).
     throw_if (available = 0) ''Artifact offset is outside readable bytes'' (
       let count = min len available in
       bindE (substr raw offset count) (\<lambda>bytes.
         Inr (artifact_page_json sha bytes offset count available mapping)))))))))"

section \<open>What a page holds\<close>

lemma substr_Inr: "substr s pos n = Inr t \<longleftrightarrow> pos \<le> length s \<and> t = take n (drop pos s)"
  by (auto simp: substr_def)

lemma mapped_range: "fo \<le> n \<Longrightarrow> d \<le> n - fo \<Longrightarrow> (fo + d) + min k (n - (fo + d)) \<le> (n :: nat)"
  by linarith

lemma segment_range_Inr:
  assumes "segment_range s n address = Inr (offset, available)"
  shows "offset + available \<le> n" and "seg_va s \<le> address" and "address < seg_va s + seg_file_size s"
    and "offset = seg_file_offset s + (address - seg_va s)"
    and "available = min (seg_va s + seg_file_size s - address) (n - offset)"
proof -
  from assms have d: "seg_file_offset s \<le> n" "address - seg_va s \<le> n - seg_file_offset s"
    and o: "offset = seg_file_offset s + (address - seg_va s)"
      "available = min (seg_file_size s - (address - seg_va s)) (n - (seg_file_offset s + (address - seg_va s)))"
    and r: "seg_va s \<le> address" "address - seg_va s < seg_file_size s"
    by (simp_all add: segment_range_def Let_def not_less not_le split: if_splits)
  show "offset + available \<le> n" unfolding o by (rule mapped_range [OF d])
  show "seg_va s \<le> address" "address < seg_va s + seg_file_size s" "offset = seg_file_offset s + (address - seg_va s)"
    "available = min (seg_va s + seg_file_size s - address) (n - offset)"
    using o r by (simp_all add: add.commute)
qed

text \<open>
  Where the bytes of a request begin and how many there are: with an address, the file bytes that the segment of
  the address maps from it on; without one, the bytes from the offset of the request to the end of the file.
\<close>

definition addressed :: "loader \<Rightarrow> string \<Rightarrow> json \<Rightarrow> nat \<Rightarrow> nat \<Rightarrow> bool" where
  "addressed xair raw request offset available =
     (if contains request ''address'' then
        (\<exists>atext address find_segment s.
           jat ''address'' request = Inr (JStr atext) \<and> runtime_number (JStr atext) = Inr address \<and>
           xair raw = Some find_segment \<and> find_segment address = Some s \<and>
           seg_va s \<le> address \<and> address < seg_va s + seg_file_size s \<and>
           offset = seg_file_offset s + (address - seg_va s) \<and>
           available = min (seg_va s + seg_file_size s - address) (length raw - offset))
      else bound request ''offset'' 0 artifact_limit = Inr offset \<and> available = length raw - offset)"

lemma map_address_Inr:
  assumes "map_address xair raw request = Inr (offset, available, mapping)" and "contains request ''address''"
  shows "offset + available \<le> length raw \<and> addressed xair raw request offset available"
proof -
  obtain find_segment atext address s where m: "xair raw = Some find_segment" "jat ''address'' request = Inr (JStr atext)"
    "runtime_number (JStr atext) = Inr address" "find_segment address = Some s"
    and r: "segment_range s (length raw) address = Inr (offset, available)"
    using assms(1) by (auto simp: map_address_def split: option.splits)
  show ?thesis using m segment_range_Inr[OF r] assms(2) unfolding addressed_def by auto
qed

lemma artifact_source_Inr:
  assumes "artifact_source st component request = Inr (sha, raw)"
  shows "jat ''artifact_sha256'' component = Inr (JStr sha)" and "sha256_text raw = sha"
    and "length raw \<le> artifact_limit" and "jat ''raw_sha256'' request = Inr p \<Longrightarrow> p = JStr sha"
    and "\<exists>project tid t. jat ''project'' request = Inr (JStr project) \<and> jat ''target_id'' component = Inr (JStr tid) \<and>
      target st project tid True = Inr t \<and> read_object (objects st) (tr_sha t) artifact_limit = Inr raw"
  subgoal using assms by (auto simp: artifact_source_def)
  subgoal using assms by (auto simp: artifact_source_def)
  subgoal using assms by (auto simp: artifact_source_def read_object_def dest!: read_file_ok)
  subgoal using assms by (auto simp: artifact_source_def contains_iff split: if_splits)
  subgoal using assms by (auto simp: artifact_source_def)
  done

lemma artifact_window_Inr:
  assumes "artifact_window xair raw request = Inr (offset, available, mapping)" and "available \<noteq> 0"
  shows "offset + available \<le> length raw \<and> addressed xair raw request offset available"
proof -
  obtain o0 where o0: "bound request ''offset'' 0 artifact_limit = Inr o0"
    and r: "(if contains request ''address'' then map_address xair raw request
       else Inr (o0, if o0 \<le> length raw then length raw - o0 else 0, JNull)) = Inr (offset, available, mapping)"
    using assms(1) unfolding artifact_window_def by (elim bindE_InrE)
  show ?thesis
  proof (cases "contains request ''address''")
    case True
    then show ?thesis using map_address_Inr r by simp
  next
    case False
    then show ?thesis using o0 r assms(2) by (auto simp: addressed_def split: if_splits)
  qed
qed

lemma artifact_page_Inr:
  assumes "harness_artifact_page xair st component request maximum = Inr page"
  shows "\<exists>len sha raw offset available mapping.
    bound request ''max_bytes'' 256 maximum = Inr len \<and> 0 < len \<and> 0 < available \<and>
    artifact_source st component request = Inr (sha, raw) \<and>
    artifact_window xair raw request = Inr (offset, available, mapping) \<and>
    page = artifact_page_json sha (take (min len available) (drop offset raw)) offset (min len available) available mapping"
  using assms by (auto simp: harness_artifact_page_def Let_def substr_Inr)

section \<open>Properties\<close>

text \<open>
  C17. A page of an artifact is exactly the bytes the request addresses: the stored object of the component's
  target, whose hash is the component's, is read from the requested file offset, or from the file offset that the
  loader's segment gives the requested virtual address, never past the bytes the segment or the file holds; the
  length is the requested one cut at those bytes; the hexadecimal text decodes to that slice; a pin of the request
  is the artifact's hash; and the next offset continues where the page ends.
\<close>

theorem artifact_page_exact:
  assumes "harness_artifact_page xair st component request maximum = Inr page" and "256 \<le> maximum"
  shows "\<exists>project tid t sha raw offset available len.
    jat ''project'' request = Inr (JStr project) \<and> jat ''target_id'' component = Inr (JStr tid) \<and>
    target st project tid True = Inr t \<and> read_object (objects st) (tr_sha t) artifact_limit = Inr raw \<and>
    jat ''artifact_sha256'' component = Inr (JStr sha) \<and> sha256_text raw = sha \<and>
    (\<forall>p. jat ''raw_sha256'' request = Inr p \<longrightarrow> p = JStr sha) \<and>
    bound request ''max_bytes'' 256 maximum = Inr len \<and> 0 < len \<and> len \<le> maximum \<and>
    addressed xair raw request offset available \<and> 0 < available \<and> offset + available \<le> length raw \<and>
    jat ''offset'' page = Inr (jnat offset) \<and>
    (\<exists>hex. jat ''hex'' page = Inr (JStr hex) \<and> unhex hex = take (min len available) (drop offset raw) \<and>
       length hex = 2 * min len available) \<and>
    jat ''next_offset'' page = Inr (if len < available then jnat (offset + len) else JNull)"
proof -
  from artifact_page_Inr [OF assms(1)] obtain len sha raw offset available mapping where
    len: "bound request ''max_bytes'' 256 maximum = Inr len" "0 < len" "0 < available"
    and src: "artifact_source st component request = Inr (sha, raw)"
    and win: "artifact_window xair raw request = Inr (offset, available, mapping)"
    and page: "page = artifact_page_json sha (take (min len available) (drop offset raw)) offset (min len available)
       available mapping"
    by blast
  let ?n = "min len available"
  have fields: "jat ''offset'' page = Inr (jnat offset)"
    "jat ''hex'' page = Inr (JStr (to_hex (take ?n (drop offset raw))))"
    "jat ''next_offset'' page = Inr (if len < available then jnat (offset + len) else JNull)"
    unfolding page by (auto simp: artifact_page_json_def jat_jobj min_def)
  have window: "offset + available \<le> length raw" "addressed xair raw request offset available"
    using artifact_window_Inr [OF win] len(3) by simp_all
  then have "length (to_hex (take ?n (drop offset raw))) = 2 * ?n" by simp
  with fields(2) have hex: "\<exists>h. jat ''hex'' page = Inr (JStr h) \<and> unhex h = take ?n (drop offset raw) \<and> length h = 2 * ?n"
    by (intro exI [of _ "to_hex (take ?n (drop offset raw))"]) simp
  show ?thesis
    using artifact_source_Inr [OF src] bound_le [OF len(1) assms(2)] len window fields(1,3) hex by blast
qed

text \<open>The concrete instance: a workspace that holds one four-byte artifact.\<close>

definition demo_bytes :: string where "demo_bytes = ''MZ12''"

definition demo_sha :: string where "demo_sha = sha256_text demo_bytes"

definition demo_path :: "string list" where
  "demo_path = [''objects'', ''sha256'', take 2 demo_sha, drop 2 demo_sha]"

definition demo_artifacts :: store where
  "demo_artifacts = \<lparr>projects = [\<lparr>p_name = ''p'', p_id = ''prj_1'', p_created = ''t0''\<rparr>],
     targets = [\<lparr>t_id = ''tgt_1'', t_project = ''p'', t_sha = demo_sha, t_name = ''a.exe'', t_size = 4, t_created = ''t0''\<rparr>],
     jobs = [], idems = [], leases = [], job_log = [], derivation_rows = [], evidence_rows = [], function_rows = [],
     view_rows = [], cancels = [], objects = [demo_path \<mapsto> demo_bytes]\<rparr>"

definition demo_component :: json where
  "demo_component = jobj [(''target_id'', JStr ''tgt_1''), (''artifact_sha256'', JStr demo_sha)]"

definition demo_page_request :: json where
  "demo_page_request = jobj [(''project'', JStr ''p''), (''offset'', jnat 1), (''max_bytes'', jnat 2)]"

abbreviation no_loader :: loader where "no_loader \<equiv> (\<lambda>_. None)"

lemma demo_path_ok: "object_path demo_sha = Inr demo_path"
  by (simp add: demo_path_def demo_sha_def)

lemma demo_target_ok: "target demo_artifacts ''p'' ''tgt_1'' True =
    Inr \<lparr>tr_id = ''tgt_1'', tr_project = ''p'', tr_sha = demo_sha, tr_name = ''a.exe'', tr_size = 4\<rparr>"
  using demo_path_ok
  by (simp add: target_def require_project_def validate_name_def is_alnum_def is_lower_def demo_artifacts_def
      matching_def sha256_file_text demo_sha_def Let_def)

lemma demo_read_ok: "read_object (objects demo_artifacts) demo_sha artifact_limit = Inr demo_bytes"
  using demo_path_ok
  by (simp add: read_object_def read_file_def demo_artifacts_def artifact_limit_def demo_bytes_def)

lemma demo_request_ok:
  "check_keys demo_page_request [''project'', ''offset'', ''address'', ''max_bytes'', ''raw_sha256''] = Inr ()"
  "bound demo_page_request ''max_bytes'' 256 1024 = Inr 2"
  "bound demo_page_request ''offset'' 0 artifact_limit = Inr 1"
  "\<not> contains demo_page_request ''address''" "\<not> contains demo_page_request ''raw_sha256''"
  "jat ''project'' demo_page_request = Inr (JStr ''p'')"
  by (simp_all add: demo_page_request_def check_keys_ok bound_def contains_jobj jat_jobj ji64_def jword_def ju64_def
      artifact_limit_def) (simp add: jobj_def smap_emplace_def entries_def)

lemma demo_page:
  "harness_artifact_page no_loader demo_artifacts demo_component demo_page_request 1024 =
     Inr (artifact_page_json demo_sha ''Z1'' 1 2 3 JNull)"
proof -
  have "sha256_text demo_bytes = demo_sha" "length demo_bytes = 4" "substr demo_bytes 1 2 = Inr ''Z1''"
    by (simp_all add: demo_sha_def demo_bytes_def substr_def)
  then show ?thesis
    using demo_request_ok demo_target_ok demo_read_ok
    by (simp add: harness_artifact_page_def artifact_source_def artifact_window_def jstr_at_def demo_component_def jat_jobj Let_def)
qed

theorem artifact_page_exact_witness:
  "\<exists>page hex. harness_artifact_page no_loader demo_artifacts demo_component demo_page_request 1024 = Inr page \<and>
     jat ''offset'' page = Inr (jnat 1) \<and> jat ''hex'' page = Inr (JStr hex) \<and> unhex hex = ''Z1'' \<and>
     jat ''next_offset'' page = Inr (jnat 3)"
proof -
  obtain page where page: "harness_artifact_page no_loader demo_artifacts demo_component demo_page_request 1024 = Inr page"
    using demo_page by simp
  from artifact_page_exact [OF this] obtain project tid t raw offset available len where
    o: "jat ''project'' demo_page_request = Inr (JStr project)" "jat ''target_id'' demo_component = Inr (JStr tid)"
      "target demo_artifacts project tid True = Inr t" "read_object (objects demo_artifacts) (tr_sha t) artifact_limit = Inr raw"
    and len: "bound demo_page_request ''max_bytes'' 256 1024 = Inr len"
    and win: "addressed no_loader raw demo_page_request offset available"
    and p: "jat ''offset'' page = Inr (jnat offset)" "jat ''next_offset'' page = Inr (if len < available then jnat (offset + len) else JNull)"
      "\<exists>hex. jat ''hex'' page = Inr (JStr hex) \<and> unhex hex = take (min len available) (drop offset raw)"
    by auto
  have "project = ''p''" "tid = ''tgt_1''" using o(1,2) demo_request_ok by (simp_all add: demo_component_def jat_jobj)
  then have "tr_sha t = demo_sha" using o(3) demo_target_ok by auto
  then have "raw = demo_bytes" using o(4) demo_read_ok by simp
  moreover have "offset = 1" "len = 2" "available = length raw - 1"
    using win len demo_request_ok by (simp_all add: addressed_def)
  ultimately have "offset = 1" "len = 2" "available = 3" "take (min len available) (drop offset raw) = ''Z1''"
    by (simp_all add: demo_bytes_def)
  with p page show ?thesis by auto
qed

end
