(* ===== verification/Ind_Publish.thy ===== *)
theory Ind_Publish
  imports Ind_Store
begin

text \<open>
  The publication of a worker's result (\<^verbatim>\<open>publish_result\<close> in \<^verbatim>\<open>src/core.cpp\<close>) and the
  reads of what is published: evidence, functions and function views.  The derived search
  index (\<^verbatim>\<open>persist_index\<close>) is rebuilt from the evidence at any time; its summary is the
  argument \<open>persist\<close>.
\<close>

section \<open>Addresses and functions in a native document\<close>

definition canonical_address :: "json \<Rightarrow> string" where
  "canonical_address value =
     (case value of
        JUInt w \<Rightarrow> hex_address w
      | JStr text \<Rightarrow>
          (let body = (if starts_with text ''0x'' then drop 2 text else text) in
           case from_chars_all 16 u64_max body of
             None \<Rightarrow> []
           | Some n \<Rightarrow> hex_address (word_of_nat n))
      | _ \<Rightarrow> [])"

function collect_functions :: "nat \<Rightarrow> json \<Rightarrow> json list" where
  "collect_functions depth value =
     (if depth > 12 then []
      else if is_object value then
        (case jat ''functions'' value of Inr fs \<Rightarrow> (if is_array fs then filter is_object (elems fs) else []) | _ \<Rightarrow> []) @
        (case jat ''function'' value of Inr f \<Rightarrow> (if is_object f then [f] else []) | _ \<Rightarrow> []) @
        concat (map (\<lambda>(k, x). if k \<noteq> ''functions'' \<and> k \<noteq> ''function'' then collect_functions (Suc depth) x else [])
          (entries value))
      else if is_array value then concat (map (collect_functions (Suc depth)) (elems value))
      else [])"
  by pat_completeness auto

termination collect_functions
  by (relation "measure (\<lambda>(d, v). 13 - d)") auto

declare collect_functions.simps [simp del]

text \<open>The first of the address fields that is a valid address; then the one in the location.\<close>

fun first_address :: "string list \<Rightarrow> json \<Rightarrow> string \<Rightarrow> string" where
  "first_address [] f acc = acc"
| "first_address (k # ks) f acc =
     (case jat k f of
        Inr v \<Rightarrow> (let a = canonical_address v in if a \<noteq> [] then a else first_address ks f a)
      | Inl _ \<Rightarrow> first_address ks f acc)"

definition location_of :: "json \<Rightarrow> json option" where
  "location_of f = (case jat ''location'' f of Inr l \<Rightarrow> (if is_object l then Some l else None) | _ \<Rightarrow> None)"

definition function_address :: "json \<Rightarrow> string" where
  "function_address f =
     (let a = first_address [''entry'', ''address'', ''entry_address''] f [] in
      if a \<noteq> [] then a
      else case location_of f of
             None \<Rightarrow> []
           | Some l \<Rightarrow> (case jat ''address'' l of Inr v \<Rightarrow> canonical_address v | Inl _ \<Rightarrow> []))"

definition program_space :: "json \<Rightarrow> bool" where
  "program_space f =
     (case location_of f of
        None \<Rightarrow> True
      | Some l \<Rightarrow> (case jvalue ''address_space'' (JStr ''program'') l of
            Inr s \<Rightarrow> is_null s \<or> s \<in> {JStr ''program'', JStr ''ram'', JStr ''virtual''}
          | Inl _ \<Rightarrow> True))"

section \<open>Publication\<close>

record command_result =
  r_status :: string
  r_json :: string

definition insert_function :: "string \<Rightarrow> target_rec \<Rightarrow> string \<Rightarrow> function_row list \<Rightarrow> function_row list" where
  "insert_function fid t address rows =
     (if list_ex (\<lambda>r. f_id r = fid \<or> (f_project r = tr_project t \<and> f_artifact r = tr_sha t \<and> f_address r = address)) rows
      then rows
      else rows @ [\<lparr>f_id = fid, f_project = tr_project t, f_artifact = tr_sha t, f_address = address\<rparr>])"

text \<open>\<^verbatim>\<open>INSERT OR REPLACE INTO function_views\<close>: the replaced row is removed, the new one is last.\<close>

definition replace_view :: "view_row \<Rightarrow> view_row list \<Rightarrow> view_row list" where
  "replace_view w rows =
     filter (\<lambda>r. \<not> (w_function r = w_function w \<and> w_evidence r = w_evidence w)) rows @ [w]"

definition publish_function ::
  "target_rec \<Rightarrow> string \<Rightarrow> string \<Rightarrow> string \<times> json \<Rightarrow> store \<Rightarrow> store res" where
  "publish_function t backend ev = (\<lambda>(fid, function) st.
     let address = function_address function in
     if address = [] \<or> \<not> program_space function then Inr st
     else
       let rows = insert_function fid t address (function_rows st) in
       case find (\<lambda>r. f_project r = tr_project t \<and> f_artifact r = tr_sha t \<and> f_address r = address) rows of
         None \<Rightarrow> constraint
       | Some r \<Rightarrow>
           bindE (dump (jput ''normalized_location''
                   (jobj [(''artifact_sha256'', JStr (tr_sha t)), (''address_space'', JStr ''program''),
                          (''address'', JStr address)]) function)) (\<lambda>view.
             Inr (st\<lparr>function_rows := rows,
                     view_rows := replace_view \<lparr>w_function = f_id r, w_evidence = ev, w_backend = backend,
                       w_record = view\<rparr> (view_rows st)\<rparr>)))"

definition completeness_of :: "string \<Rightarrow> string" where
  "completeness_of status =
     (if status = ''completed'' then ''complete'' else if status = ''partial'' then ''partial'' else ''unknown'')"

definition evidence_json ::
  "target_rec \<Rightarrow> string \<Rightarrow> string \<Rightarrow> string \<Rightarrow> string \<Rightarrow> command_result \<Rightarrow> string \<Rightarrow> json \<Rightarrow> string \<Rightarrow> json" where
  "evidence_json t ev revision jid backend result raw request at' =
     jobj [(''schema'', JStr ''indago.evidence.v1''), (''id'', JStr ev), (''project'', JStr (tr_project t)),
       (''revision'', JStr revision), (''job_id'', JStr jid), (''producer'', JStr backend), (''state'', JStr ''derived''),
       (''status'', JStr (r_status result)), (''artifact_sha256'', JStr (tr_sha t)), (''raw_sha256'', JStr raw),
       (''request'', request), (''created_at'', JStr at')]"

definition envelope_json ::
  "target_rec \<Rightarrow> string \<Rightarrow> string \<Rightarrow> string \<Rightarrow> string \<Rightarrow> command_result \<Rightarrow> string \<Rightarrow> json \<Rightarrow> json" where
  "envelope_json t ev revision jid backend result raw native =
     jobj [(''schema'', JStr ''indago.result.v1''), (''request_id'', JStr jid), (''result_revision'', JStr revision),
       (''status'', JStr (r_status result)), (''completeness'', JStr (completeness_of (r_status result))),
       (''backend'', JStr backend), (''artifact_sha256'', JStr (tr_sha t)), (''evidence_ids'', JArr [JStr ev]),
       (''raw_sha256'', JStr raw), (''data'', native), (''diagnostics'', JArr [])]"

text \<open>The checks before anything is written: the job row, or the earlier result.\<close>

definition publish_check ::
  "(string \<Rightarrow> json res) \<Rightarrow> store \<Rightarrow> target_rec \<Rightarrow> json \<Rightarrow> string \<Rightarrow> int \<Rightarrow> (json option) res" where
  "publish_check parse st t job backend now =
     bindE (jstr_at ''id'' job) (\<lambda>jid.
     bindE (jstr_at ''revision'' job) (\<lambda>revision.
       case find (\<lambda>r. j_id r = jid \<and> j_project r = tr_project t \<and> j_target r = tr_id t \<and> j_revision r = revision)
              (jobs st) of
         None \<Rightarrow> throw ''job publication identity mismatch''
       | Some row \<Rightarrow>
           bindE (parse (j_request row)) (\<lambda>stored.
           bindE (jat ''request'' job) (\<lambda>request.
             if \<not> jeq stored request then throw ''job publication identity mismatch''
             else
           bindE (jstr_at ''backend'' request) (\<lambda>b.
           throw_if (b \<noteq> backend) ''job publication identity mismatch'' (
           bindE (jat ''artifact_sha256'' request) (\<lambda>sha.
           throw_if (\<not> jeq sha (JStr (tr_sha t))) ''job publication identity mismatch'' (
             if j_result row \<noteq> [] then bindE (parse (j_result row)) (\<lambda>v. Inr (Some v))
             else if j_status row \<noteq> ''queued'' \<and> j_status row \<noteq> ''running''
             then throw ''cannot publish into terminal job''
             else case find (\<lambda>l. l_job l = jid) (leases st) of
                    None \<Rightarrow> Inr None
                  | Some l \<Rightarrow>
                      bindE (jvalue_str ''lease_token'' [] job) (\<lambda>token.
                        if l_token l \<noteq> token \<or> l_deadline l < now
                        then throw ''publication requires live owned lease'' else Inr None)))))))))"

definition finish_job :: "string \<Rightarrow> string \<Rightarrow> string \<Rightarrow> string \<Rightarrow> string \<Rightarrow> string \<Rightarrow> string \<Rightarrow> store \<Rightarrow> store" where
  "finish_job jid project status finished result detail at' st =
     (let st1 = set_jobs (\<lambda>r. j_id r = jid \<and> j_project r = project)
            (\<lambda>r. r\<lparr>j_status := status, j_finished := finished, j_result := result\<rparr>) st;
          st2 = log_event jid status at' detail st1
      in st2\<lparr>leases := filter (\<lambda>l. l_job l \<noteq> jid) (leases st2)\<rparr>)"

definition publish_rows ::
  "(string \<Rightarrow> json res) \<Rightarrow> (string \<Rightarrow> json option) \<Rightarrow> (store \<Rightarrow> json \<Rightarrow> json res) \<Rightarrow>
   store \<Rightarrow> target_rec \<Rightarrow> json \<Rightarrow> string \<Rightarrow> command_result \<Rightarrow> string \<Rightarrow> string list \<Rightarrow> string \<Rightarrow>
   (json \<times> store) res" where
  "publish_rows parse other persist st t job backend result ev fids at' =
     bindE (parse (r_json result)) (\<lambda>native.
     bindE (publish_blob (objects st) (r_json result)) (\<lambda>(raw, fs).
     bindE (jstr_at ''revision'' job) (\<lambda>revision.
     bindE (jstr_at ''id'' job) (\<lambda>jid.
     bindE (jat ''request'' job) (\<lambda>request.
       let envelope = envelope_json t ev revision jid backend result raw native;
           evidence0 = evidence_json t ev revision jid backend result raw request at'
       in
     bindE (derivations parse st (tr_project t) (tr_sha t)) (\<lambda>lineage.
       let evidence = (if lineage = [] then evidence0 else jput ''artifact_derivations'' (JArr lineage) evidence0) in
     bindE (validate_contract other ''evidence'' evidence) (\<lambda>_.
     bindE (validate_contract other ''result'' envelope) (\<lambda>_.
     bindE (dump evidence) (\<lambda>etext.
       if list_ex (\<lambda>r. v_id r = ev) (evidence_rows st) then constraint
       else
         let st1 = st\<lparr>objects := fs, evidence_rows := evidence_rows st @ [\<lparr>v_id = ev, v_project = tr_project t,
               v_job = jid, v_revision = revision, v_backend = backend, v_sha = raw, v_status = r_status result,
               v_record = etext, v_created = at'\<rparr>]\<rparr>
         in
     bindE (persist st1 native) (\<lambda>index.
       let envelope = jput ''index'' index envelope; found = collect_functions 0 native in
     bindE (foldE (publish_function t backend ev) (zip fids found) st1) (\<lambda>st2.
     bindE (dump envelope) (\<lambda>text.
       Inr (envelope, finish_job jid (tr_project t) (r_status result) at' text
              (''{'' @ quoted ''evidence_id'' @ '':'' @ quoted ev @ ''}'') at' st2)))))))))))))"

text \<open>
  \<open>fids\<close> are the identifiers drawn for the discovered functions, one for each.
\<close>

definition publish_result ::
  "(string \<Rightarrow> json res) \<Rightarrow> (string \<Rightarrow> json option) \<Rightarrow> (store \<Rightarrow> json \<Rightarrow> json res) \<Rightarrow>
   store \<Rightarrow> target_rec \<Rightarrow> json \<Rightarrow> string \<Rightarrow> command_result \<Rightarrow> string \<Rightarrow> string list \<Rightarrow> int \<Rightarrow> string \<Rightarrow>
   (json \<times> store) res" where
  "publish_result parse other persist st t job backend result ev fids now at' =
     bindE (publish_check parse st t job backend now) (\<lambda>prior.
       case prior of
         Some v \<Rightarrow> Inr (v, st)
       | None \<Rightarrow> publish_rows parse other persist st t job backend result ev fids at')"

section \<open>Reads\<close>

definition clamp_limit :: "nat \<Rightarrow> nat" where
  "clamp_limit n = max 1 (min n 1000)"

text \<open>
  The page loop of the list queries: \<^verbatim>\<open>LIMIT limit+1 OFFSET offset\<close>, where the row after
  the page only says that there is more.
\<close>

definition page_rows :: "nat \<Rightarrow> nat \<Rightarrow> 'a list \<Rightarrow> 'a list \<times> bool" where
  "page_rows offset limit rows =
     (let got = take (Suc limit) (drop offset rows) in (take limit got, length got > limit))"

definition next_offset :: "nat \<Rightarrow> nat \<Rightarrow> bool \<Rightarrow> json" where
  "next_offset offset limit again = (if again then jnat (offset + limit) else JNull)"

definition evidence_item :: "(string \<Rightarrow> json res) \<Rightarrow> store \<Rightarrow> bool \<Rightarrow> evidence_row \<Rightarrow> json res" where
  "evidence_item parse st single r =
     bindE (parse (v_record r)) (\<lambda>row.
       if \<not> single then Inr row
       else bindE (object_path (v_sha r)) (\<lambda>path.
         bindE (sha256_file [] (objects st path)) (\<lambda>h.
           throw_if (h \<noteq> v_sha r) ''evidence integrity failure''
           (case objects st path of
              None \<Rightarrow> throw ''cannot open object''
            | Some text \<Rightarrow> bindE (parse text) (\<lambda>native. jset ''native_result'' native row)))))"

definition evidence_list ::
  "(string \<Rightarrow> json res) \<Rightarrow> store \<Rightarrow> string \<Rightarrow> string \<Rightarrow> nat \<Rightarrow> nat \<Rightarrow> json res" where
  "evidence_list parse st project ev offset limit0 =
     bindE (require_project st project) (\<lambda>_.
       let limit = clamp_limit limit0;
           page = page_rows offset limit (filter (\<lambda>r. v_project r = project \<and> matching ev (v_id r)) (evidence_rows st))
       in bindE (mapE (evidence_item parse st (ev \<noteq> [])) (fst page)) (\<lambda>rows.
            if ev \<noteq> [] \<and> rows = [] then throw ''unknown evidence''
            else Inr (jobj [(''schema'', JStr ''indago.evidence-list.v1''), (''evidence'', JArr rows),
                   (''next_offset'', next_offset offset limit (snd page))])))"

definition functions_list :: "store \<Rightarrow> string \<Rightarrow> string \<Rightarrow> nat \<Rightarrow> nat \<Rightarrow> json res" where
  "functions_list st project artifact offset limit0 =
     bindE (require_project st project) (\<lambda>_.
       let limit = clamp_limit limit0;
           rows = sort_key (\<lambda>r. (length (f_address r), f_address r))
                    (filter (\<lambda>r. f_project r = project \<and> matching artifact (f_artifact r)) (function_rows st));
           page = page_rows offset limit rows
       in Inr (jobj [(''schema'', JStr ''indago.functions.v1''),
            (''functions'', JArr (map (\<lambda>r. jobj [(''id'', JStr (f_id r)), (''artifact_sha256'', JStr (f_artifact r)),
               (''address'', JStr (f_address r))]) (fst page))),
            (''next_offset'', next_offset offset limit (snd page))]))"

definition view_limit :: nat where "view_limit = 2 * 1024 * 1024"

text \<open>The loop over the views of one function, with its byte budget.\<close>

fun take_views ::
  "(string \<Rightarrow> json res) \<Rightarrow> nat \<Rightarrow> nat \<Rightarrow> (string \<times> string \<times> json) list \<Rightarrow> view_row list \<Rightarrow>
   ((string \<times> string \<times> json) list \<times> bool) res" where
  "take_views parse limit bytes acc [] = Inr (acc, False)"
| "take_views parse limit bytes acc (w # ws) =
     (if length acc = limit \<or> (acc \<noteq> [] \<and> bytes + length (w_record w) * 2 > view_limit) then Inr (acc, True)
      else bindE (parse (w_record w)) (\<lambda>native.
        take_views parse limit (bytes + length (w_record w) * 2) (acc @ [(w_backend w, w_evidence w, native)]) ws))"

definition function_views ::
  "(string \<Rightarrow> json res) \<Rightarrow> store \<Rightarrow> string \<Rightarrow> string \<Rightarrow> nat \<Rightarrow> nat \<Rightarrow> json res" where
  "function_views parse st project fid offset limit0 =
     bindE (require_project st project) (\<lambda>_.
       case find (\<lambda>r. f_project r = project \<and> f_id r = fid) (function_rows st) of
         None \<Rightarrow> throw ''unknown function''
       | Some f \<Rightarrow>
           let limit = clamp_limit limit0;
               rows = take (Suc limit) (drop offset (filter (\<lambda>w. w_function w = fid) (view_rows st)))
           in bindE (take_views parse limit 0 [] rows) (\<lambda>(views, again).
             Inr (jobj [(''schema'', JStr ''indago.function-views.v1''), (''id'', JStr fid),
               (''location'', jobj [(''artifact_sha256'', JStr (f_artifact f)), (''address_space'', JStr ''program''),
                  (''address'', JStr (f_address f))]),
               (''views'', JArr (map (\<lambda>(b, e, n). jobj [(''backend'', JStr b), (''evidence_id'', JStr e), (''native'', n)])
                  views)),
               (''claims'', JArr (map (\<lambda>(b, e, n). jobj [(''producer'', JStr b), (''evidence_id'', JStr e),
                  (''subject'', JStr fid), (''predicate'', JStr ''backend_function_view''), (''value'', n),
                  (''authority'', JStr ''backend-native; not adjudicated'')]) views)),
               (''next_offset'', next_offset offset (length views) again)])))"

section \<open>Contracts of a publication\<close>

text \<open>The record and the envelope of a publication satisfy their contracts when its identifiers are well formed.\<close>

definition well_named :: "string \<Rightarrow> string \<Rightarrow> string \<Rightarrow> bool" where
  "well_named ev revision jid = (regex_search ''^ev_'' ev \<and> regex_search ''^rev_'' revision \<and> regex_search ''^job_'' jid)"

lemma evidence_accepted:
  assumes "well_named ev revision jid" and "backend \<noteq> []" and "length (tr_sha t) = 64" "only_of hex_digits (tr_sha t)"
    and "length raw = 64" "only_of hex_digits raw" and "is_object request"
  shows "validate_contract other ''evidence'' (evidence_json t ev revision jid backend result raw request at') = Inr ()"
proof -
  have hashes: "regex_search sha_pattern (tr_sha t)" "regex_search sha_pattern raw"
    using assms(3-6) by (simp_all add: regex_search_sha)
  have producer: "validate (jobj [(''type'', JStr ''string''), (''minLength'', JUInt 1)]) (JStr backend) path = Inr ()" for path
    using assms(2) by (subst validate.simps)
      (simp add: check_type_def check_if_def check_text_def has_type_def json_simps fail_if_def is_number_def Suc_le_eq)
  have "validate evidence_schema (evidence_json t ev revision jid backend result raw request at') ''evidence'' = Inr ()"
    unfolding evidence_json_def
    by (rule validate_jobj[where props = evidence_properties and ks = "[''schema'', ''id'', ''project'', ''revision'', ''job_id'', ''state'',
          ''producer'', ''status'', ''artifact_sha256'', ''raw_sha256'', ''request'', ''created_at'']"])
      (use assms(1,7) hashes in \<open>simp_all add: evidence_schema_def json_simps evidence_properties_def well_named_def
        validate_text_like validate_const_of validate_text validate_any_object validate_enum_in producer\<close>)
  then show ?thesis by (simp add: validate_contract_def contract_schema_def)
qed


lemma envelope_accepted:
  assumes "well_named ev revision jid" and "length (tr_sha t) = 64" "only_of hex_digits (tr_sha t)"
    and "length raw = 64" "only_of hex_digits raw" and "is_object native" and "r_status result \<in> set result_statuses"
    and "backend \<in> {''airece'', ''xair'', ''sym'', ''ghidra'', ''ilspy'', ''capa'', ''floss'', ''lief'', ''wireshark'', ''runtime''}"
  shows "validate_contract other ''result'' (envelope_json t ev revision jid backend result raw native) = Inr ()"
proof -
  have hashes: "regex_search sha_pattern (tr_sha t)" "regex_search sha_pattern raw"
    using assms(2-5) by (simp_all add: regex_search_sha)
  have ev: "regex_search ''^ev_'' ev" using assms(1) by (simp add: well_named_def)
  have ids: "validate (jobj [(''type'', JStr ''array''), (''minItems'', JUInt 1), (''items'', text_like ''^ev_'')])
      (JArr [JStr ev]) path = Inr ()" for path
    by (rule validate_array) (simp add: json_simps validate_text_like[OF ev])+
  have none: "validate (jobj [(''type'', JStr ''array''), (''items'', of_type ''string'')]) (JArr []) path = Inr ()" for path
    by (rule validate_array) (simp add: json_simps)+
  have complete: "validate (enum_of [''complete'', ''partial'', ''unknown'']) (JStr (completeness_of (r_status result))) path = Inr ()" for path
    by (rule validate_enum_in) (simp add: completeness_of_def)
  have engine: "validate (enum_of [''airece'', ''xair'', ''sym'', ''ghidra'', ''ilspy'', ''capa'', ''floss'', ''lief'',
        ''wireshark'', ''runtime'']) (JStr backend) path = Inr ()" for path
    using assms(8) by (intro validate_enum_in) simp
  have "validate result_schema (envelope_json t ev revision jid backend result raw native) ''result'' = Inr ()"
    unfolding envelope_json_def
    by (rule validate_jobj[where props = result_properties and ks = "[''schema'', ''request_id'', ''status'', ''result_revision'',
          ''completeness'', ''backend'', ''artifact_sha256'', ''evidence_ids'', ''raw_sha256'', ''diagnostics'']"])
      (use assms(1,6) hashes in \<open>simp_all add: result_schema_def json_simps result_properties_def well_named_def
        validate_text_like validate_const_of validate_any_object validate_enum_in[OF assms(7)] ids none complete engine\<close>)
  then show ?thesis by (simp add: validate_contract_def contract_schema_def)
qed

end
