(* ===== verification/Ind_Weight.thy ===== *)
theory Ind_Weight
  imports Ind_Workbench
begin

text \<open>
  An upper bound on the length of a serialized value, which the byte limits of the program are
  checked against: \<open>json_weight\<close> adds up the longest encodings of the parts.
\<close>

fun json_weight :: "json \<Rightarrow> nat" where
  "json_weight (JStr s) = 6 * length s + 2"
| "json_weight (JFloat _ t) = length t"
| "json_weight (JArr xs) = 2 + sum_list (map (\<lambda>x. Suc (json_weight x)) xs)"
| "json_weight (JObj m) = 2 + sum_list (map (\<lambda>(k, v). 6 * length k + 4 + json_weight v) m)"
| "json_weight (JInt _) = 21"
| "json_weight (JUInt _) = 21"
| "json_weight _ = 5"

lemma length_digits_of: "2 \<le> b \<Longrightarrow> n < b ^ Suc k \<Longrightarrow> length (digits_of b n) \<le> Suc k"
proof (induction k arbitrary: n)
  case 0
  then show ?case by (simp add: digits_of.simps[of b n])
next
  case (Suc k)
  then have "n div b < b ^ Suc k" by (simp add: less_mult_imp_div_less mult.commute)
  then show ?case using Suc by (subst digits_of.simps) simp
qed

lemma length_to_string: "n < 10 ^ 20 \<Longrightarrow> length (to_string n) \<le> 20"
  unfolding to_string_def using length_digits_of[of 10 n 19] by simp

lemma unat_u64: "unat (w :: u64) < 10 ^ 20"
  using unsigned_less[of w, where ?'a = nat] by simp

lemma length_to_string_int: "length (to_string_int (sint (w :: u64))) \<le> 21"
proof -
  have "sint w < 2 ^ 63" "- (2 ^ 63) \<le> sint w" using sint_lt[of w] sint_ge[of w] by simp_all
  then have "nat (sint w) < 10 ^ 20" "nat (- sint w) < 10 ^ 20" by (simp_all add: nat_less_iff)
  then show ?thesis using length_to_string[of "nat (sint w)"] length_to_string[of "nat (- sint w)"]
    by (simp add: to_string_int_def)
qed

lemma length_quoted: "length (quoted s) \<le> 6 * length s + 2"
proof -
  have "length (escape_char c) \<le> 6" for c
    by (simp add: escape_char_def hex_byte_def)
  then have "length (concat (map escape_char s)) \<le> 6 * length s"
    by (induction s) (simp_all add: add_mono)
  then show ?thesis by (simp add: quoted_def)
qed

lemma length_join: "length (join '','' ts) \<le> sum_list (map (\<lambda>t. Suc (length t)) ts)"
  by (induction "'',''" ts rule: join.induct) simp_all

lemma length_dump_text: "length (dump_text j) \<le> json_weight j"
proof (induction j)
  case (JArr xs)
  have "sum_list (map (\<lambda>t. Suc (length t)) (map dump_text xs)) \<le> sum_list (map (\<lambda>x. Suc (json_weight x)) xs)"
    using JArr.IH by (simp add: comp_def sum_list_mono)
  then show ?case using length_join[of "map dump_text xs"] by simp
next
  case (JObj m)
  let ?ts = "map (\<lambda>(k, v). quoted k @ '':'' @ dump_text v) m"
  have "sum_list (map (\<lambda>t. Suc (length t)) ?ts) \<le> sum_list (map (\<lambda>(k, v). 6 * length k + 4 + json_weight v) m)"
    unfolding map_map comp_def
  proof (intro sum_list_mono)
    fix kv assume kv: "kv \<in> set m"
    obtain k v where "kv = (k, v)" by (cases kv)
    with kv JObj.IH[of kv v] length_quoted[of k]
    show "Suc (length (case kv of (k, v) \<Rightarrow> quoted k @ '':'' @ dump_text v)) \<le> (case kv of (k, v) \<Rightarrow> 6 * length k + 4 + json_weight v)"
      by (simp add: Basic_BNFs.snds.simps)
  qed
  then show ?case using length_join[of ?ts] by simp
next
  case (JUInt w)
  then show ?case using length_to_string[OF unat_u64, of w] by simp
qed (use length_quoted length_to_string_int in auto)

lemma weight_smap_put:
  "sum_list (map (\<lambda>(k, v). 6 * length k + 4 + json_weight v) (smap_put k v m)) \<le>
     6 * length k + 4 + json_weight v + sum_list (map (\<lambda>(k, v). 6 * length k + 4 + json_weight v) m)"
  by (induction k v m rule: smap_put.induct) auto

lemma weight_jput: "is_object j \<Longrightarrow> json_weight (jput k v j) \<le> 6 * length k + 4 + json_weight v + json_weight j"
  using weight_smap_put[of k v "entries j"] by (cases j) (simp_all add: jput_def entries_def)

lemma weight_jput_le:
  "is_object j \<Longrightarrow> json_weight j \<le> n \<Longrightarrow> json_weight (jput k v j) \<le> 6 * length k + 4 + json_weight v + n"
  using weight_jput[of j k v] by linarith

lemma weight_jobj: "json_weight (jobj kvs) \<le> 2 + sum_list (map (\<lambda>(k, v). 6 * length k + 4 + json_weight v) kvs)"
proof -
  let ?w = "\<lambda>m. sum_list (map (\<lambda>(k, v). 6 * length k + 4 + json_weight v) m)"
  have "?w (fold (\<lambda>(k, v). smap_emplace k v) kvs m) \<le> ?w m + ?w kvs" for m
  proof (induction kvs arbitrary: m)
    case (Cons kv kvs)
    obtain k v where kv: "kv = (k, v)" by (cases kv)
    have "?w (smap_emplace k v m) \<le> ?w m + (6 * length k + 4 + json_weight v)"
      using weight_smap_put[of k v m] by (auto simp: smap_emplace_def split: option.split)
    with Cons.IH[of "smap_emplace k v m"] show ?case by (simp add: kv)
  qed simp
  from this[of "[]"] show ?thesis by (simp add: jobj_def)
qed

lemma weight_smap_put_new:
  "k \<notin> fst ` set m \<Longrightarrow> sum_list (map (\<lambda>(k, v). 6 * length k + 4 + json_weight v) (smap_put k v m)) =
     6 * length k + 4 + json_weight v + sum_list (map (\<lambda>(k, v). 6 * length k + 4 + json_weight v) m)"
  by (induction k v m rule: smap_put.induct) auto

text \<open>Exact on a braced list with distinct keys, so that the simplifier computes it.\<close>

lemma weight_jobj_distinct [json_simps]:
  assumes "distinct (map fst kvs)"
  shows "json_weight (jobj kvs) = 2 + sum_list (map (\<lambda>(k, v). 6 * length k + 4 + json_weight v) kvs)"
proof -
  let ?w = "\<lambda>m. sum_list (map (\<lambda>(k, v). 6 * length k + 4 + json_weight v) m)"
  have "?w (fold (\<lambda>(k, v). smap_emplace k v) kvs m) = ?w m + ?w kvs"
    if "distinct (map fst kvs)" "fst ` set kvs \<inter> fst ` set m = {}" for m
    using that
  proof (induction kvs arbitrary: m)
    case (Cons kv kvs)
    obtain k v where kv: "kv = (k, v)" by (cases kv)
    then have new: "k \<notin> fst ` set m" using Cons.prems by auto
    then have e: "smap_emplace k v m = smap_put k v m"
      by (simp add: smap_emplace_def map_of_eq_None_iff[THEN iffD2])
    have "fst ` set (smap_put k v m) = insert k (fst ` set m)" using keys_smap_put[of k v m] by simp
    then have "?w (fold (\<lambda>(k, v). smap_emplace k v) kvs (smap_put k v m)) = ?w (smap_put k v m) + ?w kvs"
      by (intro Cons.IH) (use Cons.prems kv in auto)
    then show ?case using weight_smap_put_new[OF new, of v] by (simp add: kv e)
  qed simp
  from this[of "[]"] assms show ?thesis by (simp add: jobj_def)
qed

lemma dump_size_le: "dumpable j \<Longrightarrow> json_weight j \<le> n \<Longrightarrow> \<exists>k. dump_size j = Inr k \<and> k \<le> n"
  using length_dump_text[of j] by (auto simp: dump_size_def dump_def)

end
