(* ===== verification/Ind_Service.thy ===== *)
theory Ind_Service
  imports Ind_Publish Ind_Artifact Ind_Weight
begin

text \<open>
  The static analysis service (\<^verbatim>\<open>src/service.cpp\<close>): an action is normalized - every field the
  backends rely on is checked or filled in - then submitted as a job, claimed, run and published.
  The backends themselves and the processes they start are the argument \<open>run\<close> of
  \<open>execute\<close>.
\<close>

section \<open>Actions\<close>

definition result_exit_code :: "string \<Rightarrow> nat" where
  "result_exit_code status =
     (if status = ''completed'' \<or> status = ''complete'' then 0
      else if status = ''partial'' then 3
      else if status = ''cancelled'' \<or> status = ''canceled'' then 130
      else if status = ''invalid_request'' \<or> status = ''not_found'' then 2
      else 1)"

definition backend_operations :: "(string \<times> string list) list" where
  "backend_operations =
     [(''airece'', [''inspect'', ''functions'', ''function'', ''calls'', ''xrefs'', ''slice'', ''path'', ''flow'',
         ''taint'', ''evidence'']),
      (''xair'', [''inventory'', ''cfg'', ''semantic'']),
      (''ilspy'', [''inventory'', ''types'', ''methods'', ''decompile'', ''assembly'', ''references'', ''member_refs'',
         ''resources'', ''trace'', ''artifact'']),
      (''capa'', [''capabilities'']), (''floss'', [''strings'']),
      (''lief'', [''inventory'', ''sections'', ''resources'', ''notes'', ''libraries'']),
      (''wireshark'', [''packets'']),
      (''sym'', [''solve_branch'', ''source_to_sink'', ''symbolic_slice'', ''taint'', ''path_condition'']),
      (''ghidra'', [''import'', ''inspect'', ''functions'', ''decompile'', ''tokens'', ''assembly'', ''xrefs'', ''calls'',
         ''strings'', ''imports'', ''exports'', ''types'', ''variables'', ''cfg'', ''pcode'', ''control_flow'', ''analyze'',
         ''session'', ''flush'', ''close'', ''annotate'', ''annotations''])]"

definition address_operations :: "string list" where
  "address_operations = [''decompile'', ''tokens'', ''xrefs'', ''calls'', ''variables'', ''cfg'', ''pcode'',
     ''control_flow'', ''annotate'']"

definition action_head :: "(string \<Rightarrow> json option) \<Rightarrow> json \<Rightarrow> (string \<times> string) res" where
  "action_head other r =
     bindE (dump_size r) (\<lambda>n. throw_if (n > 1024 * 1024) ''action exceeds 1 MiB limit'' (
     bindE (validate_contract other ''action'' r) (\<lambda>_. throw_if (\<not> is_object r) ''request must be a JSON object'' (
     bindE (jvalue_str ''schema'' ''indago.action.v1'' r) (\<lambda>schema.
     throw_if (schema \<noteq> ''indago.action.v1'') ''unsupported action schema'' (
     bindE (jstr_at ''backend'' r) (\<lambda>backend.
     throw_if (backend \<notin> set (map fst backend_operations)) ''unknown backend'' (
     bindE (jstr_at ''operation'' r) (\<lambda>operation. throw_if (operation = []) ''operation cannot be empty'' (
       case map_of backend_operations backend of
         None \<Rightarrow> Inl Std_Out_Of_Range
       | Some known \<Rightarrow> throw_if (operation \<notin> set known) ''unsupported backend operation''
           (Inr (backend, operation))))))))))))"

definition hex_letters :: string where "hex_letters = ''0123456789abcdefABCDEF''"

definition needs_address :: "string \<Rightarrow> string \<Rightarrow> bool" where
  "needs_address backend operation = (backend = ''ghidra'' \<and> operation \<in> set address_operations)"

definition check_address :: "string \<Rightarrow> string \<Rightarrow> string \<Rightarrow> unit res" where
  "check_address backend operation addr =
     (if needs_address backend operation \<and> addr = [] then throw ''operation requires a function address''
      else if addr \<noteq> [] \<and> \<not> (backend = ''airece'' \<and> operation = ''evidence'') \<and>
        (\<not> starts_with addr ''0x'' \<or> length addr < 3 \<or> length addr > 18 \<or> \<not> only_of hex_letters (drop 2 addr))
      then throw ''address requires a 64-bit hexadecimal value''
      else Inr ())"

text \<open>The defaults and the limits of one action.\<close>

definition budget_limits :: "(string \<times> nat \<times> nat \<times> nat) list" where
  "budget_limits = [(''wall_ms'', 120000, 1, 3600000), (''output_bytes'', 2097152, 4096, 67108864),
     (''memory_bytes'', 2147483648, 1048576, 2147483648), (''max_items'', 2048, 1, 100000)]"

definition int_within :: "int \<Rightarrow> int \<Rightarrow> json \<Rightarrow> bool res" where
  "int_within lo hi v = (if \<not> is_number_integer v then Inr False
     else bindE (ji64 v) (\<lambda>i. Inr (lo \<le> i \<and> i \<le> hi)))"

definition set_budget :: "string \<times> nat \<times> nat \<times> nat \<Rightarrow> json \<Rightarrow> json res" where
  "set_budget = (\<lambda>(key, def, lo, hi) budget.
     let budget = (if contains budget key then budget else jput key (jnat def) budget) in
     bindE (jat key budget) (\<lambda>v. throw_if (\<not> is_number_integer v) (''invalid budget '' @ key) (
     bindE (int_within (int lo) (int hi) v) (\<lambda>ok. throw_if (\<not> ok) (''out-of-range budget '' @ key) (Inr budget)))))"

section \<open>Arguments of the backends\<close>

definition only_keys :: "string list \<Rightarrow> json \<Rightarrow> string \<Rightarrow> unit res" where
  "only_keys allowed args msg =
     (if list_all (\<lambda>(k, v). k \<in> set allowed) (entries args) then Inr () else throw msg)"

definition check_int :: "int \<Rightarrow> int \<Rightarrow> json \<Rightarrow> string \<Rightarrow> unit res" where
  "check_int lo hi v msg = bindE (int_within lo hi v) (\<lambda>ok. throw_if (\<not> ok) msg (Inr ()))"

definition check_capa :: "string \<Rightarrow> json \<Rightarrow> unit res" where
  "check_capa addr args =
     bindE (only_keys [''format''] args ''Unknown capa argument'') (\<lambda>_.
     bindE (if contains args ''format''
            then bindE (jat ''format'' args) (\<lambda>f. throw_if (f \<notin> {JStr ''pe'', JStr ''elf'', JStr ''dotnet''})
                   ''capa format must be pe, elf or dotnet'' (Inr ()))
            else Inr ()) (\<lambda>_.
     bindE (if addr = [] then Inr [] else jvalue_str ''format'' [] args) (\<lambda>f.
       throw_if (f = ''dotnet'') ''capa function restriction is currently native-address only'' (Inr ()))))"

definition check_floss :: "string \<Rightarrow> json \<Rightarrow> unit res" where
  "check_floss addr args =
     bindE (only_keys [''mode'', ''minimum_length''] args ''Unknown FLOSS argument'') (\<lambda>_.
     bindE (jvalue ''mode'' (JStr ''static'') args) (\<lambda>mode.
     throw_if (mode \<notin> {JStr ''static'', JStr ''stack'', JStr ''tight'', JStr ''decoded'', JStr ''all''})
       ''Invalid FLOSS mode'' (
     bindE (jvalue ''minimum_length'' (jint 4) args) (\<lambda>least.
     bindE (check_int 4 256 least ''FLOSS minimum_length must be 4..256'') (\<lambda>_.
     bindE (if addr = [] then Inr [] else jvalue_str ''mode'' ''static'' args) (\<lambda>m.
       throw_if (m = ''static'') ''FLOSS function restriction does not apply to static strings'' (Inr ())))))))"

definition check_wireshark :: "string \<Rightarrow> json \<Rightarrow> unit res" where
  "check_wireshark addr args =
     bindE (only_keys [''offset''] args ''Unknown offline packet argument'') (\<lambda>_.
     bindE (jvalue ''offset'' (jint 0) args) (\<lambda>offset.
     bindE (check_int 0 4096 offset ''Offline packet offset must be 0..4096'') (\<lambda>_.
       throw_if (addr \<noteq> []) ''Offline packet query does not accept a program address'' (Inr ()))))"

definition check_lief :: "string \<Rightarrow> string \<Rightarrow> json \<Rightarrow> unit res" where
  "check_lief operation addr args =
     bindE (only_keys [''offset''] args ''Unknown LIEF argument'') (\<lambda>_.
     bindE (jvalue ''offset'' (jint 0) args) (\<lambda>offset.
     bindE (check_int 0 65536 offset ''LIEF offset must be 0..65536'') (\<lambda>_.
     throw_if (addr \<noteq> []) ''LIEF metadata operations do not accept a function address'' (
     throw_if (operation = ''inventory'' \<and> \<not> jeq offset (jint 0)) ''LIEF inventory does not accept a nonzero offset''
       (Inr ())))))"

text \<open>
  The managed dependencies: at most eight distinct targets of the project.  The running total is
  exact as a number, as at most eight sizes of 16 MiB are added before it is compared.
\<close>

definition add_managed :: "store \<Rightarrow> string \<Rightarrow> json \<Rightarrow> string list \<times> nat \<Rightarrow> (string list \<times> nat) res" where
  "add_managed st project dep = (\<lambda>(names, total).
     case dep of
       JStr name \<Rightarrow>
         throw_if (name \<in> set names) ''Invalid or duplicate managed dependency'' (
         bindE (target st project name True) (\<lambda>t.
           throw_if (tr_size t > 16777216 \<or> total + tr_size t > 33554432) ''Managed dependency byte limit''
             (Inr (sset_insert name names, total + tr_size t))))
     | _ \<Rightarrow> throw ''Invalid or duplicate managed dependency'')"

definition check_entry :: "string \<Rightarrow> json \<Rightarrow> unit res" where
  "check_entry operation args =
     (if contains args ''entry''
      then bindE (jat ''entry'' args) (\<lambda>v. throw_if (operation \<noteq> ''artifact'' \<or>
             \<not> (case v of JStr s \<Rightarrow> length s \<le> 1024 | _ \<Rightarrow> False)) ''Invalid artifact member selection'' (Inr ()))
      else Inr ())"

definition check_pdb :: "store \<Rightarrow> string \<Rightarrow> json \<Rightarrow> unit res" where
  "check_pdb st project args =
     (if contains args ''pdb''
      then bindE (jstr_at ''pdb'' args) (\<lambda>name. bindE (target st project name True) (\<lambda>t.
             throw_if (tr_size t > 16777216) ''PDB size bound'' (Inr ())))
      else Inr ())"

definition check_ilspy :: "store \<Rightarrow> string \<Rightarrow> string \<Rightarrow> string \<Rightarrow> json \<Rightarrow> unit res" where
  "check_ilspy st project operation addr args =
     bindE (only_keys [''offset'', ''dependencies'', ''pdb'', ''entry''] args ''Unknown ILSpy argument'') (\<lambda>_.
     bindE (check_entry operation args) (\<lambda>_.
     bindE (check_pdb st project args) (\<lambda>_.
     bindE (jvalue ''dependencies'' (JArr []) args) (\<lambda>deps.
     throw_if (\<not> is_array deps \<or> jsize deps > 8) ''At most eight imported managed dependencies'' (
     bindE (foldE (add_managed st project) (jrange deps) ([], 0)) (\<lambda>_.
     bindE (jvalue ''offset'' (jint 0) args) (\<lambda>offset.
     bindE (check_int 0 1000000 offset ''Invalid ILSpy offset'') (\<lambda>_.
       let method = (operation = ''decompile'' \<or> operation = ''assembly'') in
     throw_if (method \<and> (length addr \<noteq> 10 \<or> \<not> starts_with addr ''0x06''))
       ''ILSpy method operation requires a MethodDef metadata token (0x06xxxxxx), not a native address'' (
     throw_if (\<not> method \<and> addr \<noteq> []) ''ILSpy address only applies to a method operation'' (Inr ()))))))))))"

definition ghidra_keys :: "string list" where
  "ghidra_keys = [''cursor'', ''collection'', ''search'', ''profile'', ''expected_revision'', ''annotation'', ''scan_limit'']"

definition check_ghidra :: "json \<Rightarrow> unit res" where
  "check_ghidra args =
     (case find (\<lambda>(k, v). k \<notin> set ghidra_keys) (entries args) of
        Some (k, v) \<Rightarrow> throw (''unknown Ghidra argument: '' @ k)
      | None \<Rightarrow> bindE (dump_size args) (\<lambda>n. throw_if (n > 32768) ''Ghidra arguments exceed 32KiB'' (Inr ())))"

definition selector :: "json \<Rightarrow> string \<Rightarrow> bool" where
  "selector args key = (case jat key args of
      Inr (JStr s) \<Rightarrow> s \<noteq> [] | Inr (JArr xs) \<Rightarrow> xs \<noteq> [] | _ \<Rightarrow> False)"

definition check_flow :: "json \<Rightarrow> unit res" where
  "check_flow args = throw_if (\<not> selector args ''source'' \<or> \<not> selector args ''target'')
     (''AIRECE flow requires arguments.source and arguments.target selectors, e.g. funcarg(0)@0xFUNCTION '' @
      ''and reach@0xADDRESS; an address alone is insufficient'') (Inr ())"

definition check_xair :: "json \<Rightarrow> unit res" where
  "check_xair args =
     bindE (only_keys [''profile''] args ''unknown XAIR argument'') (\<lambda>_.
       if contains args ''profile''
       then bindE (jat ''profile'' args) (\<lambda>p.
              throw_if (p \<notin> {JStr ''fast'', JStr ''balanced'', JStr ''exhaustive''}) ''invalid XAIR profile'' (Inr ()))
       else Inr ())"

definition check_arguments :: "store \<Rightarrow> string \<Rightarrow> string \<Rightarrow> string \<Rightarrow> string \<Rightarrow> json \<Rightarrow> unit res" where
  "check_arguments st project backend operation addr args =
     (if backend = ''capa'' then check_capa addr args
      else if backend = ''floss'' then check_floss addr args
      else if backend = ''wireshark'' then check_wireshark addr args
      else if backend = ''lief'' then check_lief operation addr args
      else if backend = ''ilspy'' then check_ilspy st project operation addr args
      else if backend = ''ghidra'' then check_ghidra args
      else if backend = ''airece'' \<and> operation = ''flow'' then check_flow args
      else if backend = ''xair'' then check_xair args
      else Inr ())"

section \<open>Normalization, submission\<close>

definition with_budget :: "json \<Rightarrow> json res" where
  "with_budget r =
     bindE (jat ''budget'' (if contains r ''budget'' then r else jput ''budget'' (JObj []) r)) (\<lambda>budget.
     throw_if (\<not> is_object budget) ''budget must be an object'' (
     bindE (foldE set_budget budget_limits budget) (\<lambda>budget. Inr (jput ''budget'' budget r))))"

definition pin_target :: "target_rec \<Rightarrow> json \<Rightarrow> json res" where
  "pin_target t r =
     bindE (if contains r ''artifact_sha256''
            then bindE (jat ''artifact_sha256'' r) (\<lambda>v. throw_if (\<not> jeq v (JStr (tr_sha t))) ''stale artifact identity'' (Inr ()))
            else Inr ()) (\<lambda>_.
     Inr (jput ''artifact_sha256'' (JStr (tr_sha t)) (jput ''target_id'' (JStr (tr_id t))
           (jput ''schema'' (JStr ''indago.action.v1'') r))))"

definition normalize :: "(string \<Rightarrow> json option) \<Rightarrow> store \<Rightarrow> json \<Rightarrow> json res" where
  "normalize other st r =
     bindE (action_head other r) (\<lambda>(backend, operation).
     bindE (jvalue_str ''address'' [] r) (\<lambda>addr.
     bindE (jvalue_str ''view'' ''compact'' r) (\<lambda>view.
     bindE (check_address backend operation addr) (\<lambda>_.
     bindE (jstr_at ''project'' r) (\<lambda>project.
     bindE (jvalue_str ''target_id'' [] r) (\<lambda>tid.
     bindE (target st project tid True) (\<lambda>t.
     bindE (pin_target t (jput ''view'' (JStr view) (jput ''address'' (JStr addr) r))) (\<lambda>a.
     bindE (with_budget a) (\<lambda>a.
       let a = (if contains a ''arguments'' then a else jput ''arguments'' (JObj []) a) in
     bindE (jat ''arguments'' a) (\<lambda>args. throw_if (\<not> is_object args) ''arguments must be an object'' (
     bindE (check_arguments st project backend operation addr args) (\<lambda>_.
     bindE (validate_contract other ''action'' a) (\<lambda>_. Inr a)))))))))))))"

definition prepare ::
  "(string \<Rightarrow> json res) \<Rightarrow> (string \<Rightarrow> json option) \<Rightarrow> store \<Rightarrow> json \<Rightarrow> string \<Rightarrow> string \<Rightarrow> string \<Rightarrow> (json \<times> store) res" where
  "prepare parse other st r jid revision at' =
     bindE (normalize other st r) (\<lambda>a.
     bindE (jstr_at ''project'' a) (\<lambda>project. bindE (jstr_at ''target_id'' a) (\<lambda>tid.
     bindE (target st project tid False) (\<lambda>t. start_job parse st t a jid revision at'))))"

section \<open>Execution\<close>

text \<open>
  \<^verbatim>\<open>j[key]\<close> on a value that may be changed: a missing field reads as null.
\<close>

definition jsub :: "string \<Rightarrow> json \<Rightarrow> json res" where
  "jsub k j = (case j of
      JObj m \<Rightarrow> Inr (case smap_get m k of Some v \<Rightarrow> v | None \<Rightarrow> JNull)
    | JNull \<Rightarrow> Inr JNull | _ \<Rightarrow> Inl Json_Type)"

definition omit_data :: "json \<Rightarrow> json res" where
  "omit_data response = (if is_object response then Inr (jput ''data_omitted'' (JBool True) (jerase ''data'' response))
     else Inl Json_Type)"

text \<open>
  What one execution draws from its surroundings: the token and the times of the claim, what other
  threads and processes do to the store while the backend runs, whether the heartbeat thread
  lost the lease, and the identifiers and times of the publication.
\<close>

record draw =
  d_token :: string
  d_claimed :: "int \<times> int \<times> string"
  d_meanwhile :: "store \<Rightarrow> store"
  d_lost :: bool
  d_evidence :: string
  d_functions :: "string list"
  d_published :: "int \<times> string"

text \<open>\<^verbatim>\<open>what()\<close> of a caught exception; \<open>what\<close> gives the texts of the library's own.\<close>

definition what_text :: "(error \<Rightarrow> string) \<Rightarrow> error \<Rightarrow> string" where
  "what_text what e = (case e of Runtime m \<Rightarrow> m | _ \<Rightarrow> what e)"

definition outcome :: "string \<Rightarrow> string \<Rightarrow> command_result res" where
  "outcome status diagnostic =
     bindE (dump (jobj [(''status'', JStr status), (''diagnostic'', JStr diagnostic)])) (\<lambda>text.
       Inr \<lparr>r_status = status, r_json = text\<rparr>)"

definition canonical_status :: "string \<Rightarrow> string" where
  "canonical_status s = (if s = ''complete'' then ''completed'' else if s = ''canceled'' then ''cancelled'' else s)"

text \<open>The guarded block: any exception of the backend becomes a failed result.\<close>

definition run_backend ::
  "(error \<Rightarrow> string) \<Rightarrow> (target_rec \<Rightarrow> json \<Rightarrow> command_result res) \<Rightarrow> store \<Rightarrow> target_rec \<Rightarrow> json \<Rightarrow> string \<Rightarrow>
   command_result res" where
  "run_backend what run st t request jid =
     (case bindE (object_path (tr_sha t)) (\<lambda>path. bindE (sha256_file [] (objects st path)) (\<lambda>h.
           throw_if (h \<noteq> tr_sha t) ''artifact integrity check failed''
           (if jid \<in> set (cancels st) then outcome ''cancelled'' ''cancelled before execution''
            else run t request)))
      of Inr result \<Rightarrow> Inr result
       | Inl e \<Rightarrow> outcome ''failed'' (what_text what e))"

text \<open>The answer when the job has a result already.\<close>

definition replay_result :: "json \<Rightarrow> json \<Rightarrow> json res" where
  "replay_result prior response =
     bindE (jsub ''request'' prior) (\<lambda>request. bindE (jsub ''budget'' request) (\<lambda>budget.
     bindE (bindE (jsub ''output_bytes'' budget) ju64) (\<lambda>output.
     bindE (dump_size response) (\<lambda>n.
       if n > output then omit_data response else Inr response))))"

definition retained_note :: string where
  "retained_note = ''Native result retained in evidence; retrieve with evidence show.''"

definition final_response :: "(string \<Rightarrow> json option) \<Rightarrow> nat \<Rightarrow> json \<Rightarrow> json res" where
  "final_response other output response =
     bindE (dump_size response) (\<lambda>n.
     bindE (if n > output
            then bindE (omit_data response) (\<lambda>short. bindE (jsub ''diagnostics'' short) (\<lambda>notes.
                   bindE (push_back (JStr retained_note) notes) (\<lambda>notes. Inr (jput ''diagnostics'' notes short))))
            else Inr response) (\<lambda>response.
     bindE (validate_contract other ''result'' response) (\<lambda>_. Inr response)))"

record claim =
  c_job :: json
  c_id :: string
  c_request :: json
  c_target :: target_rec
  c_backend :: string
  c_output :: nat

text \<open>The claim of the job, and the fields of its request that the execution needs.\<close>

definition claim_request :: "(string \<Rightarrow> json res) \<Rightarrow> draw \<Rightarrow> store \<Rightarrow> json \<Rightarrow> (claim \<times> store) res" where
  "claim_request parse d st prior =
     bindE (bindE (jsub ''request'' prior) (\<lambda>q. bindE (jsub ''project'' q) jstr)) (\<lambda>project.
     bindE (bindE (jsub ''id'' prior) jstr) (\<lambda>jid.
     (case d_claimed d of (now1, now2, at') \<Rightarrow>
     bindE (claim_job parse st project jid (d_token d) now1 now2 at') (\<lambda>(job, st1).
     bindE (jat ''request'' job) (\<lambda>request.
     bindE (jstr_at ''project'' request) (\<lambda>project.
     bindE (jstr_at ''target_id'' request) (\<lambda>tid.
     bindE (target st1 project tid False) (\<lambda>t.
     bindE (jstr_at ''backend'' request) (\<lambda>backend.
     bindE (jstr_at ''operation'' request) (\<lambda>operation.
     bindE (jat ''budget'' request) (\<lambda>budget. bindE (jat ''arguments'' request) (\<lambda>args.
     bindE (bindE (jat ''wall_ms'' budget) ju64) (\<lambda>wall.
     bindE (bindE (jat ''output_bytes'' budget) ju64) (\<lambda>output.
     bindE (jstr_at ''id'' job) (\<lambda>jid. bindE (validate_name jid) (\<lambda>_.
     bindE (jvalue_str ''address'' [] request) (\<lambda>addr.
       Inr (\<lparr>c_job = job, c_id = jid, c_request = request, c_target = t, c_backend = backend, c_output = output\<rparr>,
            st1))))))))))))))))))"

definition execute ::
  "(string \<Rightarrow> json res) \<Rightarrow> (string \<Rightarrow> json option) \<Rightarrow> (store \<Rightarrow> json \<Rightarrow> json res) \<Rightarrow> (error \<Rightarrow> string) \<Rightarrow>
   (target_rec \<Rightarrow> json \<Rightarrow> command_result res) \<Rightarrow> draw \<Rightarrow> store \<Rightarrow> json \<Rightarrow> (json \<times> store) res" where
  "execute parse other persist what run d st submitted =
     bindE (bindE (jat ''request'' submitted) (jstr_at ''project'')) (\<lambda>project.
     bindE (jstr_at ''id'' submitted) (\<lambda>jid.
     bindE (first_job parse st project jid) (\<lambda>prior.
       if contains prior ''result''
       then bindE (jat ''result'' prior) (\<lambda>response. bindE (replay_result prior response) (\<lambda>a. Inr (a, st)))
       else
     bindE (claim_request parse d st prior) (\<lambda>(c, st1).
     bindE (run_backend what run st1 (c_target c) (c_request c) (c_id c)) (\<lambda>result.
       let result = result\<lparr>r_status := canonical_status (r_status result)\<rparr>; st2 = d_meanwhile d st1 in
     throw_if (d_lost d) ''job ownership lost; result not published'' (
     bindE (publish_result parse other persist st2 (c_target c) (c_job c) (c_backend c) result (d_evidence d)
              (d_functions d) (fst (d_published d)) (snd (d_published d))) (\<lambda>(response, st3).
     bindE (final_response other (c_output c) response) (\<lambda>response. Inr (response, st3)))))))))"

section \<open>What a normalized action guarantees\<close>

definition budget_field :: "json \<Rightarrow> string \<times> nat \<times> nat \<times> nat \<Rightarrow> bool" where
  "budget_field budget = (\<lambda>(key, def, lo, hi). \<exists>v i. jat key budget = Inr v \<and> is_number_integer v \<and> ji64 v = Inr i \<and>
     int lo \<le> i \<and> i \<le> int hi)"

definition typed_address :: "string \<Rightarrow> string \<Rightarrow> string \<Rightarrow> bool" where
  "typed_address backend operation addr =
     ((addr = [] \<and> \<not> needs_address backend operation) \<or> (backend = ''airece'' \<and> operation = ''evidence'') \<or>
      (\<exists>ds. addr = ''0x'' @ ds \<and> ds \<noteq> [] \<and> length ds \<le> 16 \<and> only_of hex_letters ds))"

definition argument_keys :: "(string \<times> string list) list" where
  "argument_keys = [(''capa'', [''format'']), (''floss'', [''mode'', ''minimum_length'']), (''wireshark'', [''offset'']),
     (''lief'', [''offset'']), (''ilspy'', [''offset'', ''dependencies'', ''pdb'', ''entry'']), (''ghidra'', ghidra_keys),
     (''xair'', [''profile''])]"

definition typed_target :: "store \<Rightarrow> string \<Rightarrow> json \<Rightarrow> bool" where
  "typed_target st project a = (\<exists>r \<in> set (targets st). t_project r = project \<and>
     jat ''target_id'' a = Inr (JStr (t_id r)) \<and> jat ''artifact_sha256'' a = Inr (JStr (t_sha r)) \<and>
     (\<exists>bytes. object_at (objects st) (t_sha r) = Some bytes \<and> sha256_text bytes = t_sha r))"

definition typed_action :: "store \<Rightarrow> json \<Rightarrow> bool" where
  "typed_action st a = (\<exists>backend operation known addr view project budget args.
     jat ''schema'' a = Inr (JStr ''indago.action.v1'') \<and> jat ''backend'' a = Inr (JStr backend) \<and>
     jat ''operation'' a = Inr (JStr operation) \<and> map_of backend_operations backend = Some known \<and> operation \<in> set known \<and>
     jat ''address'' a = Inr (JStr addr) \<and> typed_address backend operation addr \<and> jat ''view'' a = Inr (JStr view) \<and>
     jat ''project'' a = Inr (JStr project) \<and> typed_target st project a \<and>
     jat ''budget'' a = Inr budget \<and> list_all (budget_field budget) budget_limits \<and>
     jat ''arguments'' a = Inr args \<and> is_object args \<and>
     (case map_of argument_keys backend of None \<Rightarrow> True | Some ks \<Rightarrow> fst ` set (entries args) \<subseteq> set ks))"

lemma int_within_True: "int_within lo hi v = Inr True \<longleftrightarrow> is_number_integer v \<and> (\<exists>i. ji64 v = Inr i \<and> lo \<le> i \<and> i \<le> hi)"
  by (auto simp: int_within_def)

lemma set_budget_Inr:
  assumes "set_budget row b = Inr b'" and "is_object b"
  shows "budget_field b' row" and "k \<noteq> fst row \<Longrightarrow> jat k b' = jat k b" and "is_object b'"
proof -
  obtain key def lo hi where row: "row = (key, def, lo, hi)" by (cases row)
  have b': "b' = (if contains b key then b else jput key (jnat def) b)"
    and field: "\<exists>v. jat key b' = Inr v \<and> is_number_integer v \<and> int_within (int lo) (int hi) v = Inr True"
    using assms(1) by (auto simp: row set_budget_def Let_def)
  show "budget_field b' row"
    using field by (auto simp: row budget_field_def int_within_True)
  show "k \<noteq> fst row \<Longrightarrow> jat k b' = jat k b" "is_object b'"
    using assms(2) by (simp_all add: b' row jat_jput_obj del: jat_jput)
qed

text \<open>A budget whose field is in range is left as it is.\<close>

lemma set_budget_idem: "budget_field b row \<Longrightarrow> set_budget row b = Inr b"
  by (auto simp: set_budget_def budget_field_def contains_iff int_within_def split: prod.splits)

lemma budget_field_cong: "jat (fst row) b = jat (fst row) b' \<Longrightarrow> budget_field b row = budget_field b' row"
  by (cases row) (simp add: budget_field_def)

lemma foldE_set_budget:
  assumes "foldE set_budget rows b = Inr b'" and "distinct (map fst rows)" and "is_object b"
  shows "list_all (budget_field b') rows \<and> (\<forall>k. k \<notin> set (map fst rows) \<longrightarrow> jat k b' = jat k b) \<and> is_object b'"
  using assms
proof (induction rows arbitrary: b)
  case Nil
  then show ?case by simp
next
  case (Cons row rows)
  obtain b1 where b1: "set_budget row b = Inr b1" and rest: "foldE set_budget rows b1 = Inr b'"
    using Cons.prems(1) by (simp only: foldE.simps) (erule bindE_InrE)
  note b1' = set_budget_Inr[OF b1 Cons.prems(3)]
  have IH: "list_all (budget_field b') rows" "\<forall>k. k \<notin> set (map fst rows) \<longrightarrow> jat k b' = jat k b1" "is_object b'"
    using Cons.IH[OF rest _ b1'(3)] Cons.prems(2) by auto
  moreover have "budget_field b' row"
    using b1'(1) IH(2) Cons.prems(2) budget_field_cong[of row b' b1] by simp
  ultimately show ?case
    using b1'(2) by simp
qed

lemma foldE_set_budget_idem: "list_all (budget_field b) rows \<Longrightarrow> foldE set_budget rows b = Inr b"
  by (induction rows) (simp_all add: set_budget_idem)

lemma budget_keys: "distinct (map fst budget_limits)"
  by (simp add: budget_limits_def)

lemma only_keys_ok: "only_keys ks args msg = Inr () \<longleftrightarrow> fst ` set (entries args) \<subseteq> set ks"
  by (auto simp: only_keys_def list_all_iff)

lemma keys_first: "bindE (only_keys ks args msg) f = Inr y \<Longrightarrow> fst ` set (entries args) \<subseteq> set ks"
  by (erule bindE_InrE) (simp add: only_keys_ok)

lemma checked_keys:
  "check_capa addr args = Inr () \<Longrightarrow> fst ` set (entries args) \<subseteq> set [''format'']"
  "check_floss addr args = Inr () \<Longrightarrow> fst ` set (entries args) \<subseteq> set [''mode'', ''minimum_length'']"
  "check_wireshark addr args = Inr () \<Longrightarrow> fst ` set (entries args) \<subseteq> set [''offset'']"
  "check_lief operation addr args = Inr () \<Longrightarrow> fst ` set (entries args) \<subseteq> set [''offset'']"
  "check_ilspy st project operation addr args = Inr () \<Longrightarrow>
     fst ` set (entries args) \<subseteq> set [''offset'', ''dependencies'', ''pdb'', ''entry'']"
  "check_xair args = Inr () \<Longrightarrow> fst ` set (entries args) \<subseteq> set [''profile'']"
  unfolding check_capa_def check_floss_def check_wireshark_def check_lief_def check_ilspy_def check_xair_def
  by (erule keys_first)+

lemma ghidra_keys_ok: "check_ghidra args = Inr () \<Longrightarrow> fst ` set (entries args) \<subseteq> set ghidra_keys"
  by (auto simp: check_ghidra_def find_None_iff split: option.splits)

lemma checked_arguments:
  assumes "check_arguments st project backend operation addr args = Inr ()"
  shows "case map_of argument_keys backend of None \<Rightarrow> True | Some ks \<Rightarrow> fst ` set (entries args) \<subseteq> set ks"
  using assms checked_keys[where args = args] ghidra_keys_ok[of args]
  unfolding check_arguments_def argument_keys_def by (auto split: if_splits)

lemma checked_address: "check_address backend operation addr = Inr () \<Longrightarrow> typed_address backend operation addr"
  by (auto simp: check_address_def typed_address_def starts_with_iff split: if_splits)

lemma known_backend: "b \<notin> set (map fst backend_operations) \<longleftrightarrow> map_of backend_operations b = None"
  by (simp add: map_of_eq_None_iff)

lemma action_head_Inr:
  "action_head other r = Inr (backend, operation) \<longleftrightarrow> (\<exists>n known. dump_size r = Inr n \<and> n \<le> 1048576 \<and>
     validate_contract other ''action'' r = Inr () \<and> is_object r \<and>
     jvalue_str ''schema'' ''indago.action.v1'' r = Inr ''indago.action.v1'' \<and> jat ''backend'' r = Inr (JStr backend) \<and>
     jat ''operation'' r = Inr (JStr operation) \<and> operation \<noteq> [] \<and> map_of backend_operations backend = Some known \<and>
     operation \<in> set known)"
  unfolding action_head_def known_backend by (auto simp: bindE_eq_Inr split: option.splits)

lemma pin_target_Inr:
  "pin_target t r = Inr a \<Longrightarrow> a = jput ''artifact_sha256'' (JStr (tr_sha t)) (jput ''target_id'' (JStr (tr_id t))
     (jput ''schema'' (JStr ''indago.action.v1'') r))"
  by (auto simp: pin_target_def split: if_splits)

lemma with_budget_Inr:
  assumes "with_budget r = Inr a" and "is_object r"
  shows "\<exists>budget. a = jput ''budget'' budget r \<and> is_object budget \<and> list_all (budget_field budget) budget_limits"
proof -
  obtain b0 b where b0: "\<not> \<not> is_object b0" and b: "foldE set_budget budget_limits b0 = Inr b" and a: "Inr (jput ''budget'' b r) = (Inr a :: json res)"
    using assms(1) unfolding with_budget_def by (elim bindE_elims) (rule that, assumption+)
  from foldE_set_budget[OF b budget_keys] b0 a show ?thesis by auto
qed

text \<open>Everything that a returned action says of its request.\<close>

record normal_parts =
  n_backend :: string
  n_operation :: string
  n_addr :: string
  n_view :: string
  n_project :: string
  n_target :: target_rec
  n_budget :: json
  n_args :: json

definition normal_form :: "normal_parts \<Rightarrow> json \<Rightarrow> json" where
  "normal_form p r =
     (let a = jput ''budget'' (n_budget p) (jput ''artifact_sha256'' (JStr (tr_sha (n_target p)))
            (jput ''target_id'' (JStr (tr_id (n_target p))) (jput ''schema'' (JStr ''indago.action.v1'')
            (jput ''view'' (JStr (n_view p)) (jput ''address'' (JStr (n_addr p)) r)))))
      in if contains a ''arguments'' then a else jput ''arguments'' (JObj []) a)"

definition normalizes :: "(string \<Rightarrow> json option) \<Rightarrow> store \<Rightarrow> json \<Rightarrow> json \<Rightarrow> normal_parts \<Rightarrow> bool" where
  "normalizes other st r a p =
     (action_head other r = Inr (n_backend p, n_operation p) \<and>
      check_address (n_backend p) (n_operation p) (n_addr p) = Inr () \<and>
      jat ''project'' r = Inr (JStr (n_project p)) \<and>
      (\<exists>tid. target st (n_project p) tid True = Inr (n_target p)) \<and>
      is_object (n_budget p) \<and> list_all (budget_field (n_budget p)) budget_limits \<and>
      a = normal_form p r \<and> jat ''arguments'' a = Inr (n_args p) \<and> is_object (n_args p) \<and>
      check_arguments st (n_project p) (n_backend p) (n_operation p) (n_addr p) (n_args p) = Inr () \<and>
      validate_contract other ''action'' a = Inr ())"

lemma normalize_parts:
  assumes "normalize other st r = Inr a"
  shows "\<exists>p. normalizes other st r a p"
proof -
  let ?args = "\<lambda>a. if contains a ''arguments'' then a else jput ''arguments'' (JObj []) a"
  obtain backend operation addr view project tid t a0 a1 args u1 u2 u3
    where head: "action_head other r = Inr (backend, operation)"
      and addr: "check_address backend operation addr = Inr u1" and project: "jstr_at ''project'' r = Inr project"
      and t: "target st project tid True = Inr t"
      and a0: "pin_target t (jput ''view'' (JStr view) (jput ''address'' (JStr addr) r)) = Inr a0"
      and a1: "with_budget a0 = Inr a1" and args: "jat ''arguments'' (?args a1) = Inr args" "\<not> \<not> is_object args"
      and checked: "check_arguments st project backend operation addr args = Inr u2"
      and valid: "validate_contract other ''action'' (?args a1) = Inr u3" and a: "Inr (?args a1) = (Inr a :: json res)"
    using assms unfolding normalize_def Let_def by (elim bindE_elims) (rule that, assumption+)
  note a0 = pin_target_Inr[OF a0]
  obtain budget where b: "a1 = jput ''budget'' budget a0" "is_object budget" "list_all (budget_field budget) budget_limits"
    using with_budget_Inr[OF a1] by (auto simp: a0)
  let ?p = "\<lparr>n_backend = backend, n_operation = operation, n_addr = addr, n_view = view, n_project = project, n_target = t,
     n_budget = budget, n_args = args\<rparr>"
  have "normal_form ?p r = a"
    using a unfolding normal_form_def Let_def b(1) a0 by (simp split: if_splits)
  then have "normalizes other st r a ?p"
    using head addr project t b(2,3) args checked valid a by (auto simp: normalizes_def)
  then show ?thesis ..
qed

lemma normal_form_fields:
  assumes "is_object r"
  shows "jat ''schema'' (normal_form p r) = Inr (JStr ''indago.action.v1'')"
    "jat ''backend'' (normal_form p r) = jat ''backend'' r" "jat ''operation'' (normal_form p r) = jat ''operation'' r"
    "jat ''address'' (normal_form p r) = Inr (JStr (n_addr p))" "jat ''view'' (normal_form p r) = Inr (JStr (n_view p))"
    "jat ''project'' (normal_form p r) = jat ''project'' r"
    "jat ''target_id'' (normal_form p r) = Inr (JStr (tr_id (n_target p)))"
    "jat ''artifact_sha256'' (normal_form p r) = Inr (JStr (tr_sha (n_target p)))"
    "jat ''budget'' (normal_form p r) = Inr (n_budget p)" "is_object (normal_form p r)"
    "contains (normal_form p r) ''arguments''"
  using assms by (simp_all add: normal_form_def Let_def jat_jput_obj del: jat_jput)

lemma target_Inr:
  assumes "target st project tid True = Inr t"
  shows "\<exists>r \<in> set (targets st). t_project r = project \<and> tr_id t = t_id r \<and> tr_sha t = t_sha r \<and>
    (\<exists>bytes. object_at (objects st) (t_sha r) = Some bytes \<and> sha256_text bytes = t_sha r)"
proof -
  obtain r where r: "find (\<lambda>r. t_project r = project \<and> matching tid (t_id r)) (rev (targets st)) = Some r"
    using assms by (auto simp: target_def split: option.splits)
  obtain path h where path: "object_path (t_sha r) = Inr path" and h: "sha256_file [] (objects st path) = Inr h" "h = t_sha r"
    and t: "tr_id t = t_id r" "tr_sha t = t_sha r"
    using assms by (auto simp: target_def r Let_def)
  obtain bytes where "objects st path = Some bytes"
    using h(1) by (cases "objects st path") (simp_all add: sha256_file_def[where content = None])
  then have "object_at (objects st) (t_sha r) = Some bytes" "sha256_text bytes = t_sha r"
    using h path by (simp_all add: object_at_def sha256_file_text)
  moreover have "r \<in> set (targets st)" "t_project r = project"
    using find_SomeD[OF r] by auto
  ultimately show ?thesis using t by blast
qed

text \<open>The target that a request resolved to is found again under its own identifier.\<close>

lemma target_again:
  assumes "target st project tid True = Inr t"
  shows "target st project (tr_id t) True = Inr t"
proof -
  obtain r where r: "find (\<lambda>r. t_project r = project \<and> matching tid (t_id r)) (rev (targets st)) = Some r" and id: "tr_id t = t_id r"
    using assms by (auto simp: target_def Let_def split: option.splits)
  have first: "find (\<lambda>r. t_project r = project) rows = Some r \<Longrightarrow>
      find (\<lambda>r'. t_project r' = project \<and> matching (t_id r) (t_id r')) rows = Some r" for rows
    by (induction rows) (auto simp: matching_def split: if_splits)
  have "find (\<lambda>r'. t_project r' = project \<and> matching (t_id r) (t_id r')) (rev (targets st)) = Some r"
  proof (cases "tid = []")
    case True
    with r show ?thesis by (intro first) (simp add: matching_def)
  next
    case False
    with find_SomeD[OF r] have "t_id r = tid" by (simp add: matching_def)
    with r show ?thesis by simp
  qed
  then show ?thesis
    using assms r by (simp add: target_def id)
qed

lemma normalizesD:
  assumes "normalizes other st r a p"
  shows "action_head other r = Inr (n_backend p, n_operation p)"
    "check_address (n_backend p) (n_operation p) (n_addr p) = Inr ()" "jat ''project'' r = Inr (JStr (n_project p))"
    "\<exists>tid. target st (n_project p) tid True = Inr (n_target p)" "is_object (n_budget p)"
    "list_all (budget_field (n_budget p)) budget_limits" "a = normal_form p r" "jat ''arguments'' a = Inr (n_args p)"
    "is_object (n_args p)"
    "check_arguments st (n_project p) (n_backend p) (n_operation p) (n_addr p) (n_args p) = Inr ()"
    "validate_contract other ''action'' a = Inr ()"
  using assms unfolding normalizes_def by blast+

lemma normalizes_head:
  assumes "normalizes other st r a p"
  shows "is_object r" "jat ''backend'' r = Inr (JStr (n_backend p))" "jat ''operation'' r = Inr (JStr (n_operation p))"
    "\<exists>known. map_of backend_operations (n_backend p) = Some known \<and> n_operation p \<in> set known" "n_operation p \<noteq> []"
  using normalizesD(1)[OF assms] unfolding action_head_Inr by blast+

text \<open>
  C35. Normalization establishes the type of an action: a returned action has the schema constant, a backend
  of the service and one of its operations, an address that is absent where none is needed or 1 to 16 hexadecimal
  digits after the prefix, the identifier and the hash of a target of the project whose stored object has that
  hash, a budget whose four fields are integers within their limits, only the argument keys that its
  backend knows, and it satisfies the action contract.
\<close>

theorem normalize_typed:
  assumes "normalize other st r = Inr a"
  shows "typed_action st a \<and> validate_contract other ''action'' a = Inr ()"
proof -
  obtain p where p: "normalizes other st r a p" using normalize_parts[OF assms] ..
  note d = normalizesD[OF p] and h = normalizes_head[OF p]
  note f = normal_form_fields[OF h(1), of p, folded d(7)]
  obtain tid where "target st (n_project p) tid True = Inr (n_target p)" using d(4) ..
  from target_Inr[OF this] have "typed_target st (n_project p) a"
    by (auto simp: typed_target_def f)
  then have "typed_action st a"
    unfolding typed_action_def using h(4) checked_address[OF d(2)] checked_arguments[OF d(10)] d(3,6,8,9)
    by (auto simp: f h(2,3))
  with d(11) show ?thesis by simp
qed

lemma normalize_again:
  assumes "normalize other st r = Inr a" and "smap_ok (entries r)" and "dump_size a = Inr n" and "n \<le> 1048576"
  shows "normalize other st a = Inr a"
proof -
  obtain p where p: "normalizes other st r a p" using normalize_parts[OF assms(1)] ..
  note d = normalizesD[OF p] and h = normalizes_head[OF p]
  note f = normal_form_fields[OF h(1), of p, folded d(7)]
  have ok: "smap_ok (entries a)"
    using assms(2) by (simp add: d(7) normal_form_def Let_def smap_ok_jput)
  have same: "jput k v a = a" if "jat k a = Inr v" for k v
    by (rule jput_same[OF ok that])
  have "action_head other a = Inr (n_backend p, n_operation p)"
    unfolding action_head_Inr using assms(3,4) d(11) f h by (auto simp: jvalue_str_def jvalue_present)
  moreover have "jvalue_str ''address'' [] a = Inr (n_addr p)" "jvalue_str ''view'' ''compact'' a = Inr (n_view p)"
    "jvalue_str ''target_id'' [] a = Inr (tr_id (n_target p))" "jstr_at ''project'' a = Inr (n_project p)"
    using f d(3) by (simp_all add: jvalue_str_def jvalue_present)
  moreover have "pin_target (n_target p) a = Inr a"
    using f by (simp add: pin_target_def same)
  moreover have "with_budget a = Inr a"
    using f(9) d(5,6) by (simp add: with_budget_def contains_iff foldE_set_budget_idem same)
  moreover have "target st (n_project p) (tr_id (n_target p)) True = Inr (n_target p)"
    using d(4) target_again by blast
  ultimately show ?thesis
    using d(2,8,9,10,11) f(4,5,11) by (simp add: normalize_def same del: jstr_at_eq_Inr)
qed

text \<open>
  C36. Normalization is stable: normalizing a normalized action again changes nothing, so the batch and
  the submission, which both normalize, agree on one request.
\<close>

theorem normalize_stable:
  assumes "normalize other st r = Inr a" and "smap_ok (entries r)" and "dump_size a = Inr n" and "n \<le> 1048576"
  shows "normalize other st a = Inr a"
  using assms by (rule normalize_again)

section \<open>A normalized action\<close>

definition any_schema :: "string \<Rightarrow> json option" where
  "any_schema name = Some (of_type ''object'')"

definition demo_action :: json where
  "demo_action = jobj [(''project'', JStr ''p''), (''backend'', JStr ''xair''), (''operation'', JStr ''cfg''),
     (''address'', JStr ''0x401000''), (''budget'', jobj [(''wall_ms'', jnat 5000)])]"

lemma foldE_skip: "foldE (\<lambda>(k, x). Inr) xs s = Inr s"
  by (induction xs) auto

lemma any_schema_ok: "is_object v \<Longrightarrow> validate_contract any_schema ''action'' v = Inr ()"
  by (cases v) (simp_all add: validate_contract_def contract_schema_def any_schema_def of_type_def validate.simps check_if_def
      check_type_def check_required_def has_type_def foldE_skip is_number_def fail_if_def jeq_JBool json_simps)

definition demo_pinned :: json where
  "demo_pinned = jput ''arguments'' (JObj []) (jput ''budget'' (jobj [(''wall_ms'', jnat 5000), (''output_bytes'', jnat 2097152),
       (''memory_bytes'', jnat 2147483648), (''max_items'', jnat 2048)])
     (jput ''artifact_sha256'' (JStr demo_sha) (jput ''target_id'' (JStr ''tgt_1'') (jput ''schema'' (JStr ''indago.action.v1'')
     (jput ''view'' (JStr ''compact'') (jput ''address'' (JStr ''0x401000'') demo_action))))))"

lemma demo_action_fields:
  "jat ''backend'' demo_action = Inr (JStr ''xair'')" "jat ''operation'' demo_action = Inr (JStr ''cfg'')"
  "jat ''project'' demo_action = Inr (JStr ''p'')" "jvalue_str ''address'' [] demo_action = Inr ''0x401000''"
  "jvalue_str ''view'' ''compact'' demo_action = Inr ''compact''" "jvalue_str ''target_id'' [] demo_action = Inr []"
  "jvalue_str ''schema'' ''indago.action.v1'' demo_action = Inr ''indago.action.v1''" "is_object demo_action"
  "jat ''budget'' demo_action = Inr (jobj [(''wall_ms'', jnat 5000)])" "\<not> contains demo_action ''arguments''"
  "\<not> contains demo_action ''artifact_sha256''" "contains demo_action ''budget''"
  by (simp_all add: demo_action_def json_simps jvalue_str_def)

lemma demo_action_ok: "smap_ok (entries demo_action)"
  by (simp add: demo_action_def jobj_def entries_def smap_emplace_def smap_ok_def)

lemma demo_action_head: "action_head any_schema demo_action = Inr (''xair'', ''cfg'')"
proof -
  have "dumpable demo_action" "json_weight demo_action \<le> 1048576"
    by (auto simp: demo_action_def json_simps utf8_ok_ascii intro!: dumpable_jobj)
  from dump_size_le[OF this] show ?thesis
    unfolding action_head_Inr using demo_action_fields by (auto simp: any_schema_ok backend_operations_def)
qed

lemma demo_latest: "target demo_artifacts ''p'' [] True =
    Inr \<lparr>tr_id = ''tgt_1'', tr_project = ''p'', tr_sha = demo_sha, tr_name = ''a.exe'', tr_size = 4\<rparr>"
  using demo_target_ok by (simp add: target_def demo_artifacts_def matching_def)

lemma demo_normalized: "normalize any_schema demo_artifacts demo_action = Inr demo_pinned"
proof -
  have addr: "check_address ''xair'' ''cfg'' ''0x401000'' = Inr ()"
    by (simp add: check_address_def needs_address_def starts_with_def hex_letters_def)
  have budget: "foldE set_budget budget_limits (jobj [(''wall_ms'', jnat 5000)]) =
      Inr (jobj [(''wall_ms'', jnat 5000), (''output_bytes'', jnat 2097152), (''memory_bytes'', jnat 2147483648),
        (''max_items'', jnat 2048)])"
    by (simp add: budget_limits_def set_budget_def int_within_def ji64_def jword_def json_simps)
      (simp add: jobj_def jput_def entries_def smap_emplace_def)
  have args: "check_arguments demo_artifacts ''p'' ''xair'' ''cfg'' ''0x401000'' (JObj []) = Inr ()"
    by (simp add: check_arguments_def check_xair_def only_keys_def entries_def)
  show ?thesis
    using demo_action_fields addr budget args demo_latest
    by (simp add: jstr_at_def normalize_def demo_action_head pin_target_def with_budget_def any_schema_ok json_simps
        demo_pinned_def contains_iff jat_jput_obj del: jat_jput)
qed

theorem normalize_typed_witness:
  "normalize any_schema demo_artifacts demo_action = Inr demo_pinned \<and> typed_action demo_artifacts demo_pinned"
  using normalize_typed[OF demo_normalized] demo_normalized by simp

lemma demo_pinned_size: "\<exists>n. dump_size demo_pinned = Inr n \<and> n \<le> 1048576"
proof -
  have w: "json_weight demo_action \<le> 2000"
    by (simp add: demo_action_def json_simps)
  have "dumpable demo_pinned"
    by (auto simp: demo_pinned_def demo_action_def json_simps utf8_ok_ascii demo_sha_def intro!: dumpable_jobj dumpable_jput)
  moreover have "json_weight demo_pinned \<le> 1048576"
    unfolding demo_pinned_def
    by (rule order_trans[OF weight_jput_le[OF _ weight_jput_le[OF _ weight_jput_le[OF _ weight_jput_le[OF _ weight_jput_le[OF _ weight_jput_le[OF _ weight_jput_le[OF _ w]]]]]]]]) (simp_all add: demo_action_fields json_simps demo_sha_def)
  ultimately show ?thesis
    using dump_size_le by blast
qed

lemma demo_pinned_ok: "smap_ok (entries demo_pinned)"
  by (simp add: demo_pinned_def smap_ok_jput demo_action_ok)

lemma demo_renormalized: "normalize any_schema demo_artifacts demo_pinned = Inr demo_pinned"
  using demo_pinned_size normalize_again[OF demo_normalized demo_action_ok] by blast

theorem normalize_stable_witness:
  "normalize any_schema demo_artifacts demo_pinned = Inr demo_pinned \<and> demo_pinned \<noteq> demo_action"
proof -
  obtain n where "dump_size demo_pinned = Inr n" "n \<le> 1048576"
    using demo_pinned_size by blast
  from normalize_stable[OF demo_normalized demo_action_ok this]
  have "normalize any_schema demo_artifacts demo_pinned = Inr demo_pinned" .
  moreover have "contains demo_pinned ''arguments''"
    by (simp add: demo_pinned_def)
  ultimately show ?thesis using demo_action_fields(10) by auto
qed

end
