(* ===== verification/Ind_Batch.thy ===== *)
theory Ind_Batch
  imports Ind_Service
begin

text \<open>
  Bounded analysis batches (\<^verbatim>\<open>src/workbench_batch.cpp\<close>): an ordered list of read actions with
  dependencies on preceding steps, run one after the other under budget reservations that are saved
  before anything is submitted.  The record that the code keeps as a JSON document has the typed fields
  below; the table row adds the owner, its deadline and the cancellation flag.
\<close>

section \<open>Records\<close>

record batch_step =
  s_name :: string
  s_deps :: "string list"
  s_partial :: bool
  s_request :: json
  s_status :: string
  s_attempt :: nat
  s_job :: "string option"
  s_reserved :: bool
  s_key :: string
  s_revision :: json
  s_evidence :: json
  s_retry :: string

record batch =
  b_id :: string
  b_project :: string
  b_title :: string
  b_status :: string
  b_steps :: "batch_step list"
  b_wall :: nat
  b_output :: nat
  b_memory :: nat
  b_jobs :: nat
  b_reserved_wall :: nat
  b_reserved_output :: nat
  b_started :: nat
  b_created :: string

record batch_row =
  br_batch :: batch
  br_owner :: string
  br_deadline :: int
  br_cancel :: bool

record batch_event =
  be_project :: string
  be_batch :: string
  be_kind :: string
  be_detail :: json

record batch_db =
  bd_rows :: "batch_row list"
  bd_events :: "batch_event list"

definition succeeded :: "string \<Rightarrow> bool \<Rightarrow> bool" where
  "succeeded s partial = (s = ''completed'' \<or> s = ''complete'' \<or> (partial \<and> s = ''partial''))"

definition this_row :: "string \<Rightarrow> string \<Rightarrow> batch_row \<Rightarrow> bool" where
  "this_row p i row = (b_project (br_batch row) = p \<and> b_id (br_batch row) = i)"

definition batch_load :: "batch_db \<Rightarrow> string \<Rightarrow> string \<Rightarrow> batch res" where
  "batch_load db p i = (case find (this_row p i) (bd_rows db) of
      None \<Rightarrow> throw ''unknown batch'' | Some row \<Rightarrow> Inr (br_batch row))"

definition change_rows :: "(batch_row \<Rightarrow> bool) \<Rightarrow> (batch_row \<Rightarrow> batch_row) \<Rightarrow> batch_db \<Rightarrow> batch_db" where
  "change_rows P f db = db\<lparr>bd_rows := map (\<lambda>row. if P row then f row else row) (bd_rows db)\<rparr>"

definition save_batch :: "batch \<Rightarrow> string \<Rightarrow> int \<Rightarrow> batch_db \<Rightarrow> batch_db res" where
  "save_batch b token now db =
     (let mine = (\<lambda>row. this_row (b_project b) (b_id b) row \<and> br_owner row = token) in
      if list_ex mine (bd_rows db)
      then Inr (change_rows mine (\<lambda>row. row\<lparr>br_batch := b, br_deadline := now + 30000\<rparr>) db)
      else throw ''batch ownership lost'')"

definition batch_log :: "string \<Rightarrow> string \<Rightarrow> string \<Rightarrow> json \<Rightarrow> batch_db \<Rightarrow> batch_db" where
  "batch_log p i kind detail db = db\<lparr>bd_events := bd_events db @ [\<lparr>be_project = p, be_batch = i, be_kind = kind, be_detail = detail\<rparr>]\<rparr>"

section \<open>Creation\<close>

text \<open>Each dependency must name a preceding step.\<close>

definition check_dependency :: "string list \<Rightarrow> json \<Rightarrow> string list \<Rightarrow> string list res" where
  "check_dependency names d deps =
     bindE (jstr d) (\<lambda>dep.
       if dep \<notin> set names then throw ''dependencies must name preceding steps; cycles forbidden''
       else Inr (deps @ [dep]))"

definition default_budget :: "nat \<Rightarrow> json" where
  "default_budget memory = jobj [(''wall_ms'', jint 60000), (''output_bytes'', jint (1024 * 1024)),
     (''memory_bytes'', jnat memory), (''max_items'', jint 1024)]"

text \<open>The action of a step, bound to the project and to its target, normalized by the service.\<close>

definition step_action ::
  "(string \<Rightarrow> json option) \<Rightarrow> store \<Rightarrow> string \<Rightarrow> nat \<Rightarrow> json \<Rightarrow> json res" where
  "step_action other st p memory request =
     bindE (if contains request ''project''
            then bindE (jat ''project'' request) (\<lambda>v. Inr (\<not> jeq v (JStr p))) else Inr False) (\<lambda>foreign.
     throw_if foreign ''cross-project batch request forbidden'' (
     bindE (jset ''project'' (JStr p) request) (\<lambda>action.
     bindE (jstr_at ''backend'' action) (\<lambda>backend. bindE (jstr_at ''operation'' action) (\<lambda>operation.
     throw_if (backend \<notin> set (map fst backend_operations) \<or>
         operation \<in> {''annotate'', ''analyze'', ''flush'', ''close''})
       (''batch supports read analysis operations only; edits/session '' @ ''controls require explicit actions'') (
     throw_if (contains action ''idempotency_key'') ''batch owns action idempotency keys'' (
     bindE (jvalue_str ''target_id'' [] action) (\<lambda>tid.
     bindE (target st p tid True) (\<lambda>t.
       let action = jput ''artifact_sha256'' (JStr (tr_sha t)) (jput ''target_id'' (JStr (tr_id t)) action);
           action = (if contains action ''budget'' then action
                     else jput ''budget'' (default_budget memory) action)
       in normalize other st action)))))))))"

definition step_cost :: "json \<Rightarrow> (nat \<times> nat) res" where
  "step_cost action =
     bindE (jsub ''budget'' action) (\<lambda>budget.
     bindE (jvalue_u64 ''wall_ms'' 120000 budget) (\<lambda>wall.
     bindE (jvalue_u64 ''output_bytes'' 2097152 budget) (\<lambda>output. Inr (wall, output))))"

definition check_ceiling :: "nat \<times> nat \<times> nat \<Rightarrow> json \<Rightarrow> unit res" where
  "check_ceiling = (\<lambda>(wall, output, memory) action.
     bindE (jsub ''budget'' action) (\<lambda>budget.
     bindE (jvalue_u64 ''wall_ms'' 120000 budget) (\<lambda>w. if w > wall then throw ''step budget exceeds batch ceiling'' else
     bindE (jvalue_u64 ''output_bytes'' 2097152 budget) (\<lambda>n. if n > output then throw ''step budget exceeds batch ceiling'' else
     bindE (jvalue_u64 ''memory_bytes'' 2147483648 budget) (\<lambda>m.
       if m > memory then throw ''step budget exceeds batch ceiling'' else Inr ())))))"

definition add_step ::
  "(string \<Rightarrow> json option) \<Rightarrow> store \<Rightarrow> string \<Rightarrow> nat \<times> nat \<times> nat \<Rightarrow> json \<Rightarrow> string list \<times> batch_step list \<Rightarrow>
   (string list \<times> batch_step list) res" where
  "add_step other st p limits step = (\<lambda>(names, prepared).
     bindE (check_keys step [''name'', ''depends_on'', ''allow_partial_dependencies'', ''request'']) (\<lambda>_.
     bindE (jstr_at ''name'' step) (\<lambda>name. bindE (check_identifier name) (\<lambda>_.
     throw_if (name \<in> set names) ''duplicate batch step name'' (
     bindE (jvalue ''depends_on'' (JArr []) step) (\<lambda>deps.
     throw_if (\<not> is_array deps \<or> jsize deps > 64) ''invalid batch dependencies'' (
     bindE (foldE (check_dependency names) (jrange deps) []) (\<lambda>deps.
     bindE (jat ''request'' step) (\<lambda>request.
     bindE (step_action other st p (snd (snd limits)) request) (\<lambda>action.
     bindE (check_ceiling limits action) (\<lambda>_.
     bindE (jvalue_bool ''allow_partial_dependencies'' False step) (\<lambda>partial.
       Inr (sset_insert name names,
            prepared @ [\<lparr>s_name = name, s_deps = deps, s_partial = partial, s_request = action, s_status = ''pending'',
              s_attempt = 0, s_job = None, s_reserved = False, s_key = [], s_revision = JNull, s_evidence = JArr [],
              s_retry = []\<rparr>])))))))))))))"

definition batch_create ::
  "(string \<Rightarrow> json option) \<Rightarrow> store \<Rightarrow> batch_db \<Rightarrow> string \<Rightarrow> json \<Rightarrow> string \<Rightarrow> string \<Rightarrow> (batch \<times> batch_db) res" where
  "batch_create other st db p r bid created =
     bindE (check_keys r [''project'', ''steps'', ''budget'', ''title'']) (\<lambda>_.
     bindE (jat ''steps'' r) (\<lambda>steps.
     throw_if (\<not> is_array steps \<or> jempty steps \<or> jsize steps > 64) ''batch requires 1..64 ordered steps'' (
     bindE (jat ''budget'' r) (\<lambda>budget.
     bindE (check_keys budget [''wall_ms'', ''output_bytes'', ''memory_bytes'', ''max_jobs'']) (\<lambda>_.
     bindE (bound budget ''wall_ms'' 600000 86400000) (\<lambda>wall.
     bindE (bound budget ''output_bytes'' (16 * 1024 * 1024) (256 * 1024 * 1024)) (\<lambda>output.
     bindE (bound budget ''memory_bytes'' (2 * 1024 * 1024 * 1024) (16 * 1024 * 1024 * 1024)) (\<lambda>memory.
     bindE (bound budget ''max_jobs'' 64 128) (\<lambda>most.
     bindE (foldE (add_step other st p (wall, output, memory)) (jrange steps) ([], [])) (\<lambda>(names, prepared).
     bindE (jvalue_str ''title'' ''Bounded analysis batch'' r) (\<lambda>title.
       let b = \<lparr>b_id = bid, b_project = p, b_title = title, b_status = ''queued'', b_steps = prepared, b_wall = wall,
             b_output = output, b_memory = memory, b_jobs = most, b_reserved_wall = 0, b_reserved_output = 0,
             b_started = 0, b_created = created\<rparr>
       in if list_ex (this_row p bid) (bd_rows db) then constraint
          else Inr (b, batch_log p bid ''created'' (jobj [(''steps'', jnat (length prepared))])
                 (db\<lparr>bd_rows := bd_rows db @ [\<lparr>br_batch = b, br_owner = [], br_deadline = 0, br_cancel = False\<rparr>]\<rparr>)))))))))))))"

section \<open>Reading, cancelling, owning\<close>

definition batch_events :: "batch_db \<Rightarrow> string \<Rightarrow> string \<Rightarrow> json \<Rightarrow> (batch_event list \<times> nat option) res" where
  "batch_events db p i r =
     bindE (batch_load db p i) (\<lambda>_.
     bindE (bound r ''limit'' 100 1000) (\<lambda>limit.
     bindE (bound r ''offset'' 0 10000000) (\<lambda>offset.
       let found = take (Suc limit) (drop offset (filter (\<lambda>e. be_project e = p \<and> be_batch e = i) (bd_events db))) in
       Inr (take limit found, if length found > limit then Some (offset + limit) else None))))"

text \<open>The jobs of the running steps are cancelled one by one.\<close>

definition cancel_running :: "(string \<Rightarrow> json res) \<Rightarrow> string \<Rightarrow> batch_step \<Rightarrow> store \<Rightarrow> store res" where
  "cancel_running parse p step st =
     (case s_job step of
        Some j \<Rightarrow> if s_status step = ''running'' then bindE (cancel_job parse st p j) (\<lambda>(a, st'). Inr st') else Inr st
      | None \<Rightarrow> Inr st)"

definition batch_cancel ::
  "(string \<Rightarrow> json res) \<Rightarrow> store \<Rightarrow> batch_db \<Rightarrow> string \<Rightarrow> string \<Rightarrow> (json \<times> store \<times> batch_db) res" where
  "batch_cancel parse st db p i =
     bindE (batch_load db p i) (\<lambda>b.
       let db' = batch_log p i ''cancel_requested'' (JObj []) (change_rows (this_row p i) (\<lambda>row. row\<lparr>br_cancel := True\<rparr>) db) in
     bindE (foldE (cancel_running parse p) (b_steps b) st) (\<lambda>st'.
       Inr (jobj [(''status'', JStr ''cancellation_requested''), (''id'', JStr i)], st', db')))"

definition claim_batch :: "string \<Rightarrow> string \<Rightarrow> string \<Rightarrow> int \<Rightarrow> bool \<Rightarrow> batch_db \<Rightarrow> (batch \<times> batch_db) res" where
  "claim_batch p i token now reset db =
     bindE (batch_load db p i) (\<lambda>b.
       let free = (\<lambda>row. this_row p i row \<and> (br_owner row = [] \<or> br_deadline row < now)) in
       if \<not> list_ex free (bd_rows db) then throw ''batch already has an active owner''
       else Inr (b, batch_log p i ''run_claimed'' (jobj [(''owner'', JStr token)])
              (change_rows free (\<lambda>row. row\<lparr>br_owner := token, br_deadline := now + 30000,
                 br_cancel := (if reset then False else br_cancel row)\<rparr>) db)))"

definition beat_batch :: "string \<Rightarrow> string \<Rightarrow> string \<Rightarrow> int \<Rightarrow> batch_db \<Rightarrow> batch_db \<times> bool" where
  "beat_batch p i token now db =
     (let mine = (\<lambda>row. this_row p i row \<and> br_owner row = token) in
      (change_rows mine (\<lambda>row. row\<lparr>br_deadline := now + 30000\<rparr>) db, \<not> list_ex mine (bd_rows db)))"

definition release_batch :: "string \<Rightarrow> string \<Rightarrow> string \<Rightarrow> batch_db \<Rightarrow> batch_db" where
  "release_batch p i token =
     change_rows (\<lambda>row. this_row p i row \<and> br_owner row = token) (\<lambda>row. row\<lparr>br_owner := [], br_deadline := 0\<rparr>)"

end
