(* ===== verification/Ind_Knowledge.thy ===== *)
theory Ind_Knowledge
  imports Ind_Store
begin

text \<open>
  The knowledge base of the workbench (\<^verbatim>\<open>src/knowledge.cpp\<close>) and the link between a
  published record and the action that computed it (\<^verbatim>\<open>src/workbench_publication.hpp\<close>).
  Records are immutable revisions; a publication names the revision it expects to replace and
  is refused when the head has moved.  The freshness of a record is computed from its pinned
  dependencies, transitively.

  The tables that other components fill (the static index and the runtime observations) are
  read only here.  A record of the runtime database is its text; the columns that the
  Ghidra query extracts from an index record are fields of its row.
\<close>

section \<open>Tables\<close>

record record_row =
  k_project :: string
  k_id :: string
  k_revision :: nat
  k_kind :: string
  k_record :: string
  k_sha :: string

record head_row =
  h_project :: string
  h_id :: string
  h_revision :: nat

record dep_row =
  dr_project :: string
  dr_id :: string
  dr_revision :: nat
  dr_type :: string
  dr_dependency :: string
  dr_pin :: string

record wb_event =
  we_project :: string
  we_id :: string
  we_kind :: string
  we_at :: string
  we_record :: string

record action_row =
  a_project :: string
  a_investigation :: string
  a_id :: string
  a_key :: string
  a_request_hash :: string
  a_record :: string
  a_runner :: string
  a_deadline :: int

record entity_row =
  n_project :: string
  n_id :: string
  n_revision :: string
  n_artifact :: string

record revision_row =
  x_project :: string
  x_revision :: string
  x_artifact :: string
  x_backend :: string
  x_session :: "string option"
  x_program :: "int option"

record runtime_row =
  o_project :: string
  o_type :: string
  o_id :: string
  o_record :: string
  o_sha :: string

record kb =
  base :: store
  records :: "record_row list"
  heads :: "head_row list"
  deps :: "dep_row list"
  wb_events :: "wb_event list"
  actions :: "action_row list"
  entities :: "entity_row list"
  revisions :: "revision_row list"
  current_revisions :: "(string \<times> string) list"
  runtime_rows :: "runtime_row list option"

text \<open>The dispatch context of an action, never part of a request.\<close>

record publication =
  c_project :: string
  c_investigation :: string
  c_action :: string
  c_runner :: string
  c_request_sha :: string

section \<open>Loading and resolving\<close>

definition head_of :: "kb \<Rightarrow> string \<Rightarrow> string \<Rightarrow> nat option" where
  "head_of db p rid = map_option h_revision (find (\<lambda>h. h_project h = p \<and> h_id h = rid) (heads db))"

definition row_of :: "kb \<Rightarrow> string \<Rightarrow> string \<Rightarrow> nat \<Rightarrow> record_row option" where
  "row_of db p rid rv = find (\<lambda>r. k_project r = p \<and> k_id r = rid \<and> k_revision r = rv) (records db)"

definition load_text :: "kb \<Rightarrow> string \<Rightarrow> string \<Rightarrow> nat \<Rightarrow> string res" where
  "load_text db p rid rv =
     (case (if rv = 0 then Option.bind (head_of db p rid) (row_of db p rid) else row_of db p rid rv) of
        None \<Rightarrow> throw (''unknown knowledge revision: '' @ rid)
      | Some r \<Rightarrow> (if sha256_text (k_record r) \<noteq> k_sha r then throw ''knowledge integrity mismatch''
                  else Inr (k_record r)))"

definition load :: "(string \<Rightarrow> json res) \<Rightarrow> kb \<Rightarrow> string \<Rightarrow> string \<Rightarrow> nat \<Rightarrow> json res" where
  "load parse db p rid rv = bindE (load_text db p rid rv) parse"

text \<open>\<^verbatim>\<open>std::to_string\<close> of an integer field.\<close>

definition int_text :: "string \<Rightarrow> json \<Rightarrow> string res" where
  "int_text k r = bindE (jat k r) (\<lambda>v. bindE (ji64 v) (\<lambda>i. Inr (to_string_int i)))"

text \<open>The same of \<^verbatim>\<open>get<int>()\<close>, which keeps the low 32 bits and reads a boolean as 0 or 1.\<close>

definition int32_text :: "string \<Rightarrow> json \<Rightarrow> string res" where
  "int32_text k r = bindE (jat k r) (\<lambda>v. case v of
     JBool b \<Rightarrow> Inr (to_string_int (if b then 1 else 0))
   | _ \<Rightarrow> bindE (jword v) (\<lambda>w. Inr (to_string_int (sint (ucast w :: 32 word)))))"

definition runtime_pin :: "kb \<Rightarrow> string \<Rightarrow> string \<Rightarrow> string \<Rightarrow> string res" where
  "runtime_pin db p type rid =
     (case runtime_rows db of
        None \<Rightarrow> throw ''runtime evidence unavailable''
      | Some rows \<Rightarrow>
          (case find (\<lambda>r. o_project r = p \<and> o_type r = type \<and> o_id r = rid) rows of
             None \<Rightarrow> throw ''unknown project runtime dependency''
           | Some r \<Rightarrow>
               let pin = sha256_text (o_record r) in
               if type = ''observation'' \<and> pin \<noteq> o_sha r then throw ''runtime evidence integrity mismatch''
               else Inr pin))"

definition index_pin :: "kb \<Rightarrow> string \<Rightarrow> string \<Rightarrow> string \<Rightarrow> string res" where
  "index_pin db p type rid =
     (case (if type = ''entity'' then map_option n_revision (find (\<lambda>r. n_project r = p \<and> n_id r = rid) (entities db))
            else if type = ''evidence''
            then map_option v_revision (find (\<lambda>r. v_project r = p \<and> v_id r = rid) (evidence_rows (base db)))
            else map_option x_revision (find (\<lambda>r. x_project r = p \<and> x_revision r = rid) (revisions db))) of
        None \<Rightarrow> throw (''unknown project dependency: '' @ rid)
      | Some pin \<Rightarrow> Inr pin)"

definition artifact_pin :: "kb \<Rightarrow> string \<Rightarrow> string \<Rightarrow> string res" where
  "artifact_pin db p rid =
     bindE (check_hash rid) (\<lambda>_.
       if \<not> list_ex (\<lambda>t. t_project t = p \<and> t_sha t = rid) (targets (base db)) then throw ''unknown project artifact''
       else bindE (object_path rid) (\<lambda>path.
         bindE (sha256_file [] (objects (base db) path)) (\<lambda>h.
           throw_if (h \<noteq> rid) ''artifact integrity mismatch'' (Inr rid))))"

definition current_pin :: "(string \<Rightarrow> json res) \<Rightarrow> kb \<Rightarrow> string \<Rightarrow> string \<Rightarrow> string \<Rightarrow> string res" where
  "current_pin parse db p type rid =
     (if type = ''record'' then bindE (load parse db p rid 0) (int_text ''revision'')
      else if type = ''artifact'' then artifact_pin db p rid
      else if type = ''entity'' \<or> type = ''evidence'' \<or> type = ''revision'' then index_pin db p type rid
      else if type = ''observation'' \<or> type = ''epoch'' then runtime_pin db p type rid
      else throw ''dependency type must be record, artifact, entity, evidence, revision, observation or epoch'')"

definition dependency_json :: "string \<Rightarrow> string \<Rightarrow> string \<Rightarrow> json" where
  "dependency_json type rid pin = jobj [(''type'', JStr type), (''id'', JStr rid), (''pin'', JStr pin)]"

definition resolve :: "(string \<Rightarrow> json res) \<Rightarrow> kb \<Rightarrow> string \<Rightarrow> json \<Rightarrow> (string \<times> string \<times> string) res" where
  "resolve parse db p dependency =
     bindE (check_keys dependency [''type'', ''id'', ''pin'']) (\<lambda>_.
     bindE (jstr_at ''type'' dependency) (\<lambda>type.
     bindE (jstr_at ''id'' dependency) (\<lambda>rid.
     bindE (current_pin parse db p type rid) (\<lambda>pin.
       throw_if (contains dependency ''pin'' \<and> jat ''pin'' dependency \<noteq> Inr (JStr pin)) ''dependency pin is stale''
         (Inr (type, rid, pin))))))"

section \<open>Freshness\<close>

record fresh_state =
  visited :: nat
  bounded :: bool
  on_path :: "string list"

definition reason :: "string \<Rightarrow> json" where
  "reason why = jobj [(''reason'', JStr why)]"

definition dep_reason :: "json \<Rightarrow> string \<Rightarrow> json" where
  "dep_reason d why = jobj [(''dependency'', d), (''reason'', JStr why)]"

definition superseded :: "kb \<Rightarrow> string \<Rightarrow> string \<Rightarrow> bool" where
  "superseded db p pin = (\<not> list_ex (\<lambda>h. h = (p, pin)) (current_revisions db))"

text \<open>A later Ghidra program revision of the same session, artifact and backend is indexed.\<close>

definition program_advanced :: "kb \<Rightarrow> string \<Rightarrow> string \<Rightarrow> bool" where
  "program_advanced db p pin =
     list_ex (\<lambda>old. x_project old = p \<and> x_revision old = pin \<and> x_backend old = ''ghidra'' \<and>
       list_ex (\<lambda>newer. x_project newer = x_project old \<and> x_artifact newer = x_artifact old \<and>
         x_backend newer = x_backend old \<and> x_session old \<noteq> None \<and> x_session newer = x_session old \<and>
         (case (x_program newer, x_program old) of (Some a, Some b) \<Rightarrow> a > b | _ \<Rightarrow> False)) (revisions db)) (revisions db)"

definition leaf_reasons :: "(string \<Rightarrow> json res) \<Rightarrow> kb \<Rightarrow> string \<Rightarrow> json \<Rightarrow> string \<Rightarrow> string \<Rightarrow> string \<Rightarrow> json list res" where
  "leaf_reasons parse db p d type rid pin =
     (if type = ''artifact'' then
        bindE (object_path rid) (\<lambda>path.
          Inr (if objects (base db) path = None then [dep_reason d ''artifact unavailable''] else []))
      else if type = ''observation'' \<or> type = ''epoch'' then
        Inr (case current_pin parse db p type rid of
               Inr current \<Rightarrow> (if current \<noteq> pin then [dep_reason d ''runtime evidence changed''] else [])
             | Inl _ \<Rightarrow> [dep_reason d ''runtime evidence missing or corrupt''])
      else
        Inr ((if superseded db p pin then [dep_reason d ''analysis superseded or not current''] else []) @
             (if program_advanced db p pin
              then [dep_reason d ''Ghidra Program revision advanced; requery affected view''] else [])))"

text \<open>\<^verbatim>\<open>std::stoll\<close> of a pin that the publisher wrote with \<^verbatim>\<open>std::to_string\<close>.\<close>

definition stoll :: "string \<Rightarrow> nat res" where
  "stoll s = (case from_chars 10 (2 ^ 63 - 1) s of (ec, v, rest) \<Rightarrow> (if ec = Errc_Ok then Inr v else Inl Std_Out_Of_Range))"

text \<open>
  \<open>fresh depth\<close> is \<^verbatim>\<open>Freshness::check\<close>, \<open>fresh_deps\<close> its loop with the reasons so far.
\<close>

function fresh ::
  "(string \<Rightarrow> json res) \<Rightarrow> kb \<Rightarrow> string \<Rightarrow> nat \<Rightarrow> json \<Rightarrow> fresh_state \<Rightarrow> (json list \<times> fresh_state) res"
and fresh_deps ::
  "(string \<Rightarrow> json res) \<Rightarrow> kb \<Rightarrow> string \<Rightarrow> nat \<Rightarrow> json list \<Rightarrow> json list \<Rightarrow> fresh_state \<Rightarrow>
   (json list \<times> fresh_state) res" where
  "fresh parse db p depth r s0 =
     (if depth > 32 then Inr ([reason ''dependency traversal limit''], s0\<lparr>bounded := True\<rparr>)
      else
        let s = s0\<lparr>visited := Suc (visited s0)\<rparr> in
        if visited s > 4096 then Inr ([reason ''dependency traversal limit''], s\<lparr>bounded := True\<rparr>)
        else
          bindE (jstr_at ''id'' r) (\<lambda>rid. bindE (int32_text ''revision'' r) (\<lambda>rv.
            let key = rid @ '':'' @ rv in
            if key \<in> set (on_path s) then Inr ([reason ''dependency cycle''], s)
            else bindE (jat ''dependencies'' r) (\<lambda>ds.
              bindE (fresh_deps parse db p depth (jrange ds) [] (s\<lparr>on_path := key # on_path s\<rparr>)) (\<lambda>(reasons, s).
                Inr (reasons, s\<lparr>on_path := filter (\<lambda>x. x \<noteq> key) (on_path s)\<rparr>))))))"
| "fresh_deps parse db p depth [] reasons s = Inr (reasons, s)"
| "fresh_deps parse db p depth (d # ds) reasons s =
     bindE (jstr_at ''type'' d) (\<lambda>type. bindE (jstr_at ''id'' d) (\<lambda>rid. bindE (jstr_at ''pin'' d) (\<lambda>pin.
     bindE (if type = ''record'' then
        bindE (load parse db p rid 0) (\<lambda>current.
        bindE (int32_text ''revision'' current) (\<lambda>rv.
          let reasons1 = reasons @ (if rv \<noteq> pin then [dep_reason d ''record revised''] else []) in
        bindE (stoll pin) (\<lambda>pinned.
        bindE (load parse db p rid pinned) (\<lambda>old.
        bindE (fresh parse db p (Suc depth) old s) (\<lambda>(inherited, s).
          Inr (reasons1 @ (if inherited = [] then []
            else [jput ''upstream'' (JArr inherited) (dep_reason d ''upstream dependency stale'')]), s))))))
      else bindE (leaf_reasons parse db p d type rid pin) (\<lambda>more'. Inr (reasons @ more', s))) (\<lambda>(reasons, s).
        if length reasons \<ge> 64 then Inr (reasons, s\<lparr>bounded := True\<rparr>)
        else fresh_deps parse db p depth ds reasons s))))"
  by pat_completeness auto

termination
  by (relation "inv_image (less_than <*lex*> less_than)
        (\<lambda>x. case x of Inl (parse, db, p, depth, r, s) \<Rightarrow> (34 - depth, 0)
                     | Inr (parse, db, p, depth, ds, reasons, s) \<Rightarrow> (33 - depth, Suc (length ds)))") auto

definition head_moved :: "kb \<Rightarrow> string \<Rightarrow> json \<Rightarrow> bool res" where
  "head_moved db p r =
     bindE (jstr_at ''id'' r) (\<lambda>rid.
       case head_of db p rid of
         None \<Rightarrow> Inr False
       | Some h \<Rightarrow> bindE (jat ''revision'' r) (\<lambda>v. bindE (ji64 v) (\<lambda>i. Inr (int h \<noteq> i))))"

definition decorated :: "(string \<Rightarrow> json res) \<Rightarrow> kb \<Rightarrow> string \<Rightarrow> json \<Rightarrow> json res" where
  "decorated parse db p r =
     bindE (fresh parse db p 0 r \<lparr>visited = 0, bounded = False, on_path = []\<rparr>) (\<lambda>(reasons, s).
     bindE (head_moved db p r) (\<lambda>moved.
       let all = reasons @ (if moved then [reason ''record revision superseded''] else []) in
       Inr (jput ''freshness_complete'' (JBool (\<not> bounded s))
             (jput ''freshness'' (JStr (if bounded s then ''unknown'' else if all = [] then ''current'' else ''stale''))
               (jput ''stale_reasons'' (JArr all) r)))))"

section \<open>The action behind a publication\<close>

definition publication_origin :: "publication \<Rightarrow> json" where
  "publication_origin c = jobj [(''investigation'', JStr (c_investigation c)), (''action'', JStr (c_action c)),
     (''request_sha256'', JStr (c_request_sha c))]"

definition owns_action :: "publication \<Rightarrow> int \<Rightarrow> action_row \<Rightarrow> bool" where
  "owns_action c now a =
     (a_project a = c_project c \<and> a_investigation a = c_investigation c \<and> a_id a = c_action c \<and>
      a_runner a = c_runner c \<and> a_deadline a > now \<and> a_request_hash a = c_request_sha c)"

definition publication_action :: "(string \<Rightarrow> json res) \<Rightarrow> kb \<Rightarrow> publication \<Rightarrow> int \<Rightarrow> json res" where
  "publication_action parse db c now =
     (case find (owns_action c now) (actions db) of
        None \<Rightarrow> throw ''publication runner or request identity lost''
      | Some a \<Rightarrow>
          bindE (parse (a_record a)) (\<lambda>action.
          bindE (jvalue_bool ''dispatch_started'' False action) (\<lambda>started.
            if \<not> started \<or> contains action ''publication'' then throw ''invalid or repeated action publication''
            else
          bindE (jat ''request'' action) (\<lambda>request.
          bindE (jat ''backend'' request) (\<lambda>backend.
            if backend \<noteq> JStr ''workbench'' then throw ''invalid or repeated action publication''
            else
          bindE (dump request) (\<lambda>text.
            throw_if (sha256_text text \<noteq> c_request_sha c) ''invalid or repeated action publication'' (Inr action)))))))"

definition pinned_value :: "kb \<Rightarrow> string \<Rightarrow> string \<Rightarrow> string \<Rightarrow> string option res" where
  "pinned_value db project type rid =
     (if type = ''artifact''
      then Inr (if list_ex (\<lambda>t. t_project t = project \<and> t_sha t = rid) (targets (base db)) then Some rid else None)
      else if type = ''record'' then Inr (map_option to_string (head_of db project rid))
      else if type = ''evidence''
      then Inr (map_option v_revision (find (\<lambda>r. v_project r = project \<and> v_id r = rid) (evidence_rows (base db))))
      else throw ''unsupported publication dependency type'')"

definition check_publication_pin :: "kb \<Rightarrow> string \<Rightarrow> json \<Rightarrow> unit \<Rightarrow> unit res" where
  "check_publication_pin db project pin = (\<lambda>_.
     bindE (jstr_at ''type'' pin) (\<lambda>type. bindE (jstr_at ''id'' pin) (\<lambda>rid.
     bindE (pinned_value db project type rid) (\<lambda>current.
       case current of
         None \<Rightarrow> throw ''dependency pin changed before publication''
       | Some v \<Rightarrow> bindE (jat ''pin'' pin) (\<lambda>w.
           throw_if (w \<noteq> JStr v) ''dependency pin changed before publication'' (Inr ()))))))"

definition check_publication_dependencies ::
  "(string \<Rightarrow> json res) \<Rightarrow> kb \<Rightarrow> publication option \<Rightarrow> int \<Rightarrow> string \<Rightarrow> unit res" where
  "check_publication_dependencies parse db ctx now project =
     (case ctx of
        None \<Rightarrow> Inr ()
      | Some c \<Rightarrow>
          throw_if (c_project c \<noteq> project) ''cross-project publication context'' (
          bindE (publication_action parse db c now) (\<lambda>action.
          bindE (jat ''request'' action) (\<lambda>request.
          bindE (jat ''dependency_pins'' request) (\<lambda>pins.
            foldE (check_publication_pin db project) (jrange pins) ())))))"

definition link_publication ::
  "(string \<Rightarrow> json res) \<Rightarrow> publication option \<Rightarrow> int \<Rightarrow> json \<Rightarrow> string \<Rightarrow> kb \<Rightarrow> kb res" where
  "link_publication parse ctx now r sha db =
     (case ctx of
        None \<Rightarrow> Inr db
      | Some c \<Rightarrow>
          bindE (jat ''project'' r) (\<lambda>rp.
          throw_if (rp \<noteq> JStr (c_project c)) ''cross-project publication context'' (
          bindE (publication_action parse db c now) (\<lambda>action.
          bindE (jat ''id'' r) (\<lambda>rid. bindE (jat ''revision'' r) (\<lambda>rv.
          let linked = jput ''publication'' (jobj [(''knowledge_id'', rid), (''revision'', rv), (''sha256'', JStr sha),
                (''origin'', publication_origin c)]) action
          in
          bindE (dump linked) (\<lambda>text.
            let hit = (\<lambda>a. a_project a = c_project c \<and> a_id a = c_action c \<and> a_runner a = c_runner c) in
            throw_if (length (filter hit (actions db)) \<noteq> 1) ''publication runner changed''
              (Inr (db\<lparr>actions := map (\<lambda>a. if hit a then a\<lparr>a_record := text\<rparr> else a) (actions db)\<rparr>)))))))))"

section \<open>Publishing a record\<close>

definition knowledge_kinds :: "string list" where
  "knowledge_kinds = [''behavior'', ''hypothesis'', ''question'', ''summary'', ''assumption'', ''product'',
     ''transformation'', ''validation'', ''recognition'', ''signature'', ''system_manifest'']"

definition computed_kinds :: "string list" where
  "computed_kinds = [''validation'', ''transformation'', ''system_manifest'']"

definition knowledge_states :: "string list" where
  "knowledge_states = [''observed'', ''derived'', ''inferred'', ''contradicted'', ''unknown'', ''validated'']"

definition check_kind :: "json \<Rightarrow> bool \<Rightarrow> (string \<times> string) res" where
  "check_kind request internal =
     bindE (jstr_at ''kind'' request) (\<lambda>kind.
     throw_if (kind \<notin> set knowledge_kinds) ''unknown knowledge kind'' (
     throw_if (\<not> internal \<and> kind \<in> set computed_kinds)
       ''use validate, transform or system to publish computed records'' (
     bindE (jvalue_str ''state'' ''inferred'' request) (\<lambda>state.
       throw_if (state \<notin> set knowledge_states \<or> (\<not> internal \<and> state = ''validated''))
         ''validated state requires a deterministic validator'' (Inr (kind, state))))))"

definition check_title_scope :: "json \<Rightarrow> (string \<times> json) res" where
  "check_title_scope request =
     bindE (jstr_at ''title'' request) (\<lambda>title.
     throw_if (title = [] \<or> length title > 4096) ''title must contain 1..4096 bytes'' (
     bindE (jat ''scope'' request) (\<lambda>scope.
       throw_if (\<not> is_object scope \<or> jempty scope) ''explicit nonempty scope required'' (Inr (title, scope)))))"

definition array_field :: "json \<Rightarrow> string \<Rightarrow> bool" where
  "array_field body field = (case jat field body of Inr v \<Rightarrow> is_array v | Inl _ \<Rightarrow> False)"

definition check_behavior :: "json \<Rightarrow> unit res" where
  "check_behavior body =
     foldE (\<lambda>field _. throw_if (\<not> array_field body field) (''behavior requires array: '' @ field) (Inr ()))
       [''inputs'', ''outputs'', ''guards'', ''state_changes'', ''side_effects'', ''unknowns''] ()"

definition check_hypothesis :: "json \<Rightarrow> unit res" where
  "check_hypothesis body =
     foldE (\<lambda>field _. throw_if (\<not> contains body field) (''hypothesis requires '' @ field) (Inr ()))
       [''prediction'', ''alternatives'', ''unknowns''] ()"

definition check_signature :: "json \<Rightarrow> unit res" where
  "check_signature body =
     bindE (jstr_at ''sha256'' body) (\<lambda>h. bindE (check_hash h) (\<lambda>_.
     bindE (bound body ''offset'' 0 (512 * 1024 * 1024)) (\<lambda>_.
     bindE (bound body ''size'' 0 (512 * 1024 * 1024)) (\<lambda>_. Inr ()))))"

definition check_body :: "json \<Rightarrow> string \<Rightarrow> json res" where
  "check_body request kind =
     bindE (jat ''body'' request) (\<lambda>body.
     throw_if (\<not> is_object body) ''body must be an object'' (
     bindE (if kind = ''behavior'' then check_behavior body else Inr ()) (\<lambda>_.
     bindE (if kind = ''hypothesis'' then check_hypothesis body else Inr ()) (\<lambda>_.
     bindE (if kind = ''signature'' then check_signature body else Inr ()) (\<lambda>_. Inr body)))))"

type_synonym pinned = "string \<times> string \<times> string"

definition pinned_json :: "pinned \<Rightarrow> json" where
  "pinned_json = (\<lambda>(type, rid, pin). dependency_json type rid pin)"

text \<open>The lambda \<^verbatim>\<open>add\<close>: a dependency is kept once, and never on the record itself.\<close>

definition add_dependency ::
  "(string \<Rightarrow> json res) \<Rightarrow> kb \<Rightarrow> string \<Rightarrow> string \<Rightarrow> json \<Rightarrow> pinned list \<times> string list \<Rightarrow> (pinned list \<times> string list) res" where
  "add_dependency parse db p self input = (\<lambda>(kept, seen).
     bindE (resolve parse db p input) (\<lambda>d.
     throw_if (fst d = ''record'' \<and> fst (snd d) = self) ''self dependency forbidden'' (
     bindE (dump (pinned_json d)) (\<lambda>text.
       Inr (if text \<in> set seen then (kept, seen) else (kept @ [d], text # seen))))))"

definition reference_list :: "json \<Rightarrow> string \<Rightarrow> string \<Rightarrow> json list res" where
  "reference_list request field message =
     bindE (jvalue field (JArr []) request) (\<lambda>refs.
       throw_if (\<not> is_array refs \<or> jsize refs > 128) message (Inr (elems refs)))"

definition evidence_refs :: "json \<Rightarrow> string \<Rightarrow> json list res" where
  "evidence_refs request field =
     bindE (reference_list request field ''evidence references must be arrays <=128'') (\<lambda>refs.
       Inr (map (\<lambda>ref. jobj [(''type'', JStr ''evidence''), (''id'', ref)]) refs))"

definition scope_refs :: "json \<Rightarrow> json list" where
  "scope_refs scope =
     concat (map (\<lambda>(field, type). case jat field scope of
         Inr v \<Rightarrow> [jobj [(''type'', JStr type), (''id'', v)]] | Inl _ \<Rightarrow> [])
       [(''artifact_sha256'', ''artifact''), (''observation_id'', ''observation''), (''epoch_id'', ''epoch'')])"

definition gather_dependencies ::
  "(string \<Rightarrow> json res) \<Rightarrow> kb \<Rightarrow> string \<Rightarrow> string \<Rightarrow> json \<Rightarrow> json \<Rightarrow> pinned list res" where
  "gather_dependencies parse db p self request scope =
     bindE (reference_list request ''dependencies'' ''dependencies must be an array <=128'') (\<lambda>listed.
     bindE (foldE (add_dependency parse db p self) listed ([], [])) (\<lambda>s1.
     bindE (evidence_refs request ''support'') (\<lambda>support.
     bindE (foldE (add_dependency parse db p self) support s1) (\<lambda>s2.
     bindE (evidence_refs request ''counterevidence'') (\<lambda>counter.
     bindE (foldE (add_dependency parse db p self) counter s2) (\<lambda>s3.
     bindE (foldE (add_dependency parse db p self) (scope_refs scope) s3) (\<lambda>(kept, seen).
       throw_if (length kept > 128) ''combined dependencies exceed 128'' (Inr kept))))))))"

definition record_json ::
  "string \<Rightarrow> string \<Rightarrow> nat \<Rightarrow> string \<times> string \<Rightarrow> string \<times> json \<Rightarrow> json \<Rightarrow> pinned list \<Rightarrow> bool \<Rightarrow> json \<Rightarrow> string \<Rightarrow>
   json res" where
  "record_json p rid rv ks ts body ds internal request at' =
     bindE (jvalue ''assumptions'' (JArr []) request) (\<lambda>assumptions.
     throw_if (\<not> is_array assumptions) ''assumptions must be an array'' (
     bindE (jvalue ''support'' (JArr []) request) (\<lambda>support.
     bindE (jvalue ''counterevidence'' (JArr []) request) (\<lambda>counter.
     bindE (jvalue_str ''author'' ''cli'' request) (\<lambda>author.
       Inr (jobj [(''schema'', JStr ''indago.knowledge-record.v1''), (''project'', JStr p), (''id'', JStr rid),
         (''revision'', jint (int rv)), (''kind'', JStr (fst ks)), (''title'', JStr (fst ts)), (''state'', JStr (snd ks)),
         (''scope'', snd ts), (''body'', body), (''assumptions'', assumptions),
         (''dependencies'', JArr (map pinned_json ds)), (''support'', support), (''counterevidence'', counter),
         (''author'', JStr author), (''created_at'', JStr at'),
         (''assertion_origin'', JStr (if internal then ''deterministic_operation'' else ''caller_assertion'')),
         (''semantic_entailment_checked'', JBool False)]))))))"

definition put_head :: "string \<Rightarrow> string \<Rightarrow> nat \<Rightarrow> head_row list \<Rightarrow> head_row list" where
  "put_head p rid rv hs =
     (if list_ex (\<lambda>h. h_project h = p \<and> h_id h = rid) hs
      then map (\<lambda>h. if h_project h = p \<and> h_id h = rid then h\<lparr>h_revision := rv\<rparr> else h) hs
      else hs @ [\<lparr>h_project = p, h_id = rid, h_revision = rv\<rparr>])"

text \<open>The rows of a new revision: the record, its dependencies, the head and the event.\<close>

definition insert_revision :: "string \<Rightarrow> string \<Rightarrow> nat \<Rightarrow> string \<Rightarrow> string \<Rightarrow> pinned list \<Rightarrow> string \<Rightarrow> kb \<Rightarrow> kb res" where
  "insert_revision p rid rv kind text ds at' db =
     (if row_of db p rid rv \<noteq> None then constraint
      else
        bindE (dump (jobj [(''revision'', jint (int rv)), (''sha256'', JStr (sha256_text text))])) (\<lambda>detail.
        Inr (db\<lparr>records := records db @ [\<lparr>k_project = p, k_id = rid, k_revision = rv, k_kind = kind, k_record = text,
                   k_sha = sha256_text text\<rparr>],
               deps := deps db @ map (\<lambda>(type, did, pin). \<lparr>dr_project = p, dr_id = rid, dr_revision = rv, dr_type = type,
                   dr_dependency = did, dr_pin = pin\<rparr>) ds,
               heads := put_head p rid rv (heads db),
               wb_events := wb_events db @ [\<lparr>we_project = p, we_id = rid, we_kind = ''revision_published'', we_at = at',
                   we_record = detail\<rparr>]\<rparr>)))"

definition put_keys :: "string list" where
  "put_keys = [''project'', ''id'', ''expected_revision'', ''kind'', ''title'', ''state'', ''scope'', ''body'',
     ''assumptions'', ''dependencies'', ''support'', ''counterevidence'', ''author'']"

text \<open>The transaction of \<^verbatim>\<open>knowledge_put\<close>; \<open>fresh_id\<close> is the identifier drawn for a request without one.\<close>

definition put_commit ::
  "(string \<Rightarrow> json res) \<Rightarrow> publication option \<Rightarrow> int \<Rightarrow> string \<Rightarrow> string \<Rightarrow> kb \<Rightarrow> json \<Rightarrow> bool \<Rightarrow>
   (string \<times> json \<times> kb) res" where
  "put_commit parse ctx now fresh_id at' db request internal =
     bindE (check_keys request put_keys) (\<lambda>_.
     bindE (wb_project (base db) request) (\<lambda>p.
     bindE (check_publication_dependencies parse db ctx now p) (\<lambda>_.
     bindE (jvalue_str ''id'' fresh_id request) (\<lambda>rid.
     bindE (check_identifier rid) (\<lambda>_.
     bindE (bound request ''expected_revision'' 0 100000000) (\<lambda>expected.
       let actual = (case head_of db p rid of Some h \<Rightarrow> h | None \<Rightarrow> 0) in
     throw_if (expected \<noteq> actual) ''revision_conflict: expected_revision does not match current record'' (
     bindE (check_kind request internal) (\<lambda>ks.
     bindE (check_title_scope request) (\<lambda>ts.
     bindE (check_body request (fst ks)) (\<lambda>body.
     bindE (gather_dependencies parse db p rid request (snd ts)) (\<lambda>ds.
     bindE (record_json p rid (actual + 1) ks ts body ds internal request at') (\<lambda>r0.
       let r = (case ctx of Some c \<Rightarrow> jput ''harness_origin'' (publication_origin c) r0 | None \<Rightarrow> r0) in
     bindE (dump r) (\<lambda>text.
     throw_if (length text > 256 * 1024) ''knowledge record exceeds 256 KiB'' (
     bindE (insert_revision p rid (actual + 1) (fst ks) text ds at' db) (\<lambda>db1.
     bindE (link_publication parse ctx now r (sha256_text text) db1) (\<lambda>db2.
       Inr (p, r, db2)))))))))))))))))"

definition knowledge_put ::
  "(string \<Rightarrow> json res) \<Rightarrow> publication option \<Rightarrow> int \<Rightarrow> string \<Rightarrow> string \<Rightarrow> kb \<Rightarrow> json \<Rightarrow> bool \<Rightarrow>
   (json \<times> kb) res" where
  "knowledge_put parse ctx now fresh_id at' db request internal =
     bindE (put_commit parse ctx now fresh_id at' db request internal) (\<lambda>(p, r, db').
     bindE (decorated parse db' p r) (\<lambda>answer. Inr (answer, db')))"

section \<open>Reading\<close>

definition show_record :: "(string \<Rightarrow> json res) \<Rightarrow> kb \<Rightarrow> string \<Rightarrow> json \<Rightarrow> json res" where
  "show_record parse db p r =
     bindE (jstr_at ''id'' r) (\<lambda>rid.
     bindE (bound r ''revision'' 0 100000000) (\<lambda>rv.
     bindE (load parse db p rid rv) (decorated parse db p)))"

text \<open>The records whose head revision depends on an item: distinct, in order, at most 201.\<close>

definition dependents :: "kb \<Rightarrow> string \<Rightarrow> string \<Rightarrow> string \<Rightarrow> string list" where
  "dependents db p type rid =
     take 201 (remdups_adj (sort (map dr_id
       (filter (\<lambda>d. dr_project d = p \<and> dr_type d = type \<and> dr_dependency d = rid \<and>
          head_of db p (dr_id d) = Some (dr_revision d)) (deps db)))))"

record impact_state =
  i_todo :: "(string \<times> string) list"
  i_seen :: "string list"
  i_rows :: "json list"

fun impact_rows ::
  "(string \<Rightarrow> json res) \<Rightarrow> kb \<Rightarrow> string \<Rightarrow> nat \<Rightarrow> string list \<Rightarrow> impact_state \<Rightarrow> impact_state res" where
  "impact_rows parse db p limit [] s = Inr s"
| "impact_rows parse db p limit (next # rest) s =
     (if next \<in> set (i_seen s) then impact_rows parse db p limit rest s
      else
        bindE (load parse db p next 0) (\<lambda>r. bindE (decorated parse db p r) (\<lambda>row.
          let s' = s\<lparr>i_todo := i_todo s @ [(''record'', next)], i_seen := next # i_seen s, i_rows := i_rows s @ [row]\<rparr>
          in if length (i_rows s') = limit then Inr s' else impact_rows parse db p limit rest s')))"

text \<open>
  The worklist of \<^verbatim>\<open>impact\<close>.  Every pass takes one item and every item but the first came with
  a row, so \<open>limit + 1\<close> passes are always enough.
\<close>

fun impact_loop ::
  "(string \<Rightarrow> json res) \<Rightarrow> kb \<Rightarrow> string \<Rightarrow> nat \<Rightarrow> nat \<Rightarrow> nat \<Rightarrow> impact_state \<Rightarrow> impact_state res option" where
  "impact_loop parse db p limit fuel pos s =
     (if \<not> (pos < length (i_todo s) \<and> length (i_rows s) < limit) then Some (Inr s)
      else case fuel of
        0 \<Rightarrow> None
      | Suc f \<Rightarrow>
          (case impact_rows parse db p limit
                  (dependents db p (fst (i_todo s ! pos)) (snd (i_todo s ! pos))) s of
             Inl e \<Rightarrow> Some (Inl e)
           | Inr s' \<Rightarrow> impact_loop parse db p limit f (Suc pos) s'))"

declare impact_loop.simps [simp del]

definition impact :: "(string \<Rightarrow> json res) \<Rightarrow> kb \<Rightarrow> string \<Rightarrow> json \<Rightarrow> nat \<Rightarrow> json res option" where
  "impact parse db p r limit =
     (case bindE (jstr_at ''id'' r) (\<lambda>rid. bindE (jvalue_str ''type'' ''record'' r) (\<lambda>type. Inr (type, rid))) of
        Inl e \<Rightarrow> Some (Inl e)
      | Inr start \<Rightarrow>
          map_option (\<lambda>m. bindE m (\<lambda>s.
            Inr (jobj [(''schema'', JStr ''indago.knowledge-impact.v1''), (''records'', JArr (i_rows s)),
              (''partial'', JBool (length (i_rows s) = limit)),
              (''interpretation'', JStr ''Dependency impact, not a claim that affected conclusions are false'')])))
            (impact_loop parse db p limit (limit + 1) 0 \<lparr>i_todo = [start], i_seen = [], i_rows = []\<rparr>))"

text \<open>The rows of a listing: kind, search text and artifact match, heads only unless history is asked.\<close>

definition scope_artifact :: "(string \<Rightarrow> json res) \<Rightarrow> string \<Rightarrow> string option" where
  "scope_artifact parse text =
     (case bindE (parse text) (\<lambda>j. bindE (jat ''scope'' j) (jstr_at ''artifact_sha256'')) of
        Inr a \<Rightarrow> Some a | Inl _ \<Rightarrow> None)"

definition listed :: "(string \<Rightarrow> json res) \<Rightarrow> kb \<Rightarrow> string \<Rightarrow> string \<Rightarrow> string \<Rightarrow> string \<Rightarrow> bool \<Rightarrow> record_row \<Rightarrow> bool" where
  "listed parse db p kind search artifact history r =
     (k_project r = p \<and> (kind = [] \<or> k_kind r = kind) \<and>
      str_find (lower_string search) (lower_string (k_record r)) \<noteq> None \<and>
      (artifact = [] \<or> scope_artifact parse (k_record r) = Some artifact) \<and>
      (history \<or> head_of db p (k_id r) = Some (k_revision r)))"

definition list_records :: "(string \<Rightarrow> json res) \<Rightarrow> kb \<Rightarrow> string \<Rightarrow> json \<Rightarrow> nat \<Rightarrow> nat \<Rightarrow> json res" where
  "list_records parse db p r limit offset =
     bindE (jvalue_bool ''history'' False r) (\<lambda>history.
     bindE (jvalue_str ''kind'' [] r) (\<lambda>kind.
     bindE (jvalue_str ''artifact'' [] r) (\<lambda>artifact.
     bindE (if artifact = [] then Inr () else check_hash artifact) (\<lambda>_.
     bindE (jvalue_str ''search'' [] r) (\<lambda>search.
       let found = take (Suc limit) (drop offset (sort_key (\<lambda>r. (k_id r, k_revision r))
             (filter (listed parse db p kind search artifact history) (records db))))
       in bindE (mapE (\<lambda>row. bindE (load parse db p (k_id row) (k_revision row)) (decorated parse db p))
                   (take limit found)) (\<lambda>rows.
         Inr (jobj [(''schema'', JStr ''indago.knowledge-list.v1''), (''records'', JArr rows),
           (''next_offset'', if length found > limit then jnat (offset + length rows) else JNull),
           (''freshness_policy'', JStr ''computed transitively from pinned dependencies; source claims remain immutable'')])))))))"

definition knowledge_read :: "(string \<Rightarrow> json res) \<Rightarrow> kb \<Rightarrow> string \<Rightarrow> json \<Rightarrow> json res option" where
  "knowledge_read parse db op r =
     (case bindE (check_keys r [''project'', ''id'', ''revision'', ''kind'', ''search'', ''limit'', ''offset'', ''history'',
             ''type'', ''artifact'']) (\<lambda>_. wb_project (base db) r) of
        Inl e \<Rightarrow> Some (Inl e)
      | Inr p \<Rightarrow>
          if op = ''show'' then Some (show_record parse db p r)
          else case bindE (bound r ''limit'' 50 200) (\<lambda>limit. bindE (bound r ''offset'' 0 10000000) (\<lambda>offset.
                      throw_if (limit = 0) ''limit must be positive'' (Inr (limit, offset)))) of
                 Inl e \<Rightarrow> Some (Inl e)
               | Inr (limit, offset) \<Rightarrow>
                   if op = ''impact'' then impact parse db p r limit
                   else if op \<noteq> ''list'' \<and> op \<noteq> ''refresh'' then Some (throw ''unknown knowledge operation'')
                   else Some (list_records parse db p r limit offset))"

end
