(* ===== verification/Ind_Revision.thy ===== *)
theory Ind_Revision
  imports Ind_Knowledge Ind_Weight "HOL-Library.Sublist"
begin

text \<open>
  The knowledge base as a store of versioned values: what \<^verbatim>\<open>knowledge_put\<close> promises of the
  revisions of a record.  The contract is stated as a locale, proved for the model of the code and
  used for the properties: expectations are checked, histories only grow, no update is lost.
\<close>

section \<open>The contract of a versioned store\<close>

text \<open>
  A step is labelled with the key and the expected version of a publication, or with nothing when it
  changes something else.
\<close>

locale versioned =
  fixes ok :: "'s \<Rightarrow> bool"
    and hist :: "'s \<Rightarrow> 'k \<Rightarrow> 'v list"
    and move :: "('k \<times> nat) option \<Rightarrow> 's \<Rightarrow> 's \<Rightarrow> bool"
  assumes move_ok: "ok s \<Longrightarrow> move l s s' \<Longrightarrow> ok s'"
    and move_expected: "ok s \<Longrightarrow> move (Some (k, e)) s s' \<Longrightarrow> e = length (hist s k)"
    and move_put: "ok s \<Longrightarrow> move (Some (k, e)) s s' \<Longrightarrow> \<exists>v. hist s' = (hist s)(k := hist s k @ [v])"
    and move_other: "ok s \<Longrightarrow> move None s s' \<Longrightarrow> hist s' = hist s"
begin

definition moves :: "'s \<Rightarrow> 's \<Rightarrow> bool" where
  "moves = (\<lambda>s s'. \<exists>l. move l s s')\<^sup>*\<^sup>*"

lemma moves_ok: "moves s s' \<Longrightarrow> ok s \<Longrightarrow> ok s'"
  unfolding moves_def by (induction rule: rtranclp_induct) (auto intro: move_ok)

lemma move_prefix: "ok s \<Longrightarrow> move l s s' \<Longrightarrow> prefix (hist s k) (hist s' k)"
  using move_put move_other by (cases l) (fastforce split: if_splits)+

lemma moves_prefix: "moves s s' \<Longrightarrow> ok s \<Longrightarrow> prefix (hist s k) (hist s' k)"
  unfolding moves_def
proof (induction rule: rtranclp_induct)
  case (step y z)
  have "ok y" using step.hyps(1) step.prems moves_ok unfolding moves_def by blast
  then have "prefix (hist y k) (hist z k)" using step.hyps(2) move_prefix by blast
  then show ?case using step.IH step.prems prefix_order.trans by blast
qed simp

lemma version_stays:
  assumes "moves s s'" "ok s" "n < length (hist s k)"
  shows "n < length (hist s' k) \<and> hist s' k ! n = hist s k ! n"
  using moves_prefix[OF assms(1,2), of k] assms(3) by (auto simp: prefix_def nth_append)

lemma put_once:
  assumes ok: "ok s" and first: "move (Some (k, e)) s s1" and between: "moves s1 s2"
    and second: "move (Some (k, e')) s2 s3"
  shows "e < e'"
proof -
  obtain v where "hist s1 = (hist s)(k := hist s k @ [v])" using move_put[OF ok first] by blast
  then have "e < length (hist s1 k)" using move_expected[OF ok first] by simp
  also have "\<dots> \<le> length (hist s2 k)"
    using moves_prefix[OF between move_ok[OF ok first], of k] by (simp add: prefix_length_le)
  also have "\<dots> = e'" using move_expected[OF moves_ok[OF between move_ok[OF ok first]] second] by simp
  finally show ?thesis .
qed

end

section \<open>The rows of a record\<close>

definition rows :: "kb \<Rightarrow> string \<Rightarrow> string \<Rightarrow> record_row list" where
  "rows db p rid = filter (\<lambda>r. k_project r = p \<and> k_id r = rid) (records db)"

text \<open>Heads count the rows, revisions are numbered from 1, texts are intact, dependencies have a record.\<close>

definition kb_ok :: "kb \<Rightarrow> bool" where
  "kb_ok db \<longleftrightarrow>
     (\<forall>p rid. map k_revision (rows db p rid) = [1..<Suc (length (rows db p rid))] \<and>
        head_of db p rid = (if rows db p rid = [] then None else Some (length (rows db p rid)))) \<and>
     (\<forall>r \<in> set (records db). k_sha r = sha256_text (k_record r)) \<and>
     (\<forall>d \<in> set (deps db). 0 < dr_revision d \<and> dr_revision d \<le> length (rows db (dr_project d) (dr_id d)))"

definition texts :: "kb \<Rightarrow> string \<times> string \<Rightarrow> string list" where
  "texts db = (\<lambda>(p, rid). map k_record (rows db p rid))"

inductive kb_step :: "(string \<Rightarrow> json res) \<Rightarrow> ((string \<times> string) \<times> nat) option \<Rightarrow> kb \<Rightarrow> kb \<Rightarrow> bool" for parse where
  published: "put_commit parse ctx now fresh_id at' db request internal = Inr (p, r, db') \<Longrightarrow>
     jvalue_str ''id'' fresh_id request = Inr rid \<Longrightarrow>
     bound request ''expected_revision'' 0 100000000 = Inr e \<Longrightarrow>
     kb_step parse (Some ((p, rid), e)) db db'"
| elsewhere: "records db' = records db \<Longrightarrow> heads db' = heads db \<Longrightarrow> deps db' = deps db \<Longrightarrow>
     kb_step parse None db db'"

inductive_cases kb_step_putE: "kb_step parse (Some k) db db'"
inductive_cases kb_step_noneE: "kb_step parse None db db'"

lemma row_of_rows:
  assumes "kb_ok db"
  shows "row_of db p rid n = (if 0 < n \<and> n \<le> length (rows db p rid) then Some (rows db p rid ! (n - 1)) else None)"
proof -
  have "row_of db p rid n = find (\<lambda>r. k_revision r = n) (rows db p rid)"
    unfolding row_of_def rows_def find_filter by (simp add: conj_assoc)
  then show ?thesis using find_numbered[of k_revision "rows db p rid" n] assms unfolding kb_ok_def by auto
qed

lemma head_of_rows: "kb_ok db \<Longrightarrow> (case head_of db p rid of Some h \<Rightarrow> h | None \<Rightarrow> 0) = length (rows db p rid)"
  unfolding kb_ok_def by auto

lemma load_text_rows:
  assumes "kb_ok db" "0 < n"
  shows "load_text db p rid n =
    (if n \<le> length (rows db p rid) then Inr (texts db (p, rid) ! (n - 1)) else throw (''unknown knowledge revision: '' @ rid))"
proof (cases "n \<le> length (rows db p rid)")
  case True
  then have "rows db p rid ! (n - 1) \<in> set (records db)"
    using assms(2) nth_mem[of "n - 1" "rows db p rid"] by (auto simp: rows_def)
  then show ?thesis using assms True unfolding load_text_def row_of_rows[OF assms(1)]
    by (auto simp: texts_def kb_ok_def)
next
  case False
  then show ?thesis using assms by (simp add: load_text_def row_of_rows)
qed

lemma load_text_head:
  assumes "kb_ok db"
  shows "load_text db p rid 0 =
    (if texts db (p, rid) = [] then throw (''unknown knowledge revision: '' @ rid) else Inr (last (texts db (p, rid))))"
proof (cases "rows db p rid = []")
  case True
  then have "head_of db p rid = None" using assms unfolding kb_ok_def by simp
  then show ?thesis using True by (simp add: load_text_def texts_def)
next
  case False
  then have "head_of db p rid = Some (length (rows db p rid))" using assms unfolding kb_ok_def by simp
  then have "load_text db p rid 0 = load_text db p rid (length (rows db p rid))"
    using False by (simp add: load_text_def)
  then show ?thesis using False load_text_rows[OF assms, of "length (rows db p rid)" p rid]
    by (simp add: texts_def last_conv_nth)
qed

section \<open>One publication\<close>

lemma insert_revision_eq:
  assumes "insert_revision p rid rv kind text ds at' db = Inr db'"
  shows "records db' = records db @ [\<lparr>k_project = p, k_id = rid, k_revision = rv, k_kind = kind, k_record = text,
           k_sha = sha256_text text\<rparr>]"
    "heads db' = put_head p rid rv (heads db)"
    "deps db' = deps db @ map (\<lambda>(type, did, pin). \<lparr>dr_project = p, dr_id = rid, dr_revision = rv, dr_type = type,
           dr_dependency = did, dr_pin = pin\<rparr>) ds"
  using assms unfolding insert_revision_def by (auto split: if_splits)

lemma link_publication_same:
  "link_publication parse ctx now r sha db = Inr db' \<Longrightarrow>
     records db' = records db \<and> heads db' = heads db \<and> deps db' = deps db"
  unfolding link_publication_def Let_def by (auto split: option.splits elim!: bindE_elims)

lemma put_commit_inv:
  assumes "put_commit parse ctx now fresh_id at' db request internal = Inr (p, r, db')"
  obtains rid kind t ds db1 where
    "jvalue_str ''id'' fresh_id request = Inr rid"
    "bound request ''expected_revision'' 0 100000000 = Inr (case head_of db p rid of Some h \<Rightarrow> h | None \<Rightarrow> 0)"
    "dump r = Inr t" "length t \<le> 256 * 1024"
    "insert_revision p rid ((case head_of db p rid of Some h \<Rightarrow> h | None \<Rightarrow> 0) + 1) kind t ds at' db = Inr db1"
    "link_publication parse ctx now r (sha256_text t) db1 = Inr db'"
proof -
  show ?thesis using assms unfolding put_commit_def Let_def
    by (elim bindE_elims) (auto simp: not_less intro!: that)
qed


lemma jvalue_str_id: "jvalue_str k d j = Inr s \<Longrightarrow> jvalue_str k d j = Inr t \<Longrightarrow> s = t"
  by simp

lemma put_head_find:
  "find (\<lambda>h. h_project h = p' \<and> h_id h = rid') (put_head p rid rv hs) =
   (if p' = p \<and> rid' = rid
    then Some (case find (\<lambda>h. h_project h = p \<and> h_id h = rid) hs of
       Some h \<Rightarrow> h\<lparr>h_revision := rv\<rparr> | None \<Rightarrow> \<lparr>h_project = p, h_id = rid, h_revision = rv\<rparr>)
    else find (\<lambda>h. h_project h = p' \<and> h_id h = rid') hs)"
proof (cases "list_ex (\<lambda>h. h_project h = p \<and> h_id h = rid) hs")
  case True
  then have "find (\<lambda>h. h_project h = p \<and> h_id h = rid) hs \<noteq> None" by (auto simp: find_None_iff list_ex_iff)
  then show ?thesis using True unfolding put_head_def
    by (subst if_P, simp, subst find_map_same) (auto dest: find_SomeD intro!: option.map_ident_strong)
next
  case False
  then have "find (\<lambda>h. h_project h = p \<and> h_id h = rid) hs = None" by (auto simp: find_None_iff list_ex_iff)
  then show ?thesis using False unfolding put_head_def by (auto simp: find_append split: option.splits)
qed

lemma head_of_put:
  "heads db' = put_head p rid rv (heads db) \<Longrightarrow>
   head_of db' p' rid' = (if p' = p \<and> rid' = rid then Some rv else head_of db p' rid')"
  unfolding head_of_def by (simp add: put_head_find split: option.splits)

text \<open>A successful publication: the expectation, the new history and the invariant.\<close>

lemma publish_step:
  assumes put: "put_commit parse ctx now fresh_id at' db request internal = Inr (p, r, db')"
    and rid: "jvalue_str ''id'' fresh_id request = Inr rid"
    and e: "bound request ''expected_revision'' 0 100000000 = Inr e"
    and ok: "kb_ok db"
  shows "e = length (texts db (p, rid)) \<and> kb_ok db' \<and>
     (\<exists>t. dump r = Inr t \<and> length t \<le> 256 * 1024 \<and> texts db' = (texts db)((p, rid) := texts db (p, rid) @ [t]))"
proof -
  obtain rid' kind t ds db1 where
    rid': "jvalue_str ''id'' fresh_id request = Inr rid'"
    and e': "bound request ''expected_revision'' 0 100000000 = Inr (case head_of db p rid' of Some h \<Rightarrow> h | None \<Rightarrow> 0)"
    and t: "dump r = Inr t" "length t \<le> 256 * 1024"
    and ins: "insert_revision p rid' ((case head_of db p rid' of Some h \<Rightarrow> h | None \<Rightarrow> 0) + 1) kind t ds at' db = Inr db1"
    and lnk: "link_publication parse ctx now r (sha256_text t) db1 = Inr db'"
    using put_commit_inv[OF put] by metis
  have [simp]: "rid' = rid" using rid rid' by simp
  have old: "(case head_of db p rid of Some h \<Rightarrow> h | None \<Rightarrow> 0) = length (rows db p rid)" using head_of_rows[OF ok] .
  note new = insert_revision_eq[OF ins[unfolded \<open>rid' = rid\<close> old]] link_publication_same[OF lnk]
  have rows': "rows db' p' i = (if p' = p \<and> i = rid
      then rows db p rid @ [\<lparr>k_project = p, k_id = rid, k_revision = Suc (length (rows db p rid)), k_kind = kind,
             k_record = t, k_sha = sha256_text t\<rparr>]
      else rows db p' i)" for p' i
    using new(1,4) by (auto simp: rows_def)
  have heads': "head_of db' p' i = (if p' = p \<and> i = rid then Some (Suc (length (rows db p rid))) else head_of db p' i)" for p' i
    using new by (intro head_of_put) simp
  have "kb_ok db'"
    unfolding kb_ok_def
  proof (intro conjI allI ballI)
    fix p' i
    show "map k_revision (rows db' p' i) = [1..<Suc (length (rows db' p' i))]"
      using ok unfolding kb_ok_def rows'
      by (cases "p' = p \<and> i = rid") (simp_all add: upt_Suc_append del: upt_Suc)
    show "head_of db' p' i = (if rows db' p' i = [] then None else Some (length (rows db' p' i)))"
      using ok unfolding kb_ok_def rows' heads' by auto
  next
    fix x assume "x \<in> set (records db')"
    then show "k_sha x = sha256_text (k_record x)" using ok new unfolding kb_ok_def by auto
  next
    fix d assume d: "d \<in> set (deps db')"
    show "0 < dr_revision d"
      using ok new d unfolding kb_ok_def by auto
    show "dr_revision d \<le> length (rows db' (dr_project d) (dr_id d))"
    proof (cases "d \<in> set (deps db)")
      case True
      then have "dr_revision d \<le> length (rows db (dr_project d) (dr_id d))" using ok unfolding kb_ok_def by blast
      then show ?thesis unfolding rows' by auto
    next
      case False
      then have "dr_project d = p \<and> dr_id d = rid \<and> dr_revision d = Suc (length (rows db p rid))"
        using d new by auto
      then show ?thesis unfolding rows' by auto
    qed
  qed
  moreover have "texts db' = (texts db)((p, rid) := texts db (p, rid) @ [t])"
    by (rule ext) (simp add: texts_def rows' split: prod.split)
  moreover have "e = length (texts db (p, rid))" using e e' old by (simp add: texts_def)
  ultimately show ?thesis using t by blast
qed

lemma elsewhere_same:
  assumes "records db' = records db" "heads db' = heads db" "deps db' = deps db"
  shows "texts db' = texts db" "kb_ok db' = kb_ok db"
proof -
  have r: "rows db' = rows db" and h: "head_of db' = head_of db"
    using assms by (auto simp: rows_def head_of_def fun_eq_iff)
  show "texts db' = texts db" unfolding texts_def r ..
  show "kb_ok db' = kb_ok db" unfolding kb_ok_def r h assms ..
qed

interpretation kv: versioned kb_ok texts "kb_step parse"
proof
  fix db db' :: kb and l
  assume ok: "kb_ok db" and step: "kb_step parse l db db'"
  show "kb_ok db'"
    using step ok publish_step elsewhere_same(2) by (cases rule: kb_step.cases) blast+
next
  fix db db' :: kb and k e
  assume ok: "kb_ok db" and step: "kb_step parse (Some (k, e)) db db'"
  show "e = length (texts db k)"
    using step ok publish_step by (cases rule: kb_step.cases) blast+
  show "\<exists>v. texts db' = (texts db)(k := texts db k @ [v])"
    using step ok publish_step by (cases rule: kb_step.cases) blast+
next
  fix db db' :: kb
  assume step: "kb_step parse None db db'"
  from step show "texts db' = texts db"
    by (elim kb_step_noneE) (rule elsewhere_same(1))
qed

section \<open>Freshness\<close>

text \<open>
  What \<open>current\<close> claims: every dependency of the record is pinned at the present state of what it
  names, and so are, for records, the dependencies of the pinned revision.
\<close>

definition leaf_current :: "(string \<Rightarrow> json res) \<Rightarrow> kb \<Rightarrow> string \<Rightarrow> string \<Rightarrow> string \<Rightarrow> string \<Rightarrow> bool" where
  "leaf_current parse db p type rid pin =
     (if type = ''artifact'' then (\<exists>path w. object_path rid = Inr path \<and> objects (base db) path = Some w)
      else if type = ''observation'' \<or> type = ''epoch'' then runtime_pin db p type rid = Inr pin
      else (p, pin) \<in> set (current_revisions db) \<and> \<not> program_advanced db p pin)"

inductive up_to_date :: "(string \<Rightarrow> json res) \<Rightarrow> kb \<Rightarrow> string \<Rightarrow> json \<Rightarrow> bool"
  and pin_current :: "(string \<Rightarrow> json res) \<Rightarrow> kb \<Rightarrow> string \<Rightarrow> json \<Rightarrow> bool" for parse db p where
  up_to_date: "jat ''dependencies'' r = Inr ds \<Longrightarrow> (\<And>d. d \<in> set (jrange ds) \<Longrightarrow> pin_current parse db p d) \<Longrightarrow>
     up_to_date parse db p r"
| pinned_record: "jat ''type'' d = Inr (JStr ''record'') \<Longrightarrow> jat ''id'' d = Inr (JStr rid) \<Longrightarrow>
     jat ''pin'' d = Inr (JStr pin) \<Longrightarrow> load parse db p rid 0 = Inr current \<Longrightarrow>
     int32_text ''revision'' current = Inr pin \<Longrightarrow> stoll pin = Inr n \<Longrightarrow> load parse db p rid n = Inr old \<Longrightarrow>
     up_to_date parse db p old \<Longrightarrow> pin_current parse db p d"
| pinned_leaf: "jat ''type'' d = Inr (JStr type) \<Longrightarrow> type \<noteq> ''record'' \<Longrightarrow> jat ''id'' d = Inr (JStr rid) \<Longrightarrow>
     jat ''pin'' d = Inr (JStr pin) \<Longrightarrow> leaf_current parse db p type rid pin \<Longrightarrow> pin_current parse db p d"

declare fresh.simps [simp del] fresh_deps.simps [simp del]

lemma fresh_deps_Cons_record:
  assumes "fresh_deps parse db p depth (d # ds) reasons s = Inr (out, s')" "jat ''type'' d = Inr (JStr ''record'')"
  obtains rid pin current rv n old inherited s1 reasons1 where
    "jat ''id'' d = Inr (JStr rid)" "jat ''pin'' d = Inr (JStr pin)" "load parse db p rid 0 = Inr current"
    "int32_text ''revision'' current = Inr rv" "stoll pin = Inr n" "load parse db p rid n = Inr old"
    "fresh parse db p (Suc depth) old s = Inr (inherited, s1)"
    "reasons1 = (reasons @ (if rv \<noteq> pin then [dep_reason d ''record revised''] else [])) @ (if inherited = [] then []
        else [jput ''upstream'' (JArr inherited) (dep_reason d ''upstream dependency stale'')])"
    "if length reasons1 \<ge> 64 then out = reasons1 \<and> s' = s1\<lparr>bounded := True\<rparr>
     else fresh_deps parse db p depth ds reasons1 s1 = Inr (out, s')"
  using assms unfolding fresh_deps.simps Let_def
  by (elim bindE_elims) (auto split: if_splits intro!: that)

lemma fresh_deps_Cons_leaf:
  assumes "fresh_deps parse db p depth (d # ds) reasons s = Inr (out, s')" "jat ''type'' d \<noteq> Inr (JStr ''record'')"
  obtains type rid pin new where
    "jat ''type'' d = Inr (JStr type)" "type \<noteq> ''record''" "jat ''id'' d = Inr (JStr rid)" "jat ''pin'' d = Inr (JStr pin)"
    "leaf_reasons parse db p d type rid pin = Inr new"
    "if length (reasons @ new) \<ge> 64 then out = reasons @ new \<and> s' = s\<lparr>bounded := True\<rparr>
     else fresh_deps parse db p depth ds (reasons @ new) s = Inr (out, s')"
  using assms unfolding fresh_deps.simps Let_def
  by (elim bindE_elims) (auto split: if_splits intro!: that)

lemma leaf_reasons_current: "leaf_reasons parse db p d type rid pin = Inr [] \<Longrightarrow> leaf_current parse db p type rid pin"
  unfolding leaf_reasons_def leaf_current_def
  by (auto simp: current_pin_def superseded_def list_ex_iff split: if_splits sum.splits elim!: bindE_elims)

lemma leaf_reasons_length: "leaf_reasons parse db p d type rid pin = Inr new \<Longrightarrow> length new \<le> 2"
  unfolding leaf_reasons_def by (auto split: if_splits sum.splits elim!: bindE_elims)

text \<open>
  A reason that says that the traversal was cut: it is the limit itself, or what lies upstream of it was cut or
  was too long to be listed.
\<close>

inductive cut_short :: "json \<Rightarrow> bool" where
  cut_here: "jat ''reason'' j = Inr (JStr ''dependency traversal limit'') \<Longrightarrow> cut_short j"
| cut_list: "jat ''upstream'' j = Inr (JArr rs) \<Longrightarrow> 64 \<le> length rs \<Longrightarrow> cut_short j"
| cut_above: "jat ''upstream'' j = Inr (JArr rs) \<Longrightarrow> r \<in> set rs \<Longrightarrow> cut_short r \<Longrightarrow> cut_short j"

inductive_simps cut_short_simps: "cut_short j"

lemma cut_short_reasons:
  "why \<noteq> ''dependency traversal limit'' \<Longrightarrow> \<not> cut_short (dep_reason d why)"
  "why \<noteq> ''dependency traversal limit'' \<Longrightarrow> \<not> cut_short (reason why)"
  "cut_short (reason ''dependency traversal limit'')"
  "cut_short (jput ''upstream'' (JArr rs) (dep_reason d ''upstream dependency stale'')) \<longleftrightarrow>
     64 \<le> length rs \<or> (\<exists>r \<in> set rs. cut_short r)"
  by (subst cut_short_simps; auto simp: dep_reason_def reason_def json_simps)+

lemma leaf_reasons_uncut: "leaf_reasons parse db p d type rid pin = Inr new \<Longrightarrow> x \<in> set new \<Longrightarrow> \<not> cut_short x"
  unfolding leaf_reasons_def by (auto simp: cut_short_reasons split: if_splits sum.splits elim!: bindE_elims)

lemma fresh_cases:
  assumes "fresh parse db p depth r s = Inr (out, s')"
  obtains (limit) "out = [reason ''dependency traversal limit'']" "bounded s'" "on_path s' = on_path s"
  | (cycle) "out = [reason ''dependency cycle'']" "s' = s\<lparr>visited := Suc (visited s)\<rparr>" "Suc (visited s) \<le> 4096"
  | (deps) key ds s1 where "key \<notin> set (on_path s)" "jat ''dependencies'' r = Inr ds"
      "fresh_deps parse db p depth (jrange ds) [] (s\<lparr>visited := Suc (visited s), on_path := key # on_path s\<rparr>) = Inr (out, s1)"
      "s' = s1\<lparr>on_path := filter (\<lambda>x. x \<noteq> key) (on_path s1)\<rparr>" "Suc (visited s) \<le> 4096"
proof (cases "depth > 32 \<or> Suc (visited s) > 4096")
  case True
  then have "out = [reason ''dependency traversal limit''] \<and> bounded s' \<and> on_path s' = on_path s"
    using assms unfolding fresh.simps[of parse db p depth r s] Let_def by (auto split: if_splits)
  then show ?thesis using limit by blast
next
  case False
  then show ?thesis using assms
    apply (auto simp: fresh.simps[of parse db p depth r s] Let_def split: if_splits elim!: bindE_elims)
    subgoal by (rule cycle) simp_all
    subgoal by (rule deps) simp_all
    done
qed

text \<open>Induction over the traversal: what holds one level deeper holds here.\<close>

lemma fresh_rule [consumes 1, case_names limit level]:
  assumes "fresh parse db p depth r s = Inr (out, s')"
    and limit: "\<And>r s s'. bounded s' \<Longrightarrow> on_path s' = on_path s \<Longrightarrow> P r s [reason ''dependency traversal limit''] s'"
    and level: "\<And>depth r s out s'. fresh parse db p depth r s = Inr (out, s') \<Longrightarrow>
      (\<And>r s out s'. fresh parse db p (Suc depth) r s = Inr (out, s') \<Longrightarrow> P r s out s') \<Longrightarrow> P r s out s'"
  shows "P r s out s'"
  using assms(1)
proof (induction "33 - depth" arbitrary: depth r s out s' rule: less_induct)
  case less
  show ?case
  proof (cases "depth > 32")
    case True
    then have "out = [reason ''dependency traversal limit''] \<and> bounded s' \<and> on_path s' = on_path s"
      using less.prems unfolding fresh.simps[of parse db p depth r s] by auto
    then show ?thesis using limit by blast
  next
    case False
    show ?thesis
    proof (rule level[OF less.prems])
      fix r s out s' assume "fresh parse db p (Suc depth) r s = Inr (out, s')"
      then show "P r s out s'" using less.hyps[of "Suc depth"] False by auto
    qed
  qed
qed

text \<open>What one traversal promises, and what its loop over the dependencies keeps.\<close>

definition traversed :: "fresh_state \<Rightarrow> json list \<Rightarrow> fresh_state \<Rightarrow> bool" where
  "traversed s out s' \<longleftrightarrow> length out \<le> 65 \<and> on_path s' = on_path s \<and> (bounded s \<longrightarrow> bounded s') \<and>
     (64 \<le> length out \<or> (\<exists>x \<in> set out. cut_short x) \<longrightarrow> bounded s') \<and>
     (\<not> bounded s' \<longrightarrow> visited s < visited s' \<and> visited s' \<le> 4096)"

definition gathered :: "fresh_state \<Rightarrow> json list \<Rightarrow> fresh_state \<Rightarrow> bool" where
  "gathered s out s' \<longleftrightarrow> length out \<le> 65 \<and> on_path s' = on_path s \<and> (bounded s \<longrightarrow> bounded s') \<and>
     (64 \<le> length out \<or> (\<exists>x \<in> set out. cut_short x) \<longrightarrow> bounded s') \<and>
     (\<not> bounded s' \<longrightarrow> visited s \<le> visited s' \<and> visited s' \<le> 4096)"

lemma fresh_deps_bounds:
  assumes deeper: "\<And>r s out s'. fresh parse db p (Suc depth) r s = Inr (out, s') \<Longrightarrow> traversed s out s'"
    and "fresh_deps parse db p depth ds reasons s = Inr (out, s')" "length reasons < 64"
    and "\<forall>x \<in> set reasons. cut_short x \<longrightarrow> bounded s" "visited s \<le> 4096 \<or> bounded s"
  shows "gathered s out s'"
  using assms(2-)
proof (induction ds arbitrary: reasons s)
  case Nil
  then show ?case by (auto simp: fresh_deps.simps gathered_def)
next
  case (Cons d ds)
  show ?case
  proof (cases "jat ''type'' d = Inr (JStr ''record'')")
    case True
    from Cons.prems(1) True show ?thesis
    proof (cases rule: fresh_deps_Cons_record)
      case (1 rid pin current rv n old inherited s1 reasons1)
      note t = deeper[OF 1(7), unfolded traversed_def]
      have uncut: "\<forall>x \<in> set reasons1. cut_short x \<longrightarrow> bounded s1"
        using t Cons.prems(3) unfolding 1(8) by (auto simp: cut_short_reasons)
      have "length reasons1 \<le> 65" "visited s1 \<le> 4096 \<or> bounded s1" using t 1(8) Cons.prems(2) by auto
      then show ?thesis using 1(9) Cons.IH[of reasons1 s1] uncut t by (auto simp: gathered_def split: if_splits)
    qed
  next
    case False
    from Cons.prems(1) False show ?thesis
    proof (cases rule: fresh_deps_Cons_leaf)
      case (1 type rid pin new)
      have "\<forall>x \<in> set (reasons @ new). cut_short x \<longrightarrow> bounded s" using leaf_reasons_uncut[OF 1(5)] Cons.prems(3) by auto
      then show ?thesis using 1 leaf_reasons_length[OF 1(5)] Cons.prems(2,4) Cons.IH[of "reasons @ new" s]
        by (auto simp: gathered_def split: if_splits)
    qed
  qed
qed

lemma fresh_bounds:
  assumes "fresh parse db p depth r s = Inr (out, s')"
  shows "traversed s out s'"
  using assms
proof (induction rule: fresh_rule)
  case (level depth r s out s')
  from level.hyps show ?case
  proof (cases rule: fresh_cases)
    case (deps key ds s1)
    then have "gathered (s\<lparr>visited := Suc (visited s), on_path := key # on_path s\<rparr>) out s1"
      by (intro fresh_deps_bounds[OF level.IH deps(3)]) simp_all
    then show ?thesis using deps(1,4) by (auto simp: gathered_def traversed_def filter_id_conv)
  qed (simp_all add: traversed_def cut_short_reasons)
qed (simp add: traversed_def)

lemma fresh_deps_current:
  assumes deeper: "\<And>r s out s'. fresh parse db p (Suc depth) r s = Inr (out, s') \<Longrightarrow> out = [] \<Longrightarrow> up_to_date parse db p r"
    and "fresh_deps parse db p depth ds reasons s = Inr ([], s')"
  shows "reasons = [] \<and> (\<forall>d \<in> set ds. pin_current parse db p d)"
  using assms(2)
proof (induction ds arbitrary: reasons s)
  case Nil
  then show ?case by (simp add: fresh_deps.simps)
next
  case (Cons d ds)
  show ?case
  proof (cases "jat ''type'' d = Inr (JStr ''record'')")
    case True
    from Cons.prems(1) True show ?thesis
    proof (cases rule: fresh_deps_Cons_record)
      case (1 rid pin current rv n old inherited s1 reasons1)
      then have "reasons1 = [] \<and> (\<forall>d \<in> set ds. pin_current parse db p d)"
        using Cons.IH[of reasons1 s1] by (auto split: if_splits)
      then show ?thesis using 1 True deeper[OF 1(7)] by (auto split: if_splits intro: pinned_record)
    qed
  next
    case False
    from Cons.prems(1) False show ?thesis
    proof (cases rule: fresh_deps_Cons_leaf)
      case (1 type rid pin new)
      then have "reasons @ new = [] \<and> (\<forall>d \<in> set ds. pin_current parse db p d)"
        using Cons.IH[of "reasons @ new" s] by (auto split: if_splits)
      then show ?thesis using 1 by (auto intro: pinned_leaf leaf_reasons_current)
    qed
  qed
qed

lemma fresh_current:
  assumes "fresh parse db p depth r s = Inr (out, s')" "out = []"
  shows "up_to_date parse db p r"
  using assms
proof (induction rule: fresh_rule)
  case (level depth r s out s')
  from level.hyps show ?case
  proof (cases rule: fresh_cases)
    case (deps key ds s1)
    have "\<forall>d \<in> set (jrange ds). pin_current parse db p d"
      using fresh_deps_current[OF level.IH deps(3)[unfolded level.prems]] by (rule conjunct2)
    then show ?thesis using up_to_date[OF deps(2)] by blast
  qed (use level.prems in simp_all)
qed simp

section \<open>The worklist of the impact query\<close>

definition worklist_ok :: "nat \<Rightarrow> impact_state \<Rightarrow> bool" where
  "worklist_ok limit s = (length (i_todo s) = Suc (length (i_rows s)) \<and> length (i_rows s) \<le> limit)"

lemma impact_rows_ok:
  "impact_rows parse db p limit ns s = Inr s' \<Longrightarrow> worklist_ok limit s \<Longrightarrow> length (i_rows s) < limit \<Longrightarrow> worklist_ok limit s'"
proof (induction ns arbitrary: s)
  case (Cons n ns)
  show ?case
  proof (cases "n \<in> set (i_seen s)")
    case True
    then show ?thesis using Cons by simp
  next
    case False
    then obtain row s1 where s1: "s1 = s\<lparr>i_todo := i_todo s @ [(''record'', n)], i_seen := n # i_seen s, i_rows := i_rows s @ [row]\<rparr>"
      and rest: "if length (i_rows s1) = limit then s' = s1 else impact_rows parse db p limit ns s1 = Inr s'"
      using Cons.prems(1) by (auto simp: Let_def split: if_splits)
    have "worklist_ok limit s1" using Cons.prems(2,3) by (simp add: s1 worklist_ok_def)
    moreover from this have "length (i_rows s1) \<le> limit" by (simp add: worklist_ok_def)
    ultimately show ?thesis using rest Cons.IH[of s1] by (auto split: if_splits)
  qed
qed simp

lemma impact_loop_returns:
  assumes "worklist_ok limit s" "limit < fuel + pos"
  shows "\<exists>out. impact_loop parse db p limit fuel pos s = Some out \<and>
    (case out of Inl _ \<Rightarrow> True | Inr s' \<Rightarrow> worklist_ok limit s')"
  using assms
proof (induction fuel arbitrary: pos s)
  case 0
  then show ?case by (simp add: impact_loop.simps worklist_ok_def)
next
  case (Suc f)
  show ?case
  proof (cases "pos < length (i_todo s) \<and> length (i_rows s) < limit")
    case True
    show ?thesis
    proof (cases "impact_rows parse db p limit (dependents db p (fst (i_todo s ! pos)) (snd (i_todo s ! pos))) s")
      case (Inl e)
      then show ?thesis using True by (subst impact_loop.simps) simp
    next
      case (Inr s')
      then have "worklist_ok limit s'" using True Suc.prems(1) by (auto intro: impact_rows_ok)
      then show ?thesis using True Inr Suc.IH[of s' "Suc pos"] Suc.prems(2) by (subst impact_loop.simps) simp
    qed
  next
    case False
    then show ?thesis using Suc.prems by (subst impact_loop.simps) simp
  qed
qed

section \<open>Properties\<close>

text \<open>
  C9. A publication that succeeds named the number of revisions its record had: the new text is
  appended to the history of that record and of no other, the tables stay consistent, and both the
  new revision and the head load as the published text.
\<close>

theorem publication_appends_revision:
  assumes "put_commit parse ctx now fresh_id at' db request internal = Inr (p, r, db')"
    and "jvalue_str ''id'' fresh_id request = Inr rid"
    and "bound request ''expected_revision'' 0 100000000 = Inr e" and "kb_ok db"
  shows "e = length (texts db (p, rid)) \<and> kb_ok db' \<and>
    (\<exists>t. dump r = Inr t \<and> length t \<le> 256 * 1024 \<and> texts db' = (texts db)((p, rid) := texts db (p, rid) @ [t]) \<and>
      load_text db' p rid (Suc e) = Inr t \<and> load_text db' p rid 0 = Inr t)"
proof -
  obtain t where t: "dump r = Inr t" "length t \<le> 256 * 1024" "texts db' = (texts db)((p, rid) := texts db (p, rid) @ [t])"
    and e: "e = length (texts db (p, rid))" and ok: "kb_ok db'"
    using publish_step[OF assms] by blast
  have "length (rows db' p rid) = Suc e" using arg_cong[OF t(3), of "\<lambda>f. length (f (p, rid))"] e by (simp add: texts_def)
  then have "load_text db' p rid (Suc e) = Inr t" using load_text_rows[OF ok, of "Suc e" p rid] t(3) e by (simp add: nth_append)
  moreover have "load_text db' p rid 0 = Inr t" using load_text_head[OF ok, of p rid] t(3) by simp
  ultimately show ?thesis using t e ok by blast
qed

text \<open>
  C12. A publication whose expected revision is not the present one is refused with the conflict
  error once its caller, project, dependencies and identifier are accepted; nothing else is looked at.
\<close>

theorem stale_expectation_conflicts:
  assumes "check_keys request put_keys = Inr ()" "wb_project (base db) request = Inr p"
    "check_publication_dependencies parse db ctx now p = Inr ()" "jvalue_str ''id'' fresh_id request = Inr rid"
    "check_identifier rid = Inr ()" "bound request ''expected_revision'' 0 100000000 = Inr e"
    "kb_ok db" "e \<noteq> length (texts db (p, rid))"
  shows "put_commit parse ctx now fresh_id at' db request internal =
    throw ''revision_conflict: expected_revision does not match current record''"
proof -
  have "e \<noteq> (case head_of db p rid of Some h \<Rightarrow> h | None \<Rightarrow> 0)"
    using head_of_rows[OF assms(7), of p rid] assms(8) by (simp add: texts_def)
  then show ?thesis unfolding put_commit_def Let_def using assms(1-6)
    by (simp only: bindE_Inr throw_if_simps simp_thms)
qed

text \<open>
  C11. Revisions are immutable: whatever is published later and whatever happens to the other tables,
  a revision that loads keeps loading as the same text.
\<close>

theorem revision_stays:
  assumes "(\<lambda>s s'. \<exists>l. kb_step parse l s s')\<^sup>*\<^sup>* db db'" "kb_ok db"
    and "0 < n" "load_text db p rid n = Inr t"
  shows "kb_ok db' \<and> load_text db' p rid n = Inr t"
proof -
  have run: "kv.moves parse db db'" using assms(1) unfolding kv.moves_def .
  have n: "n - 1 < length (texts db (p, rid))" and t: "t = texts db (p, rid) ! (n - 1)"
    using assms(3,4) load_text_rows[OF assms(2,3), of p rid] by (auto simp: texts_def split: if_splits)
  have ok: "kb_ok db'" using kv.moves_ok[OF run assms(2)] .
  have "n - 1 < length (texts db' (p, rid)) \<and> texts db' (p, rid) ! (n - 1) = t"
    using kv.version_stays[OF run assms(2) n] t by simp
  then show ?thesis using ok load_text_rows[OF ok assms(3), of p rid] assms(3) by (auto simp: texts_def)
qed

text \<open>
  C10. No update is lost: of two publications of the same record, the later one expects a strictly
  greater revision, so two writers that read the same revision cannot both succeed.
\<close>

theorem no_update_lost:
  assumes "kb_ok db" "kb_step parse (Some ((p, rid), e)) db db1"
    and "(\<lambda>s s'. \<exists>l. kb_step parse l s s')\<^sup>*\<^sup>* db1 db2" "kb_step parse (Some ((p, rid), e')) db2 db3"
  shows "e < e'"
  using kv.put_once[OF assms(1,2)] assms(3,4) unfolding kv.moves_def by blast

text \<open>
  C13. A record is shown as current only when nothing it rests on has moved.  Every dependency, transitively, is
  pinned at the present state of what it names: a record at the revision of its head, an artifact whose object is
  present, a runtime record whose hash is the pin, an analysis that is current and whose program has not advanced.
  The answer lists no stale reason and says that it is complete; a head of the record carries exactly the
  revision shown; and for a record that was loaded from an intact store that head exists and is the number of the
  record's stored revisions, so that the shown revision is the last one.
\<close>

theorem current_is_up_to_date:
  assumes "decorated parse db p r = Inr out" "jat ''freshness'' out = Inr (JStr ''current'')"
  shows "up_to_date parse db p r \<and> jat ''stale_reasons'' out = Inr (JArr []) \<and>
    jat ''freshness_complete'' out = Inr (JBool True) \<and>
    (\<exists>rid. jat ''id'' r = Inr (JStr rid) \<and>
      (\<forall>h. head_of db p rid = Some h \<longrightarrow> (\<exists>v. jat ''revision'' r = Inr v \<and> ji64 v = Inr (int h))) \<and>
      (\<forall>n. kb_ok db \<longrightarrow> load parse db p rid n = Inr r \<longrightarrow>
        (\<exists>h v. head_of db p rid = Some h \<and> h = length (texts db (p, rid)) \<and>
          jat ''revision'' r = Inr v \<and> ji64 v = Inr (int h))))"
proof -
  obtain reasons s moved where f: "fresh parse db p 0 r \<lparr>visited = 0, bounded = False, on_path = []\<rparr> = Inr (reasons, s)"
    and m: "head_moved db p r = Inr moved"
    and out: "out = jput ''freshness_complete'' (JBool (\<not> bounded s))
       (jput ''freshness'' (JStr (if bounded s then ''unknown''
           else if reasons @ (if moved then [reason ''record revision superseded''] else []) = [] then ''current'' else ''stale''))
         (jput ''stale_reasons'' (JArr (reasons @ (if moved then [reason ''record revision superseded''] else []))) r))"
    using assms(1) unfolding decorated_def Let_def by (auto elim!: bindE_elims)
  have clean: "reasons = []" "\<not> moved" "\<not> bounded s" using assms(2) unfolding out by (auto simp: json_simps split: if_splits)
  from m obtain rid where rid: "jat ''id'' r = Inr (JStr rid)"
    "\<And>h. head_of db p rid = Some h \<Longrightarrow> \<exists>v. jat ''revision'' r = Inr v \<and> ji64 v = Inr (int h)"
    using clean(2) by (auto simp: head_moved_def split: option.splits)
  have "\<exists>h. head_of db p rid = Some h \<and> h = length (texts db (p, rid))" if ok: "kb_ok db" and l: "load parse db p rid n = Inr r" for n
  proof -
    obtain t where "load_text db p rid n = Inr t" using l by (auto simp: load_def)
    then have "rows db p rid \<noteq> []"
      using load_text_head[OF ok] load_text_rows[OF ok] by (cases "n = 0") (auto simp: texts_def split: if_splits)
    then show ?thesis using ok unfolding kb_ok_def by (simp add: texts_def)
  qed
  moreover have "jat ''stale_reasons'' out = Inr (JArr [])" "jat ''freshness_complete'' out = Inr (JBool True)"
    using clean unfolding out by (simp_all add: json_simps)
  ultimately show ?thesis using fresh_current[OF f clean(1)] rid by blast
qed

text \<open>C14. The impact query always returns, within its fuel, and lists at most the requested number of records.\<close>

theorem impact_returns:
  "\<exists>out. impact parse db p r limit = Some out \<and>
     (case out of Inl _ \<Rightarrow> True | Inr j \<Rightarrow> (\<exists>rs. jat ''records'' j = Inr (JArr rs) \<and> length rs \<le> limit))"
proof (cases "bindE (jstr_at ''id'' r) (\<lambda>rid. bindE (jvalue_str ''type'' ''record'' r) (\<lambda>type. Inr (type, rid)))")
  case (Inl e)
  then show ?thesis by (simp add: impact_def)
next
  case (Inr start)
  have "worklist_ok limit \<lparr>i_todo = [start], i_seen = [], i_rows = []\<rparr>" by (simp add: worklist_ok_def)
  then obtain m where m: "impact_loop parse db p limit (limit + 1) 0 \<lparr>i_todo = [start], i_seen = [], i_rows = []\<rparr> = Some m"
    "case m of Inl _ \<Rightarrow> True | Inr s' \<Rightarrow> worklist_ok limit s'"
    using impact_loop_returns[of limit _ "limit + 1" 0] by fastforce
  then show ?thesis unfolding impact_def Inr
    by (cases m) (auto simp: worklist_ok_def json_simps)
qed

text \<open>
  C15. A freshness traversal is bounded and says so when it stops early.  It returns at most 65 reasons and leaves
  the path of the traversal as it found it.  The mark of an incomplete answer is never taken back, and it is set
  whenever the reasons reach 64 or any reason, at any distance upstream, reports the traversal limit or a list of
  upstream reasons that was cut at 64; conversely, an unmarked answer was found without passing the limit of 4096
  visited records.
\<close>

theorem freshness_is_bounded:
  assumes "fresh parse db p depth r s = Inr (out, s')"
  shows "length out \<le> 65 \<and> on_path s' = on_path s \<and> (bounded s \<longrightarrow> bounded s') \<and>
    (64 \<le> length out \<or> (\<exists>x \<in> set out. cut_short x) \<longrightarrow> bounded s') \<and>
    (\<not> bounded s' \<longrightarrow> depth \<le> 32 \<and> visited s < visited s' \<and> visited s' \<le> 4096)"
proof -
  have "depth \<le> 32" if "\<not> bounded s'"
    using that assms unfolding fresh.simps[of parse db p depth r s] by (auto split: if_splits)
  then show ?thesis using fresh_bounds[OF assms] unfolding traversed_def by blast
qed

section \<open>A concrete history\<close>

definition demo_kb :: kb where
  "demo_kb = \<lparr>base = \<lparr>projects = [\<lparr>p_name = ''p'', p_id = ''prj_1'', p_created = ''t0''\<rparr>], targets = [], jobs = [],
       idems = [], leases = [], job_log = [], derivation_rows = [], evidence_rows = [], function_rows = [],
       view_rows = [], cancels = [], objects = Map.empty\<rparr>,
     records = [], heads = [], deps = [], wb_events = [], actions = [], entities = [], revisions = [],
     current_revisions = [], runtime_rows = None\<rparr>"

definition demo_note :: "nat \<Rightarrow> json" where
  "demo_note e = jobj [(''project'', JStr ''p''), (''id'', JStr ''r1''), (''expected_revision'', jnat e),
     (''kind'', JStr ''question''), (''title'', JStr ''t''), (''scope'', jobj [(''area'', JStr ''x'')]), (''body'', jobj [])]"

definition demo_record :: "nat \<Rightarrow> json" where
  "demo_record rv = jobj [(''schema'', JStr ''indago.knowledge-record.v1''), (''project'', JStr ''p''), (''id'', JStr ''r1''),
     (''revision'', jint (int rv)), (''kind'', JStr ''question''), (''title'', JStr ''t''), (''state'', JStr ''inferred''),
     (''scope'', jobj [(''area'', JStr ''x'')]), (''body'', jobj []), (''assumptions'', JArr []),
     (''dependencies'', JArr []), (''support'', JArr []), (''counterevidence'', JArr []),
     (''author'', JStr ''cli''), (''created_at'', JStr ''t1''), (''assertion_origin'', JStr ''caller_assertion''),
     (''semantic_entailment_checked'', JBool False)]"

lemma demo_expected: "e < 2 \<Longrightarrow> bound (demo_note e) ''expected_revision'' 0 100000000 = Inr e"
  by (elim less_2_cases[elim_format] disjE)
    (simp_all add: demo_note_def json_simps bound_def ji64_def jword_def ju64_def)

lemma demo_note_checks:
  assumes "e < 2"
  shows "check_keys (demo_note e) put_keys = Inr ()" "jvalue_str ''id'' ''f'' (demo_note e) = Inr ''r1''"
    "bound (demo_note e) ''expected_revision'' 0 100000000 = Inr e"
    "check_kind (demo_note e) False = Inr (''question'', ''inferred'')"
    "check_title_scope (demo_note e) = Inr (''t'', jobj [(''area'', JStr ''x'')])"
    "check_body (demo_note e) ''question'' = Inr (jobj [])"
    "jat ''project'' (demo_note e) = Inr (JStr ''p'')"
    "gather_dependencies no_parse db p ''r1'' (demo_note e) (jobj [(''area'', JStr ''x'')]) = Inr []"
    "record_json ''p'' ''r1'' rv (''question'', ''inferred'') (''t'', jobj [(''area'', JStr ''x'')]) (jobj []) [] False
       (demo_note e) ''t1'' = Inr (demo_record rv)"
  using assms demo_expected[OF assms]
  by (simp_all add: demo_note_def json_simps jvalue_str_def jstr_at_def put_keys_def
    check_kind_def knowledge_kinds_def knowledge_states_def computed_kinds_def check_title_scope_def check_body_def
    gather_dependencies_def reference_list_def evidence_refs_def scope_refs_def record_json_def demo_record_def)

lemma demo_record_text: "\<exists>t. dump (demo_record rv) = Inr t \<and> length t \<le> 256 * 1024"
proof -
  have "dumpable (demo_record rv)"
    unfolding demo_record_def by (intro dumpable_jobj) (auto simp: utf8_ok_ascii intro!: dumpable_jobj)
  moreover have "json_weight (demo_record rv) \<le> 256 * 1024"
    by (simp add: demo_record_def json_simps)
  ultimately show ?thesis using length_dump_text[of "demo_record rv"] by (auto simp: dump_def)
qed

lemma demo_insert: 
  assumes "row_of db ''p'' ''r1'' rv = None"
  shows "\<exists>db'. insert_revision ''p'' ''r1'' rv ''question'' t [] ''t1'' db = Inr db' \<and> base db' = base db"
proof -
  have "dumpable (jobj [(''revision'', jint (int rv)), (''sha256'', JStr (sha256_text t))])"
    by (rule dumpable_jobj) (simp add: utf8_ok_ascii)
  then show ?thesis using assms by (simp add: insert_revision_def dump_dumpable)
qed

lemma demo_put:
  assumes "kb_ok db" "length (texts db (''p'', ''r1'')) = e" "e < 2" "projects (base db) = projects (base demo_kb)"
  shows "\<exists>db'. put_commit no_parse None 0 ''f'' ''t1'' db (demo_note e) False = Inr (''p'', demo_record (Suc e), db') \<and>
     base db' = base db"
proof -
  note c = demo_note_checks[OF assms(3)]
  have head: "(case head_of db ''p'' ''r1'' of Some h \<Rightarrow> h | None \<Rightarrow> 0) = e"
    using head_of_rows[OF assms(1), of "''p''" "''r1''"] assms(2) by (simp add: texts_def)
  have fresh: "row_of db ''p'' ''r1'' (Suc e) = None"
    using row_of_rows[OF assms(1), of "''p''" "''r1''"] assms(2) by (simp add: texts_def)
  obtain t where t: "dump (demo_record (Suc e)) = Inr t" "length t \<le> 256 * 1024"
    using demo_record_text[of "Suc e"] less_2_cases[OF assms(3)] by force
  obtain db' where i: "insert_revision ''p'' ''r1'' (Suc e) ''question'' t [] ''t1'' db = Inr db'" "base db' = base db"
    using demo_insert[OF fresh] by blast
  have p: "wb_project (base db) (demo_note e) = Inr ''p''"
    using c(7) assms(4) by (simp add: wb_project_def project_info_def check_identifier_def identifier_chars_def demo_kb_def
        require_project_def validate_name_def is_alnum_def is_lower_def)
  show ?thesis
    using c head t i p
    by (simp add: put_commit_def Let_def check_publication_dependencies_def link_publication_def check_identifier_def
        identifier_chars_def is_digit_def)
qed

lemma demo_kb_ok: "kb_ok demo_kb" "texts demo_kb k = []"
  by (auto simp: kb_ok_def demo_kb_def rows_def head_of_def texts_def split: prod.split)

lemma demo_history:
  obtains db1 db2 where
    "put_commit no_parse None 0 ''f'' ''t1'' demo_kb (demo_note 0) False = Inr (''p'', demo_record 1, db1)"
    "put_commit no_parse None 0 ''f'' ''t1'' db1 (demo_note 1) False = Inr (''p'', demo_record 2, db2)"
    "kb_ok db1" "length (texts db1 (''p'', ''r1'')) = 1"
    "kb_step no_parse (Some ((''p'', ''r1''), 0)) demo_kb db1" "kb_step no_parse (Some ((''p'', ''r1''), 1)) db1 db2"
proof -
  obtain db1 where 1: "put_commit no_parse None 0 ''f'' ''t1'' demo_kb (demo_note 0) False = Inr (''p'', demo_record 1, db1)"
      "base db1 = base demo_kb"
    using demo_put[OF demo_kb_ok(1), of 0] demo_kb_ok(2) by auto
  have c: "jvalue_str ''id'' ''f'' (demo_note 0) = Inr ''r1''" "jvalue_str ''id'' ''f'' (demo_note 1) = Inr ''r1''"
    using demo_note_checks(2)[of 0] demo_note_checks(2)[of 1] by simp_all
  note s = publish_step[OF 1(1) c(1) demo_expected[of 0, simplified] demo_kb_ok(1)]
  then have ok: "kb_ok db1" "length (texts db1 (''p'', ''r1'')) = 1" using demo_kb_ok(2) by auto
  obtain db2 where 2: "put_commit no_parse None 0 ''f'' ''t1'' db1 (demo_note 1) False = Inr (''p'', demo_record 2, db2)"
    using demo_put[OF ok, of] 1(2) by (auto simp: numeral_2_eq_2)
  show ?thesis
    using 1 2 ok published[OF 1(1) c(1) demo_expected] published[OF 2 c(2) demo_expected] by (intro that) simp_all
qed

theorem publication_appends_revision_witness:
  "\<exists>db' t. put_commit no_parse None 0 ''f'' ''t1'' demo_kb (demo_note 0) False = Inr (''p'', demo_record 1, db') \<and>
     load_text db' ''p'' ''r1'' 1 = Inr t"
proof -
  obtain db1 db2 where 1: "put_commit no_parse None 0 ''f'' ''t1'' demo_kb (demo_note 0) False = Inr (''p'', demo_record 1, db1)"
    using demo_history by metis
  show ?thesis
    using 1 publication_appends_revision[OF 1 _ demo_expected demo_kb_ok(1), of "''r1''"] demo_note_checks(2)[of 0] by auto
qed

theorem stale_expectation_conflicts_witness:
  "put_commit no_parse None 0 ''f'' ''t1'' demo_kb (demo_note 1) False =
    throw ''revision_conflict: expected_revision does not match current record''"
  by (rule stale_expectation_conflicts[where p = "''p''" and rid = "''r1''" and e = 1])
    (use demo_note_checks[of 1] demo_expected[of 1] demo_kb_ok in
      \<open>simp_all add: check_publication_dependencies_def wb_project_def project_info_def check_identifier_def identifier_chars_def
        demo_kb_def require_project_def validate_name_def is_alnum_def is_lower_def is_digit_def\<close>)

theorem revision_stays_witness:
  "\<exists>db1 db2 t. kb_step no_parse (Some ((''p'', ''r1''), 1)) db1 db2 \<and> load_text db1 ''p'' ''r1'' 1 = Inr t \<and>
     load_text db2 ''p'' ''r1'' 1 = Inr t"
proof -
  obtain db1 db2 where h: "kb_ok db1" "length (texts db1 (''p'', ''r1'')) = 1"
      "kb_step no_parse (Some ((''p'', ''r1''), 1)) db1 db2"
    using demo_history by metis
  have l: "load_text db1 ''p'' ''r1'' 1 = Inr (texts db1 (''p'', ''r1'') ! 0)"
    using load_text_rows[OF h(1), of 1] h(2) by (simp add: texts_def)
  have "(\<lambda>s s'. \<exists>l. kb_step no_parse l s s')\<^sup>*\<^sup>* db1 db2" using h(3) by blast
  then show ?thesis using revision_stays[OF _ h(1) _ l, of no_parse db2] h(3) l by auto
qed

theorem no_update_lost_witness:
  "\<exists>db1 db2. kb_step no_parse (Some ((''p'', ''r1''), 0)) demo_kb db1 \<and>
     kb_step no_parse (Some ((''p'', ''r1''), 1)) db1 db2 \<and> (0::nat) < 1"
proof -
  obtain db1 db2 where h: "kb_step no_parse (Some ((''p'', ''r1''), 0)) demo_kb db1"
      "kb_step no_parse (Some ((''p'', ''r1''), 1)) db1 db2"
    using demo_history by metis
  have "(0::nat) < 1" using no_update_lost[OF demo_kb_ok(1) h(1) _ h(2)] by blast
  then show ?thesis using h by blast
qed

text \<open>A store of two records, the second pinned at the first.\<close>

definition linked_record :: json where
  "linked_record = jput ''id'' (JStr ''r2'')
     (jput ''dependencies'' (JArr [jobj [(''type'', JStr ''record''), (''id'', JStr ''r1''), (''pin'', JStr ''1'')]]) (demo_record 1))"

definition linked_kb :: kb where
  "linked_kb = demo_kb\<lparr>
     records := [\<lparr>k_project = ''p'', k_id = ''r1'', k_revision = 1, k_kind = ''question'', k_record = ''1'', k_sha = sha256_text ''1''\<rparr>,
       \<lparr>k_project = ''p'', k_id = ''r2'', k_revision = 1, k_kind = ''question'', k_record = ''2'', k_sha = sha256_text ''2''\<rparr>],
     heads := [\<lparr>h_project = ''p'', h_id = ''r1'', h_revision = 1\<rparr>, \<lparr>h_project = ''p'', h_id = ''r2'', h_revision = 1\<rparr>],
     deps := [\<lparr>dr_project = ''p'', dr_id = ''r2'', dr_revision = 1, dr_type = ''record'', dr_dependency = ''r1'', dr_pin = ''1''\<rparr>]\<rparr>"

definition linked_parse :: "string \<Rightarrow> json res" where
  "linked_parse t = (if t = ''1'' then Inr (demo_record 1) else if t = ''2'' then Inr linked_record else Inl Json_Parse)"

lemma linked_kb_ok: "kb_ok linked_kb"
  by (auto simp: kb_ok_def linked_kb_def rows_def head_of_def)

lemma linked_loads:
  "load linked_parse linked_kb ''p'' ''r1'' 0 = Inr (demo_record 1)"
  "load linked_parse linked_kb ''p'' ''r1'' 1 = Inr (demo_record 1)"
  "load linked_parse linked_kb ''p'' ''r2'' 1 = Inr linked_record"
  by (simp_all add: load_def load_text_def head_of_def row_of_def linked_kb_def linked_parse_def)

lemma linked_fields:
  "jat ''id'' linked_record = Inr (JStr ''r2'')" "jat ''revision'' linked_record = Inr (jint 1)"
  "jat ''dependencies'' linked_record =
     Inr (JArr [jobj [(''type'', JStr ''record''), (''id'', JStr ''r1''), (''pin'', JStr ''1'')]])"
  "jat ''id'' (demo_record 1) = Inr (JStr ''r1'')" "jat ''revision'' (demo_record 1) = Inr (jint 1)"
  "jat ''dependencies'' (demo_record 1) = Inr (JArr [])"
  by (simp_all add: linked_record_def demo_record_def json_simps)

lemma linked_texts: "stoll ''1'' = Inr 1" "int32_text ''revision'' (demo_record 1) = Inr ''1''"
  "int32_text ''revision'' linked_record = Inr ''1''"
proof -
  have "from_chars 10 n ''1'' = (if 1 > n then (Errc_Range, 0, []) else (Errc_Ok, 1, []))" for n
    by (simp add: from_chars_def is_digit_in_def digit_val_def is_digit_def)
  then show "stoll ''1'' = Inr 1" by (simp add: stoll_def)
  have "digit_char 1 = CHR ''1''" by code_simp
  then have "to_string_int 1 = ''1''" by (simp add: to_string_int_def to_string_def digits_of.simps)
  then show "int32_text ''revision'' (demo_record 1) = Inr ''1''" "int32_text ''revision'' linked_record = Inr ''1''"
    unfolding int32_text_def linked_fields by (simp_all add: jword_def)
qed

lemma linked_fresh:
  "fresh linked_parse linked_kb ''p'' 0 linked_record \<lparr>visited = 0, bounded = False, on_path = []\<rparr> =
     Inr ([], \<lparr>visited = 2, bounded = False, on_path = []\<rparr>)"
  "fresh linked_parse linked_kb ''p'' 32 linked_record \<lparr>visited = 0, bounded = False, on_path = []\<rparr> =
     Inr ([jput ''upstream'' (JArr [reason ''dependency traversal limit''])
       (dep_reason (jobj [(''type'', JStr ''record''), (''id'', JStr ''r1''), (''pin'', JStr ''1'')]) ''upstream dependency stale'')],
       \<lparr>visited = 1, bounded = True, on_path = []\<rparr>)"
  using linked_fields linked_texts linked_loads
  by (simp_all add: fresh.simps fresh_deps.simps jstr_at_def json_simps jrange_def Let_def)

theorem current_is_up_to_date_witness:
  "\<exists>out. decorated linked_parse linked_kb ''p'' linked_record = Inr out \<and> jat ''freshness'' out = Inr (JStr ''current'') \<and>
     up_to_date linked_parse linked_kb ''p'' linked_record \<and> head_of linked_kb ''p'' ''r2'' = Some 1"
proof -
  have "head_moved linked_kb ''p'' linked_record = Inr False"
    by (simp add: head_moved_def linked_fields jstr_at_def head_of_def linked_kb_def ji64_def jword_def)
  then obtain out where out: "decorated linked_parse linked_kb ''p'' linked_record = Inr out" "jat ''freshness'' out = Inr (JStr ''current'')"
    using linked_fresh(1) by (simp add: decorated_def json_simps)
  have "texts linked_kb (''p'', ''r2'') = [''2'']" by (simp add: texts_def rows_def linked_kb_def)
  then show ?thesis
    using current_is_up_to_date[OF out] linked_kb_ok linked_loads(3) out by (auto simp: linked_fields)
qed

theorem freshness_is_bounded_witness:
  "\<exists>out s'. fresh linked_parse linked_kb ''p'' 32 linked_record \<lparr>visited = 0, bounded = False, on_path = []\<rparr> = Inr (out, s') \<and>
     out \<noteq> [] \<and> list_ex (\<lambda>x. jat ''upstream'' x = Inr (JArr [reason ''dependency traversal limit''])) out \<and> bounded s'"
  using freshness_is_bounded[OF linked_fresh(2)] linked_fresh(2) by (auto simp: cut_short_reasons json_simps dep_reason_def)

end
