(* ===== verification/Ind_Boundary.thy ===== *)
theory Ind_Boundary
  imports Ind_Revision Ind_Scope
begin

text \<open>
  The preflight of knowledge records before they reach a model
  (\<^verbatim>\<open>knowledge_scope\<close> and \<^verbatim>\<open>harness_check_knowledge\<close> of
  \<^verbatim>\<open>src/model_controller.cpp\<close>): every record and artifact that a record rests on, transitively,
  has to belong to the components of the investigation.
\<close>

section \<open>The traversal\<close>

text \<open>
  The row that a dependency names: the head without a pin, else the pinned revision.  The publisher writes a
  pin with \<^verbatim>\<open>std::to_string\<close>, so the pin of a stored record is the decimal text of a revision; the query would
  also take another spelling of the same number, which is not modelled.
\<close>

definition pinned_row :: "kb \<Rightarrow> string \<Rightarrow> string \<Rightarrow> string \<Rightarrow> record_row option" where
  "pinned_row db p rid pin =
     find (\<lambda>r. k_project r = p \<and> k_id r = rid \<and>
       (if pin = [] then head_of db p rid = Some (k_revision r) else to_string (k_revision r) = pin)) (records db)"

definition record_at_pin :: "(string \<Rightarrow> json res) \<Rightarrow> kb \<Rightarrow> string \<Rightarrow> json \<Rightarrow> string \<Rightarrow> json res" where
  "record_at_pin parse db p d rid =
     bindE (jvalue_str ''pin'' [] d) (\<lambda>pin.
       case pinned_row db p rid pin of
         None \<Rightarrow> throw ''knowledge dependency unavailable or corrupt''
       | Some r \<Rightarrow> (if sha256_text (k_record r) \<noteq> k_sha r then throw ''knowledge dependency unavailable or corrupt''
                   else parse (k_record r)))"

text \<open>\<^verbatim>\<open>json_extract(record, '$.artifact_sha256')\<close> of an evidence record; SQL null reads as empty.\<close>

definition evidence_artifact :: "(string \<Rightarrow> json res) \<Rightarrow> string \<Rightarrow> string" where
  "evidence_artifact parse text =
     (case bindE (parse text) (jstr_at ''artifact_sha256'') of Inr a \<Rightarrow> a | Inl _ \<Rightarrow> [])"

definition leaf_artifact :: "(string \<Rightarrow> json res) \<Rightarrow> kb \<Rightarrow> string \<Rightarrow> string \<Rightarrow> string \<Rightarrow> string res" where
  "leaf_artifact parse db p type rid =
     (if type = ''artifact'' then Inr rid
      else if type = ''entity'' \<or> type = ''evidence'' \<or> type = ''revision'' then
        (case (if type = ''entity'' then map_option n_artifact (find (\<lambda>r. n_project r = p \<and> n_id r = rid) (entities db))
               else if type = ''revision''
               then map_option x_artifact (find (\<lambda>r. x_project r = p \<and> x_revision r = rid) (revisions db))
               else map_option (\<lambda>r. evidence_artifact parse (v_record r))
                      (find (\<lambda>r. v_project r = p \<and> v_id r = rid) (evidence_rows (base db)))) of
           None \<Rightarrow> throw ''knowledge dependency unavailable''
         | Some sha \<Rightarrow> Inr sha)
      else throw ''capability_blocked: runtime dependency requires runtime scope'')"

definition check_leaf :: "(string \<Rightarrow> json res) \<Rightarrow> kb \<Rightarrow> json \<Rightarrow> string \<Rightarrow> string \<Rightarrow> string \<Rightarrow> unit res" where
  "check_leaf parse db iv p type rid =
     bindE (leaf_artifact parse db p type rid) (\<lambda>sha.
     bindE (harness_contains_artifact iv (JStr sha)) (\<lambda>inside.
       throw_if (\<not> inside) ''knowledge dependency outside investigation scope'' (Inr ())))"

definition check_artifact :: "json \<Rightarrow> json \<Rightarrow> unit res" where
  "check_artifact iv r =
     bindE (jat ''scope'' r) (\<lambda>scope. bindE (jvalue ''artifact_sha256'' JNull scope) (\<lambda>sha.
     bindE (harness_contains_artifact iv sha) (\<lambda>inside.
       throw_if (\<not> inside) ''knowledge outside investigation artifact scope'' (Inr ()))))"

definition record_key :: "json \<Rightarrow> string res" where
  "record_key r =
     bindE (jstr_at ''id'' r) (\<lambda>rid. bindE (jat ''revision'' r) (\<lambda>rv. bindE (dump rv) (\<lambda>t. Inr (rid @ '':'' @ t))))"

text \<open>\<open>seen\<close> is the set of keys that the recursion shares; \<open>scope_deps\<close> is the loop over the dependencies.\<close>

function knowledge_scope ::
  "(string \<Rightarrow> json res) \<Rightarrow> kb \<Rightarrow> json \<Rightarrow> nat \<Rightarrow> json \<Rightarrow> string list \<Rightarrow> string list res"
and scope_deps ::
  "(string \<Rightarrow> json res) \<Rightarrow> kb \<Rightarrow> json \<Rightarrow> nat \<Rightarrow> string \<Rightarrow> json list \<Rightarrow> string list \<Rightarrow> string list res" where
  "knowledge_scope parse db iv depth r seen =
     (if depth > 16 \<or> length seen \<ge> 128 then throw ''knowledge scope traversal budget exceeded''
      else
        bindE (check_artifact iv r) (\<lambda>_. bindE (record_key r) (\<lambda>key.
          if key \<in> set seen then Inr seen
          else bindE (jstr_at ''project'' iv) (\<lambda>p. bindE (jat ''dependencies'' r) (\<lambda>ds.
            scope_deps parse db iv depth p (jrange ds) (key # seen))))))"
| "scope_deps parse db iv depth p [] seen = Inr seen"
| "scope_deps parse db iv depth p (d # ds) seen =
     bindE (jstr_at ''type'' d) (\<lambda>type. bindE (jstr_at ''id'' d) (\<lambda>rid.
     bindE (if type = ''record''
            then bindE (record_at_pin parse db p d rid) (\<lambda>r. knowledge_scope parse db iv (Suc depth) r seen)
            else bindE (check_leaf parse db iv p type rid) (\<lambda>_. Inr seen)) (\<lambda>seen.
       scope_deps parse db iv depth p ds seen)))"
  by pat_completeness auto

termination
  by (relation "inv_image (less_than <*lex*> less_than)
        (\<lambda>x. case x of Inl (parse, db, iv, depth, r, seen) \<Rightarrow> (18 - depth, 0)
                     | Inr (parse, db, iv, depth, p, ds, seen) \<Rightarrow> (17 - depth, Suc (length ds)))") auto

declare knowledge_scope.simps [simp del] scope_deps.simps [simp del]

definition harness_check_knowledge :: "(string \<Rightarrow> json res) \<Rightarrow> kb \<Rightarrow> json \<Rightarrow> json \<Rightarrow> unit res" where
  "harness_check_knowledge parse db iv r = bindE (knowledge_scope parse db iv 0 r []) (\<lambda>_. Inr ())"

section \<open>What the investigation may see\<close>

text \<open>A record that the knowledge base holds, under its key.\<close>

definition stored :: "(string \<Rightarrow> json res) \<Rightarrow> kb \<Rightarrow> string \<Rightarrow> json \<Rightarrow> bool" where
  "stored parse db p j = (\<exists>r \<in> set (records db). k_project r = p \<and> parse (k_record r) = Inr j)"

text \<open>Stored records name themselves: their text carries the identifier and revision of their row.\<close>

definition self_named :: "(string \<Rightarrow> json res) \<Rightarrow> kb \<Rightarrow> bool" where
  "self_named parse db \<longleftrightarrow>
     distinct (map (\<lambda>r. (k_project r, k_id r, k_revision r)) (records db)) \<and>
     (\<forall>r \<in> set (records db). \<forall>j. parse (k_record r) = Inr j \<longrightarrow>
        record_key j = Inr (k_id r @ '':'' @ to_string (k_revision r)))"

definition record_dep :: "(string \<Rightarrow> json res) \<Rightarrow> kb \<Rightarrow> string \<Rightarrow> json \<Rightarrow> json \<Rightarrow> bool" where
  "record_dep parse db p r j =
     (\<exists>ds d rid. jat ''dependencies'' r = Inr ds \<and> d \<in> set (jrange ds) \<and> jat ''type'' d = Inr (JStr ''record'') \<and>
        jat ''id'' d = Inr (JStr rid) \<and> record_at_pin parse db p d rid = Inr j)"

text \<open>An artifact of the investigation: one of its components has this hash.\<close>

definition artifact_inside :: "json \<Rightarrow> json \<Rightarrow> bool" where
  "artifact_inside iv sha \<longleftrightarrow>
     (\<exists>cs. harness_components iv = Inr cs \<and> (\<exists>c \<in> set (jrange cs). \<exists>a. jat ''artifact_sha256'' c = Inr a \<and> jeq a sha))"

text \<open>The artifact of a record, and those of the other items that it depends on, are in scope.\<close>

definition inside :: "(string \<Rightarrow> json res) \<Rightarrow> kb \<Rightarrow> json \<Rightarrow> string \<Rightarrow> json \<Rightarrow> bool" where
  "inside parse db iv p r \<longleftrightarrow>
     (\<exists>scope sha. jat ''scope'' r = Inr scope \<and> jvalue ''artifact_sha256'' JNull scope = Inr sha \<and> artifact_inside iv sha) \<and>
     (\<exists>ds. jat ''dependencies'' r = Inr ds \<and>
        (\<forall>d \<in> set (jrange ds). \<exists>type rid. jat ''type'' d = Inr (JStr type) \<and> jat ''id'' d = Inr (JStr rid) \<and>
           (type = ''record'' \<or> (\<exists>sha. leaf_artifact parse db p type rid = Inr sha \<and> artifact_inside iv (JStr sha)))))"

lemma contains_artifact_inside: "harness_contains_artifact iv sha = Inr True \<Longrightarrow> artifact_inside iv sha"
  by (auto simp: harness_contains_artifact_def artifact_inside_def elim!: bindE_InrE dest: any_artifact_True)

lemma check_artifact_inside:
  "check_artifact iv r = Inr u \<Longrightarrow>
   \<exists>scope sha. jat ''scope'' r = Inr scope \<and> jvalue ''artifact_sha256'' JNull scope = Inr sha \<and> artifact_inside iv sha"
  unfolding check_artifact_def by (auto elim!: bindE_InrE dest!: contains_artifact_inside)

lemma check_leaf_inside:
  "check_leaf parse db iv p type rid = Inr u \<Longrightarrow> \<exists>sha. leaf_artifact parse db p type rid = Inr sha \<and> artifact_inside iv (JStr sha)"
  unfolding check_leaf_def by (auto elim!: bindE_InrE dest!: contains_artifact_inside)

lemma split_last_colon:
  assumes "x @ c # a = y @ c # b" "c \<notin> set a" "c \<notin> set b"
  shows "x = y \<and> a = b"
proof -
  have t: "takeWhile (\<lambda>z. z \<noteq> c) (rev xs @ c # ys) = rev xs" if "c \<notin> set xs" for xs ys
    using that by (subst takeWhile_append2) auto
  have "rev a @ c # rev x = rev b @ c # rev y" using arg_cong[OF assms(1), of rev] by simp
  then have "rev a = rev b" using t[OF assms(2), of "rev x"] t[OF assms(3), of "rev y"] by simp
  then show ?thesis using assms(1) by simp
qed

lemma stored_unique:
  assumes "self_named parse db" "stored parse db p j" "stored parse db p j'" "record_key j = record_key j'"
  shows "j = j'"
proof -
  obtain r r' where r: "r \<in> set (records db)" "k_project r = p" "parse (k_record r) = Inr j"
    and r': "r' \<in> set (records db)" "k_project r' = p" "parse (k_record r') = Inr j'"
    using assms(2,3) unfolding stored_def by blast
  have "record_key j = Inr (k_id r @ '':'' @ to_string (k_revision r))"
    "record_key j' = Inr (k_id r' @ '':'' @ to_string (k_revision r'))"
    using assms(1) r r' unfolding self_named_def by blast+
  then have "k_id r @ '':'' @ to_string (k_revision r) = k_id r' @ '':'' @ to_string (k_revision r')"
    using assms(4) by simp
  moreover have "CHR '':'' \<notin> set (to_string n)" for n
    using to_string_decimal[of n] unfolding only_of_iff by auto
  ultimately have "k_id r = k_id r' \<and> to_string (k_revision r) = to_string (k_revision r')"
    using split_last_colon[of "k_id r" "CHR '':''" "to_string (k_revision r)"] by simp
  then have "(k_project r, k_id r, k_revision r) = (k_project r', k_id r', k_revision r')"
    using r r' by simp
  moreover have "inj_on (\<lambda>r. (k_project r, k_id r, k_revision r)) (set (records db))"
    using assms(1) unfolding self_named_def distinct_map by blast
  ultimately have "r = r'" using r(1) r'(1) by (simp only: inj_on_def)
  then show ?thesis using r r' by simp
qed

text \<open>Keys whose stored record has been checked, with the keys of its dependencies.\<close>

definition closed_key :: "(string \<Rightarrow> json res) \<Rightarrow> kb \<Rightarrow> json \<Rightarrow> string \<Rightarrow> string set \<Rightarrow> string \<Rightarrow> bool" where
  "closed_key parse db iv p S k \<longleftrightarrow>
     (\<forall>j. stored parse db p j \<and> record_key j = Inr k \<longrightarrow>
        inside parse db iv p j \<and> (\<forall>j'. record_dep parse db p j j' \<longrightarrow> (\<exists>k' \<in> S. record_key j' = Inr k')))"

lemma closed_key_mono: "closed_key parse db iv p S k \<Longrightarrow> S \<subseteq> T \<Longrightarrow> closed_key parse db iv p T k"
  unfolding closed_key_def by blast

definition scoped :: "(string \<Rightarrow> json res) \<Rightarrow> kb \<Rightarrow> json \<Rightarrow> string \<Rightarrow> string list \<Rightarrow> string list \<Rightarrow> bool" where
  "scoped parse db iv p seen seen' \<longleftrightarrow>
     set seen \<subseteq> set seen' \<and> (\<forall>k \<in> set seen' - set seen. closed_key parse db iv p (set seen') k)"

lemma scoped_refl: "scoped parse db iv p seen seen"
  by (simp add: scoped_def)

lemma scoped_trans: "scoped parse db iv p a b \<Longrightarrow> scoped parse db iv p b c \<Longrightarrow> scoped parse db iv p a c"
  unfolding scoped_def by (blast intro: closed_key_mono)

lemma record_at_pin_stored: "record_at_pin parse db p d rid = Inr j \<Longrightarrow> stored parse db p j"
  unfolding record_at_pin_def pinned_row_def stored_def
  by (auto dest!: find_SomeD split: option.splits if_splits)

text \<open>One dependency and the rest of the loop.\<close>

lemma scope_deps_Cons:
  assumes "scope_deps parse db iv depth p (d # ds) seen = Inr seen'"
  obtains type rid seen1 where "jat ''type'' d = Inr (JStr type)" "jat ''id'' d = Inr (JStr rid)"
    "scope_deps parse db iv depth p ds seen1 = Inr seen'"
    "if type = ''record''
     then \<exists>r. record_at_pin parse db p d rid = Inr r \<and> knowledge_scope parse db iv (Suc depth) r seen = Inr seen1
     else check_leaf parse db iv p type rid = Inr () \<and> seen1 = seen"
proof -
  obtain type rid seen1 where "jat ''type'' d = Inr (JStr type)" "jat ''id'' d = Inr (JStr rid)"
    "scope_deps parse db iv depth p ds seen1 = Inr seen'"
    "(if type = ''record''
      then bindE (record_at_pin parse db p d rid) (\<lambda>r. knowledge_scope parse db iv (Suc depth) r seen)
      else bindE (check_leaf parse db iv p type rid) (\<lambda>_. Inr seen)) = Inr seen1"
    using assms unfolding scope_deps.simps by (elim bindE_elims) (simp only: jstr_at_eq_Inr)
  then show ?thesis by (intro that[of type rid seen1]) (auto split: if_splits)
qed

lemma scope_deps_scoped:
  assumes deeper: "\<And>r seen seen'. knowledge_scope parse db iv (Suc depth) r seen = Inr seen' \<Longrightarrow> stored parse db p r \<Longrightarrow>
      scoped parse db iv p seen seen' \<and> (\<exists>k \<in> set seen'. record_key r = Inr k)"
    and "scope_deps parse db iv depth p ds seen = Inr seen'"
  shows "scoped parse db iv p seen seen' \<and>
    (\<forall>d \<in> set ds. \<exists>type rid. jat ''type'' d = Inr (JStr type) \<and> jat ''id'' d = Inr (JStr rid) \<and>
       (if type = ''record'' then \<forall>j. record_at_pin parse db p d rid = Inr j \<longrightarrow> (\<exists>k \<in> set seen'. record_key j = Inr k)
        else check_leaf parse db iv p type rid = Inr ()))"
  using assms(2)
proof (induction ds arbitrary: seen)
  case Nil
  then show ?case by (simp add: scope_deps.simps scoped_refl)
next
  case (Cons d ds)
  from Cons.prems show ?case
  proof (cases rule: scope_deps_Cons)
    case (1 type rid seen1)
    note rest = Cons.IH[OF 1(3)]
    show ?thesis
    proof (cases "type = ''record''")
      case True
      then obtain r where r: "record_at_pin parse db p d rid = Inr r" "knowledge_scope parse db iv (Suc depth) r seen = Inr seen1"
        using 1(4) by auto
      have s: "scoped parse db iv p seen seen1" "\<exists>k \<in> set seen1. record_key r = Inr k"
        using deeper[OF r(2) record_at_pin_stored[OF r(1)]] by auto
      then have "\<exists>k \<in> set seen'. record_key r = Inr k" using rest unfolding scoped_def by blast
      then show ?thesis using True 1(1,2) r(1) s(1) rest scoped_trans by auto
    next
      case False
      then show ?thesis using 1 rest by auto
    qed
  qed
qed

lemma knowledge_scope_cases:
  assumes "knowledge_scope parse db iv depth r seen = Inr seen'"
  obtains (seen) key where "depth \<le> 16" "check_artifact iv r = Inr ()" "record_key r = Inr key" "key \<in> set seen" "seen' = seen"
  | (new) key p ds where "depth \<le> 16" "check_artifact iv r = Inr ()" "record_key r = Inr key" "key \<notin> set seen"
      "jat ''project'' iv = Inr (JStr p)" "jat ''dependencies'' r = Inr ds"
      "scope_deps parse db iv depth p (jrange ds) (key # seen) = Inr seen'"
proof (cases "depth > 16 \<or> length seen \<ge> 128")
  case True
  then show ?thesis using assms by (simp add: knowledge_scope.simps)
next
  case False
  then have "bindE (check_artifact iv r) (\<lambda>_. bindE (record_key r) (\<lambda>key.
          if key \<in> set seen then Inr seen
          else bindE (jstr_at ''project'' iv) (\<lambda>p. bindE (jat ''dependencies'' r) (\<lambda>ds.
            scope_deps parse db iv depth p (jrange ds) (key # seen))))) = Inr seen'"
    using assms by (simp add: knowledge_scope.simps)
  then obtain key where k: "check_artifact iv r = Inr ()" "record_key r = Inr key"
    "(if key \<in> set seen then Inr seen
          else bindE (jstr_at ''project'' iv) (\<lambda>p. bindE (jat ''dependencies'' r) (\<lambda>ds.
            scope_deps parse db iv depth p (jrange ds) (key # seen)))) = Inr seen'"
    by (elim bindE_elims) (rule that, simp_all)
  show ?thesis
  proof (cases "key \<in> set seen")
    case True
    then show ?thesis using False k by (intro seen[of key]) simp_all
  next
    case nk: False
    then obtain p ds where "jat ''project'' iv = Inr (JStr p)" "jat ''dependencies'' r = Inr ds"
      "scope_deps parse db iv depth p (jrange ds) (key # seen) = Inr seen'"
      using k(3) by auto
    then show ?thesis using False k(1,2) nk by (intro new[of key p ds]) simp_all
  qed
qed

lemma knowledge_scope_scoped:
  assumes "self_named parse db" "jat ''project'' iv = Inr (JStr p)"
  shows "knowledge_scope parse db iv depth r seen = Inr seen' \<Longrightarrow> stored parse db p r \<Longrightarrow>
    scoped parse db iv p seen seen' \<and> (\<exists>k \<in> set seen'. record_key r = Inr k)"
proof (induction "17 - depth" arbitrary: depth r seen seen' rule: less_induct)
  case less
  from less.prems(1) show ?case
  proof (cases rule: knowledge_scope_cases)
    case (seen key)
    then show ?thesis by (auto simp: scoped_refl)
  next
    case (new key p' ds)
    have p': "p' = p" using new(5) assms(2) by simp
    have deeper: "scoped parse db iv p a b \<and> (\<exists>k \<in> set b. record_key j = Inr k)"
      if "knowledge_scope parse db iv (Suc depth) j a = Inr b" "stored parse db p j" for j a b
      using less.hyps[of "Suc depth"] that new(1) by auto
    note ds = scope_deps_scoped[OF deeper new(7)[unfolded p']]
    have sub: "scoped parse db iv p (key # seen) seen'" using ds by blast
    have "closed_key parse db iv p (set seen') key"
      unfolding closed_key_def
    proof (intro allI impI, elim conjE)
      fix j assume j: "stored parse db p j" "record_key j = Inr key"
      then have [simp]: "j = r" using stored_unique[OF assms(1) j(1) less.prems(2)] new(3) by simp
      have "inside parse db iv p r"
        using new(6) ds check_artifact_inside[OF new(2)] check_leaf_inside unfolding inside_def by (auto split: if_splits)
      moreover have "\<exists>k' \<in> set seen'. record_key j' = Inr k'" if "record_dep parse db p r j'" for j'
        using that ds new(6) unfolding record_dep_def by fastforce
      ultimately show "inside parse db iv p j \<and> (\<forall>j'. record_dep parse db p j j' \<longrightarrow> (\<exists>k' \<in> set seen'. record_key j' = Inr k'))"
        by simp
    qed
    then have "scoped parse db iv p seen seen'" using sub unfolding scoped_def by auto
    moreover have "key \<in> set seen'" using sub unfolding scoped_def by auto
    ultimately show ?thesis using new(3) by blast
  qed
qed

section \<open>Property\<close>

text \<open>
  C24. When the check of a record succeeds, the record and everything that it rests on, through any
  number of pinned records, belong to the components of the investigation.
\<close>

theorem checked_knowledge_is_inside:
  assumes "harness_check_knowledge parse db iv r = Inr ()" "jat ''project'' iv = Inr (JStr p)"
    and "self_named parse db" "stored parse db p r"
    and "(record_dep parse db p)\<^sup>*\<^sup>* r r'"
  shows "inside parse db iv p r'"
proof -
  obtain seen where seen: "knowledge_scope parse db iv 0 r [] = Inr seen"
    using assms(1) unfolding harness_check_knowledge_def by auto
  have s: "\<forall>k \<in> set seen. closed_key parse db iv p (set seen) k" "\<exists>k \<in> set seen. record_key r = Inr k"
    using knowledge_scope_scoped[OF assms(3,2) seen assms(4)] by (auto simp: scoped_def)
  have "stored parse db p r' \<and> (\<exists>k \<in> set seen. record_key r' = Inr k)"
    using assms(5)
  proof (induction rule: rtranclp_induct)
    case base
    then show ?case using s assms(4) by blast
  next
    case (step y z)
    then have "stored parse db p z" unfolding record_dep_def using record_at_pin_stored by blast
    then show ?case using step s(1) unfolding closed_key_def by blast
  qed
  then show ?thesis using s(1) unfolding closed_key_def by blast
qed

section \<open>A concrete instance\<close>

definition boundary_record :: "string \<Rightarrow> json list \<Rightarrow> json" where
  "boundary_record rid ds = jobj [(''id'', JStr rid), (''revision'', jnat 1), (''scope'', jobj [(''artifact_sha256'', JStr ''x'')]),
     (''dependencies'', JArr ds)]"

definition boundary_a :: json where
  "boundary_a = boundary_record ''a'' [jobj [(''type'', JStr ''record''), (''id'', JStr ''b''), (''pin'', JStr ''1'')]]"

definition boundary_b :: json where
  "boundary_b = boundary_record ''b'' [jobj [(''type'', JStr ''artifact''), (''id'', JStr ''x'')]]"

definition boundary_parse :: "string \<Rightarrow> json res" where
  "boundary_parse text = (if text = ''A'' then Inr boundary_a else if text = ''B'' then Inr boundary_b else Inl Json_Parse)"

definition boundary_row :: "string \<Rightarrow> string \<Rightarrow> record_row" where
  "boundary_row rid text = \<lparr>k_project = ''p'', k_id = rid, k_revision = 1, k_kind = ''product'', k_record = text,
     k_sha = sha256_text text\<rparr>"

definition boundary_kb :: kb where
  "boundary_kb = demo_kb\<lparr>records := [boundary_row ''a'' ''A'', boundary_row ''b'' ''B'']\<rparr>"

definition boundary_scope :: json where
  "boundary_scope = jobj [(''project'', JStr ''p''), (''target_id'', JStr ''t''), (''artifact_sha256'', JStr ''x'')]"

lemma boundary_contains: "harness_contains_artifact boundary_scope (JStr ''x'') = Inr True"
  by (simp add: harness_contains_artifact_def harness_components_def boundary_scope_def root_component_def json_simps)

lemma boundary_key: "record_key (boundary_record rid ds) = Inr (rid @ '':1'')"
proof -
  have "dump (jnat 1) = Inr ''1''" by code_simp
  then show ?thesis by (simp add: record_key_def boundary_record_def json_simps jstr_at_def)
qed

lemma boundary_artifact: "check_artifact boundary_scope (boundary_record rid ds) = Inr ()"
  by (simp add: check_artifact_def boundary_record_def json_simps boundary_contains)

lemma boundary_pin:
  "record_at_pin boundary_parse boundary_kb ''p'' (jobj [(''type'', JStr ''record''), (''id'', JStr ''b''), (''pin'', JStr ''1'')]) ''b''
     = Inr boundary_b"
proof -
  have "to_string 1 = ''1''" by code_simp
  then show ?thesis
    by (simp add: record_at_pin_def jvalue_str_def json_simps pinned_row_def boundary_kb_def boundary_row_def boundary_parse_def)
qed

lemma boundary_dependencies: "jat ''dependencies'' (boundary_record rid ds) = Inr (JArr ds)"
  by (simp add: boundary_record_def json_simps)

theorem checked_knowledge_is_inside_witness:
  "harness_check_knowledge boundary_parse boundary_kb boundary_scope boundary_a = Inr () \<and>
     inside boundary_parse boundary_kb boundary_scope ''p'' boundary_b"
proof -
  have p: "jat ''project'' boundary_scope = Inr (JStr ''p'')" by (simp add: boundary_scope_def json_simps)
  have check: "harness_check_knowledge boundary_parse boundary_kb boundary_scope boundary_a = Inr ()"
    using p boundary_pin
    by (simp add: harness_check_knowledge_def boundary_a_def boundary_b_def knowledge_scope.simps scope_deps.simps
        boundary_artifact boundary_key boundary_dependencies json_simps jstr_at_def check_leaf_def leaf_artifact_def boundary_contains)
  have "to_string 1 = ''1''" by code_simp
  then have self: "self_named boundary_parse boundary_kb"
    using boundary_key by (auto simp: self_named_def boundary_kb_def boundary_row_def boundary_parse_def boundary_a_def boundary_b_def)
  have st: "stored boundary_parse boundary_kb ''p'' boundary_a"
    by (simp add: stored_def boundary_kb_def boundary_row_def boundary_parse_def)
  have "record_dep boundary_parse boundary_kb ''p'' boundary_a boundary_b"
    unfolding record_dep_def using boundary_pin
    by (intro exI[of _ "JArr [jobj [(''type'', JStr ''record''), (''id'', JStr ''b''), (''pin'', JStr ''1'')]]"]
          exI[of _ "jobj [(''type'', JStr ''record''), (''id'', JStr ''b''), (''pin'', JStr ''1'')]"] exI[of _ "''b''"])
      (simp add: boundary_a_def boundary_dependencies json_simps)
  then have "(record_dep boundary_parse boundary_kb ''p'')\<^sup>*\<^sup>* boundary_a boundary_b" by blast
  then show ?thesis using checked_knowledge_is_inside[OF check p self st] check by blast
qed

end
