(* ===== verification/Ind_Research.thy ===== *)
theory Ind_Research
  imports Ind_Boundary Ind_Artifact
begin

text \<open>
  The research workflow (\<^verbatim>\<open>src/research_workflow.cpp\<close>): typed bodies for algorithm candidates,
  their comparison with observed runs, service contracts and their observations; the seal that pins
  what a normalized request rests on; and its execution.  No body claims more than agreement on the
  listed inputs.
\<close>

section \<open>Bounded fields\<close>

definition text_limit :: "nat \<Rightarrow> json \<Rightarrow> unit res" where
  "text_limit n v = (case v of JStr s \<Rightarrow> throw_if (s = [] \<or> length s > n) ''bounded nonempty text required'' (Inr ())
     | _ \<Rightarrow> throw ''bounded nonempty text required'')"

definition hex_limit :: "nat \<Rightarrow> json \<Rightarrow> unit res" where
  "hex_limit n v = (case v of
       JStr s \<Rightarrow> throw_if (length s > n * 2 \<or> odd (length s) \<or> \<not> only_of hex_digits s) ''invalid bounded lowercase hex'' (Inr ())
     | _ \<Rightarrow> throw ''hex string required'')"

definition raw_hex :: "string \<Rightarrow> string res" where
  "raw_hex h = bindE (hex_limit 4096 (JStr h)) (\<lambda>_. Inr (unhex h))"

definition check_all :: "(json \<Rightarrow> unit res) \<Rightarrow> json list \<Rightarrow> unit res" where
  "check_all f xs = foldE (\<lambda>x _. f x) xs ()"

section \<open>Exact receipts\<close>

definition native_authors :: "string list" where
  "native_authors = [''native-helper'', ''native-experiment'', ''native-research'']"

definition native_operation :: "string \<Rightarrow> string" where
  "native_operation author = (if author = ''native-helper'' then ''helper.run''
     else if author = ''native-experiment'' then ''experiment.run'' else ''research.run'')"

text \<open>A field of an object that differs from an expected value.\<close>

definition field_differs :: "string \<Rightarrow> json \<Rightarrow> json \<Rightarrow> bool res" where
  "field_differs k j v = bindE (jat k j) (\<lambda>w. Inr (\<not> jeq w v))"

definition check_publication :: "(string \<Rightarrow> json res) \<Rightarrow> kb \<Rightarrow> json \<Rightarrow> json \<Rightarrow> string \<Rightarrow> string \<Rightarrow> unit res" where
  "check_publication parse db args r author sha =
     throw_if (\<not> contains r ''harness_origin'') ''native research evidence requires committed harness publication'' (
     bindE (jat ''harness_origin'' r) (\<lambda>origin.
     bindE (jstr_at ''project'' args) (\<lambda>p. bindE (jstr_at ''action'' origin) (\<lambda>act.
       case find (\<lambda>a. a_project a = p \<and> a_id a = act) (actions db) of
         None \<Rightarrow> throw ''native publication action missing''
       | Some row \<Rightarrow>
           bindE (parse (a_record row)) (\<lambda>a.
           bindE (any_differs
             [bindE (jat ''request'' a) (\<lambda>q. field_differs ''operation'' q (JStr (native_operation author))),
              bindE (jat ''publication'' a) (\<lambda>q. field_differs ''sha256'' q (JStr sha)),
              bindE (jat ''publication'' a) (\<lambda>q. bindE (jat ''id'' r) (field_differs ''knowledge_id'' q)),
              bindE (jat ''publication'' a) (\<lambda>q. bindE (jat ''revision'' r) (field_differs ''revision'' q))]) (\<lambda>bad.
             throw_if bad ''native publication origin mismatch'' (Inr ())))))))"

text \<open>The row of a signed revision; revisions are positive.\<close>

definition exact_row :: "kb \<Rightarrow> string \<Rightarrow> string \<Rightarrow> int \<Rightarrow> record_row option" where
  "exact_row db p rid rv = (if rv < 0 then None else row_of db p rid (nat rv))"

definition exact_record :: "(string \<Rightarrow> json res) \<Rightarrow> kb \<Rightarrow> json \<Rightarrow> json \<Rightarrow> json res" where
  "exact_record parse db args ref =
     bindE (check_keys ref [''id'', ''revision'', ''sha256'']) (\<lambda>_.
     bindE (jstr_at ''project'' args) (\<lambda>p. bindE (jstr_at ''id'' ref) (\<lambda>rid.
     bindE (jat ''revision'' ref) (\<lambda>rj. bindE (ji64 rj) (\<lambda>rv.
       case exact_row db p rid rv of
         None \<Rightarrow> throw ''unknown exact research receipt''
       | Some row \<Rightarrow>
           throw_if (sha256_text (k_record row) \<noteq> k_sha row \<or>
               (contains ref ''sha256'' \<and> jat ''sha256'' ref \<noteq> Inr (JStr (k_sha row))))
             ''research receipt integrity mismatch'' (
           bindE (parse (k_record row)) (\<lambda>r.
           bindE (jat ''scope'' r) (\<lambda>scope. bindE (jat ''scope'' args) (\<lambda>wanted.
           throw_if (\<not> jeq scope wanted) ''research receipt outside selected artifact scope'' (
           bindE (jvalue_str ''author'' [] r) (\<lambda>author.
           bindE (if author \<in> set native_authors then check_publication parse db args r author (k_sha row) else Inr ())
             (\<lambda>_. Inr r))))))))))))"

definition native_record :: "string \<Rightarrow> string \<Rightarrow> json \<Rightarrow> unit res" where
  "native_record schema author r =
     bindE (any_differs
       [field_differs ''kind'' r (JStr ''product''),
        bindE (jat ''body'' r) (\<lambda>b. bindE (jvalue_str ''schema'' [] b) (\<lambda>s. Inr (s \<noteq> schema))),
        bindE (jvalue_str ''author'' [] r) (\<lambda>a. Inr (a \<noteq> author))]) (\<lambda>bad.
       throw_if bad ''native typed receipt required; assertions are not observations'' (Inr ()))"

section \<open>Discriminating inputs\<close>

text \<open>
  \<open>add_input\<close> is the lambda \<^verbatim>\<open>add\<close>: once \<open>count\<close> inputs are collected it does nothing, which
  is why the guards of the loops around it need not be repeated; \<^verbatim>\<open>seen\<close> holds the inputs added.
\<close>

definition add_input :: "nat \<Rightarrow> string \<times> string \<Rightarrow> (string \<times> string) list \<Rightarrow> (string \<times> string) list" where
  "add_input count = (\<lambda>(h, why) xs. if length xs < count \<and> h \<notin> fst ` set xs then xs @ [(h, why)] else xs)"

definition flip_bit :: "string \<Rightarrow> nat \<Rightarrow> nat \<Rightarrow> string" where
  "flip_bit seed i b =
     (let value = (16 * hexval (seed ! (2 * i)) + hexval (seed ! (2 * i + 1))) XOR 2 ^ b
      in (seed[2 * i := digit_char (value div 16)])[2 * i + 1 := digit_char (value mod 16)])"

definition bit_flips :: "string \<Rightarrow> (string \<times> string) list" where
  "bit_flips seed = concat (map (\<lambda>i. map (\<lambda>b. (flip_bit seed i b, ''single-bit perturbation'')) [0..<8])
     [0..<length seed div 2])"

definition byte_sweep :: "(string \<times> string) list" where
  "byte_sweep = map (\<lambda>v. ([digit_char (v div 16), digit_char (v mod 16)], ''byte boundary sweep'')) [0..<256]"

definition stimuli :: "string \<Rightarrow> (string \<times> string) list" where
  "stimuli seed = [(seed, ''baseline''), ([], ''empty boundary''), (seed @ ''00'', ''length extension'')] @
     (if length seed > 1 then [(take (length seed - 2) seed, ''length truncation'')] else []) @
     bit_flips seed @ byte_sweep"

definition stimulus_json :: "string \<times> string \<Rightarrow> json" where
  "stimulus_json = (\<lambda>(h, why). jobj [(''input_hex'', JStr h), (''rationale'', JStr why), (''origin'', JStr ''experimental_stimulus'')])"

definition candidates :: "json \<Rightarrow> json list res" where
  "candidates spec =
     bindE (jstr_at ''seed_hex'' spec) (\<lambda>seed.
     bindE (hex_limit 64 (JStr seed)) (\<lambda>_.
     bindE (bound spec ''count'' 8 16) (\<lambda>count.
       throw_if (count < 2) ''discriminating input count must be 2..16''
         (Inr (map stimulus_json (fold (add_input count) (stimuli seed) []))))))"

section \<open>Bodies\<close>

text \<open>\<open>copy_field k\<close> is \<^verbatim>\<open>body[k] = s.at(k)\<close>.\<close>

definition copy_field :: "json \<Rightarrow> string \<Rightarrow> json \<Rightarrow> json res" where
  "copy_field s k body = bindE (jat k s) (\<lambda>v. Inr (jput k v body))"

definition body_header :: "json \<Rightarrow> string \<Rightarrow> json res" where
  "body_header args kind =
     bindE (dump args) (\<lambda>text. Inr (jobj [(''schema'', JStr ''indago.research.v1''), (''kind'', JStr kind),
       (''request_sha256'', JStr (sha256_text text)), (''verified_solve'', JBool False),
       (''universal_equivalence'', JBool False)]))"

definition helper_languages :: "string list" where
  "helper_languages = [''c17'', ''c++20'', ''python3'', ''smt2'', ''unicorn-x86'']"

text \<open>An array field with a number of elements between bounds.\<close>

definition sized_array :: "string \<Rightarrow> nat \<Rightarrow> nat \<Rightarrow> string \<Rightarrow> json \<Rightarrow> json res" where
  "sized_array k least most message s =
     bindE (jat k s) (\<lambda>v. throw_if (\<not> is_array v \<or> jsize v < least \<or> jsize v > most) message (Inr v))"

definition retained_input :: "json \<Rightarrow> json list \<Rightarrow> json list res" where
  "retained_input c inputs =
     (if length inputs < 32 then
        bindE (jat ''input_hex'' c) (\<lambda>h.
          Inr (inputs @ [jobj [(''input_hex'', h), (''rationale'', JStr ''retained counterexample; must replay''),
            (''origin'', JStr ''experimental_stimulus'')]]))
      else Inr inputs)"

text \<open>A candidate that revises an earlier one keeps the counterexamples of its comparison.\<close>

definition revise_candidate :: "(string \<Rightarrow> json res) \<Rightarrow> kb \<Rightarrow> json \<Rightarrow> json \<Rightarrow> json list \<Rightarrow> json \<Rightarrow> json res" where
  "revise_candidate parse db args s inputs body =
     (if \<not> contains s ''previous'' then Inr (jput ''suggested_inputs'' (JArr inputs) body)
      else
        bindE (jat ''previous'' s) (\<lambda>ref. bindE (exact_record parse db args ref) (\<lambda>previous.
        bindE (native_record ''indago.research.v1'' ''native-research'' previous) (\<lambda>_.
        bindE (jat ''body'' previous) (\<lambda>b. bindE (field_differs ''kind'' b (JStr ''algorithm_comparison'')) (\<lambda>bad.
        throw_if bad ''revision requires a prior comparison'' (
        bindE (jat ''counterexamples'' b) (\<lambda>ces.
        bindE (foldE retained_input (jrange ces) inputs) (\<lambda>inputs.
          Inr (jput ''suggested_inputs'' (JArr inputs) (jput ''counterexamples'' ces (jput ''previous'' ref body))))))))))))"

definition candidate_next :: string where
  "candidate_next = ''Run this exact source in helper.run with input.generated_hex, run the same stdin on the granted original target through experiment.run, then submit exact receipt pairs to algorithm_comparison. Never substitute predicted target outputs.''"

definition candidate_body :: "(string \<Rightarrow> json res) \<Rightarrow> kb \<Rightarrow> json \<Rightarrow> json \<Rightarrow> json \<Rightarrow> json res" where
  "candidate_body parse db args s body =
     bindE (check_keys s [''kind'', ''domain'', ''assumptions'', ''evidence'', ''language'', ''source_code'',
       ''generator'', ''previous'']) (\<lambda>_.
     bindE (bindE (jat ''domain'' s) (text_limit 2048)) (\<lambda>_.
     bindE (bindE (jat ''source_code'' s) (text_limit 16384)) (\<lambda>_.
     bindE (jstr_at ''language'' s) (\<lambda>language.
     throw_if (language \<notin> set helper_languages) ''unsupported algorithm helper language'' (
     bindE (sized_array ''assumptions'' 0 16 ''algorithm assumptions bound'' s) (\<lambda>assumptions.
     bindE (check_all (text_limit 2048) (elems assumptions)) (\<lambda>_.
     bindE (sized_array ''evidence'' 1 8 ''algorithm needs 1..8 exact evidence records'' s) (\<lambda>evidence.
     bindE (mapE (exact_record parse db args) (elems evidence)) (\<lambda>_.
     bindE (jat ''generator'' s) (\<lambda>generator. bindE (check_keys generator [''seed_hex'', ''count'']) (\<lambda>_.
     bindE (foldE (copy_field s) [''domain'', ''assumptions'', ''evidence'', ''language'', ''source_code''] body) (\<lambda>body.
     bindE (jstr_at ''source_code'' s) (\<lambda>source.
     bindE (candidates generator) (\<lambda>inputs.
     bindE (revise_candidate parse db args s inputs (jput ''status'' (JStr ''candidate'')
         (jput ''tested_domain'' (JArr []) (jput ''counterexamples'' (JArr [])
           (jput ''source_sha256'' (JStr (sha256_text source)) body))))) (\<lambda>body.
       Inr (jput ''next_action'' (JStr candidate_next) body))))))))))))))))"

section \<open>Comparison with observed runs\<close>

record compare_state =
  c_tested :: "string list"
  c_mismatches :: nat
  c_incomplete :: nat
  c_counterexamples :: json
  c_rows :: "json list"

definition comparison_row :: "json \<Rightarrow> nat \<Rightarrow> json \<Rightarrow> json \<Rightarrow> string \<Rightarrow> json res" where
  "comparison_row pair index h trial input =
     bindE (jat ''helper'' pair) (\<lambda>helper. bindE (jat ''experiment'' pair) (\<lambda>experiment.
     bindE (jat ''status'' h) (\<lambda>status.
     bindE (jvalue_str ''untrusted_diagnostic_preview'' [] h) (\<lambda>diagnostic.
     bindE (jvalue_str ''status'' ''unknown'' trial) (\<lambda>target_status.
       Inr (jobj [(''input_hex'', JStr input), (''helper'', helper), (''experiment'', experiment), (''case'', jnat index),
         (''agreement'', JBool False), (''complete'', JBool False), (''helper_status'', status),
         (''helper_diagnostic'', JStr diagnostic), (''target_status'', JStr target_status)]))))))"

text \<open>The observation behind a trial, when the helper and the trial carry one.\<close>

definition observed_data :: "json \<Rightarrow> json \<Rightarrow> json option res" where
  "observed_data h trial =
     bindE (jvalue_bool ''repeatable_observed'' False h) (\<lambda>repeatable. if \<not> repeatable then Inr None else
     bindE (jvalue_bool ''source_current_at_publication'' False h) (\<lambda>current. if \<not> current \<or> \<not> contains trial ''state'' then Inr None else
     bindE (jat ''state'' trial) (\<lambda>state. if \<not> contains state ''observation'' then Inr None else
     bindE (jat ''observation'' state) (\<lambda>ob. bindE (jat ''data'' ob) (\<lambda>o'.
     bindE (jvalue_bool ''complete'' False o') (\<lambda>complete. if \<not> complete then Inr None else
     bindE (jat ''input'' trial) (\<lambda>i. bindE (jvalue_str ''engine'' [] i) (\<lambda>engine.
       Inr (if engine = ''io'' then Some o' else None)))))))))"

definition complete_row :: "json \<Rightarrow> json \<Rightarrow> json \<Rightarrow> json \<Rightarrow> (json \<times> bool) res" where
  "complete_row h trial o' row =
     bindE (jat ''output_hex'' h) (\<lambda>actual. bindE (jat ''output_hex'' o') (\<lambda>expected. bindE (jat ''input'' trial) (\<lambda>controls.
       Inr (jput ''controls'' controls (jput ''agreement'' (JBool (jeq actual expected))
         (jput ''expected_hex'' expected (jput ''actual_hex'' actual (jput ''complete'' (JBool True) row)))), jeq actual expected))))"

text \<open>What a row adds to the totals: nothing known, a match, or a counterexample to retain.\<close>

definition count_row :: "json \<Rightarrow> bool option \<Rightarrow> compare_state \<Rightarrow> compare_state res" where
  "count_row row verdict s =
     (case verdict of
        None \<Rightarrow> Inr (s\<lparr>c_incomplete := Suc (c_incomplete s), c_rows := c_rows s @ [row]\<rparr>)
      | Some True \<Rightarrow> Inr (s\<lparr>c_rows := c_rows s @ [row]\<rparr>)
      | Some False \<Rightarrow>
          throw_if (\<not> jsize (c_counterexamples s) < 64) ''counterexample retention bound reached; split workflow'' (
          bindE (push_back row (c_counterexamples s)) (\<lambda>ces.
            Inr (s\<lparr>c_mismatches := Suc (c_mismatches s), c_counterexamples := ces, c_rows := c_rows s @ [row]\<rparr>))))"

definition matches_candidate :: "json \<Rightarrow> json \<Rightarrow> unit res" where
  "matches_candidate c h =
     bindE (any_differs
       [bindE (jat ''source_sha256'' c) (field_differs ''source_sha256'' h),
        bindE (jat ''language'' c) (field_differs ''language'' h)]) (\<lambda>bad.
       throw_if bad ''helper source differs from candidate'' (Inr ()))"

definition pair_receipts :: "(string \<Rightarrow> json res) \<Rightarrow> kb \<Rightarrow> json \<Rightarrow> json \<Rightarrow> (json \<times> json) res" where
  "pair_receipts parse db args pair =
     bindE (jat ''helper'' pair) (\<lambda>href. bindE (exact_record parse db args href) (\<lambda>helper.
     bindE (jat ''experiment'' pair) (\<lambda>eref. bindE (exact_record parse db args eref) (\<lambda>experiment.
     bindE (native_record ''indago.helper-run.v1'' ''native-helper'' helper) (\<lambda>_.
     bindE (native_record ''indago.experiment.v1'' ''native-experiment'' experiment) (\<lambda>_.
     bindE (jat ''body'' helper) (\<lambda>h. bindE (jat ''body'' experiment) (\<lambda>e. Inr (h, e)))))))))"

text \<open>The input of a trial, which the helper must have run on.\<close>

definition pair_input :: "json \<Rightarrow> json \<Rightarrow> string res" where
  "pair_input h trial =
     bindE (jat ''input'' trial) (\<lambda>i. bindE (jstr_at ''input_hex'' i) (\<lambda>input.
     bindE (jat ''input'' h) (\<lambda>hi. bindE (jat ''slice_sha256'' hi) (\<lambda>slice.
     bindE (raw_hex input) (\<lambda>raw.
       throw_if (slice \<noteq> JStr (sha256_text raw)) ''helper and target inputs differ'' (Inr input))))))"

definition add_pair :: "(string \<Rightarrow> json res) \<Rightarrow> kb \<Rightarrow> json \<Rightarrow> json \<Rightarrow> json \<Rightarrow> compare_state \<Rightarrow> compare_state res" where
  "add_pair parse db args c pair s =
     bindE (check_keys pair [''helper'', ''experiment'', ''case'']) (\<lambda>_.
     bindE (pair_receipts parse db args pair) (\<lambda>(h, e).
     bindE (matches_candidate c h) (\<lambda>_.
     bindE (bound pair ''case'' 0 1) (\<lambda>index.
     bindE (jat ''cases'' e) (\<lambda>cases. bindE (jnth index cases) (\<lambda>trial.
     bindE (pair_input h trial) (\<lambda>input.
     throw_if (input \<in> set (c_tested s)) ''duplicate comparison input'' (
     bindE (comparison_row pair index h trial input) (\<lambda>row.
     bindE (observed_data h trial) (\<lambda>observed.
     bindE (case observed of None \<Rightarrow> Inr (row, None)
            | Some o' \<Rightarrow> bindE (complete_row h trial o' row) (\<lambda>(row, same). Inr (row, Some same))) (\<lambda>(row, verdict).
       count_row row verdict (s\<lparr>c_tested := input # c_tested s\<rparr>))))))))))))"

definition pending_input :: "string list \<Rightarrow> json \<Rightarrow> json list \<Rightarrow> json list res" where
  "pending_input tested old pending =
     bindE (jat ''input_hex'' old) (\<lambda>v. bindE (jstr v) (\<lambda>h.
       Inr (if h \<in> set tested then pending else pending @ [v])))"

definition comparison_status :: "compare_state \<Rightarrow> json list \<Rightarrow> string \<times> string" where
  "comparison_status s pending =
     (if c_mismatches s \<noteq> 0 then (''counterexample'', ''candidate_disagreement'')
      else if c_incomplete s \<noteq> 0 then (''incomplete'', ''incomplete_observation'')
      else if pending \<noteq> [] then (''incomplete'', ''counterexample_not_replayed'')
      else (''agreement_on_tested_inputs'', ''none''))"

definition comparison_next :: "compare_state \<Rightarrow> json list \<Rightarrow> string" where
  "comparison_next s pending =
     (if c_mismatches s \<noteq> 0
      then ''Revise candidate with previous pointing to this comparison; replay retained counterexamples.''
      else if c_incomplete s \<noteq> 0
      then ''Read tested_domain helper_status/helper_diagnostic and target_status. Repair the failed helper or incomplete experiment before generating additional inputs; retain prior source and receipts.''
      else if pending \<noteq> [] then ''Replay the listed retained counterexamples before claiming tested agreement.''
      else ''Generate new discriminating inputs or test a new environment; do not infer universal equivalence.'')"

definition comparison_limit :: string where
  "comparison_limit = ''Exact stdout agreement only on complete listed runs and controls. No success-branch, semantic, universal-equivalence or solve proof.''"

definition finish_comparison :: "json \<Rightarrow> compare_state \<Rightarrow> json \<Rightarrow> json res" where
  "finish_comparison c s body =
     bindE (jat ''counterexamples'' c) (\<lambda>old.
     bindE (foldE (pending_input (c_tested s)) (jrange old) []) (\<lambda>pending.
       Inr (jput ''next_action'' (JStr (comparison_next s pending))
         (jput ''failure_category'' (JStr (snd (comparison_status s pending)))
         (jput ''scope_limit'' (JStr comparison_limit)
         (jput ''status'' (JStr (fst (comparison_status s pending)))
         (jput ''unreplayed_counterexamples'' (JArr pending)
         (jput ''tested_domain'' (JArr (c_rows s)) (jput ''counterexamples'' (c_counterexamples s) body)))))))))"

definition comparison_candidate :: "(string \<Rightarrow> json res) \<Rightarrow> kb \<Rightarrow> json \<Rightarrow> json \<Rightarrow> json res" where
  "comparison_candidate parse db args s =
     bindE (jat ''candidate'' s) (\<lambda>ref. bindE (exact_record parse db args ref) (\<lambda>candidate.
     bindE (native_record ''indago.research.v1'' ''native-research'' candidate) (\<lambda>_.
     bindE (jat ''body'' candidate) (\<lambda>c. bindE (field_differs ''kind'' c (JStr ''algorithm_candidate'')) (\<lambda>bad.
       throw_if bad ''algorithm candidate required'' (Inr c))))))"

definition comparison_body :: "(string \<Rightarrow> json res) \<Rightarrow> kb \<Rightarrow> json \<Rightarrow> json \<Rightarrow> json \<Rightarrow> json res" where
  "comparison_body parse db args s body =
     bindE (check_keys s [''kind'', ''candidate'', ''pairs'']) (\<lambda>_.
     bindE (comparison_candidate parse db args s) (\<lambda>c.
     bindE (sized_array ''pairs'' 1 16 ''comparison allows 1..16 receipt pairs'' s) (\<lambda>pairs.
     bindE (copy_field s ''candidate'' body) (\<lambda>body.
     bindE (foldE (copy_field c) [''domain'', ''assumptions''] body) (\<lambda>body.
     bindE (jat ''counterexamples'' c) (\<lambda>ces.
     bindE (foldE (add_pair parse db args c) (elems pairs)
         \<lparr>c_tested = [], c_mismatches = 0, c_incomplete = 0, c_counterexamples = ces, c_rows = []\<rparr>) (\<lambda>t.
       finish_comparison c t body)))))))"

section \<open>Service contracts\<close>

definition capture_keys :: "string list" where
  "capture_keys = [''target_id'', ''offset'', ''max_bytes'']"

text \<open>The exact bytes of a named artifact of the project.\<close>

definition capture_page :: "loader \<Rightarrow> store \<Rightarrow> json \<Rightarrow> json \<Rightarrow> json res" where
  "capture_page xair st args ref =
     bindE (check_keys ref capture_keys) (\<lambda>_.
     bindE (jstr_at ''project'' args) (\<lambda>p. bindE (jstr_at ''target_id'' ref) (\<lambda>tid.
     bindE (target st p tid True) (\<lambda>t.
     bindE (jat ''offset'' ref) (\<lambda>offset. bindE (jat ''max_bytes'' ref) (\<lambda>n.
       harness_artifact_page xair st
         (jobj [(''target_id'', JStr (tr_id t)), (''artifact_sha256'', JStr (tr_sha t))])
         (jobj [(''project'', JStr p), (''offset'', offset), (''max_bytes'', n)]) 4096))))))"

definition response_origins :: "string list" where
  "response_origins = [''captured'', ''inferred'', ''invented_stimulus'']"

definition timing_origins :: "string list" where
  "timing_origins = [''unknown'', ''inferred'', ''invented_stimulus'']"

definition capture_note :: string where
  "capture_note = ''Exact artifact bytes; service attribution and framing remain hypotheses, not independently observed endpoint behavior''"

definition pin_capture :: "loader \<Rightarrow> store \<Rightarrow> json \<Rightarrow> string \<Rightarrow> json \<Rightarrow> json res" where
  "pin_capture xair st args origin response =
     (if origin = ''captured'' then
        bindE (jat ''capture'' response) (\<lambda>ref.
        bindE (capture_page xair st args ref) (\<lambda>page.
        bindE (jat ''hex'' page) (\<lambda>have'. bindE (field_differs ''hex'' response have') (\<lambda>bad.
          throw_if bad ''captured response differs from admitted bytes''
            (Inr (jput ''capture_interpretation'' (JStr capture_note) (jput ''capture_pin'' page response)))))))
      else throw_if (contains response ''capture'') ''noncaptured responses cannot claim capture provenance'' (Inr response))"

text \<open>One variable range after the end of the previous one, within the bytes of the response.\<close>

definition check_range :: "nat \<Rightarrow> json \<Rightarrow> nat \<Rightarrow> nat res" where
  "check_range bytes rg past =
     bindE (check_keys rg [''offset'', ''length'', ''reason'']) (\<lambda>_.
     bindE (bindE (jat ''reason'' rg) (text_limit 2048)) (\<lambda>_.
     bindE (bound rg ''offset'' 0 4096) (\<lambda>start. bindE (bound rg ''length'' 0 4096) (\<lambda>n.
       throw_if (n = 0 \<or> start < past \<or> start + n > bytes) ''invalid overlapping variable ranges'' (Inr (start + n))))))"

definition check_timing :: "json \<Rightarrow> unit res" where
  "check_timing timing =
     bindE (check_keys timing [''origin'', ''min_ms'', ''max_ms'']) (\<lambda>_.
     bindE (jstr_at ''origin'' timing) (\<lambda>origin.
     throw_if (origin \<notin> set timing_origins)
       ''timing lacks native capture-time validator; do not claim observed timing'' (
     bindE (bound timing ''min_ms'' 0 10000) (\<lambda>least. bindE (bound timing ''max_ms'' 0 10000) (\<lambda>most.
       throw_if (least > most) ''invalid timing interval'' (Inr ()))))))"

definition service_response :: "loader \<Rightarrow> store \<Rightarrow> json \<Rightarrow> json \<Rightarrow> json res" where
  "service_response xair st args response0 =
     bindE (check_keys response0 [''origin'', ''hex'', ''capture'', ''rationale'', ''variable_ranges'', ''timing'']) (\<lambda>_.
     bindE (bindE (jat ''hex'' response0) (hex_limit 4096)) (\<lambda>_.
     bindE (bindE (jat ''rationale'' response0) (text_limit 2048)) (\<lambda>_.
     bindE (jstr_at ''origin'' response0) (\<lambda>origin.
     throw_if (origin \<notin> set response_origins) ''explicit service origin required'' (
     bindE (pin_capture xair st args origin response0) (\<lambda>response.
     bindE (jat ''variable_ranges'' response) (\<lambda>ranges.
     throw_if (\<not> is_array ranges \<or> jsize ranges > 16) ''variable range bound'' (
     bindE (jstr_at ''hex'' response) (\<lambda>hex.
     bindE (foldE (check_range (length hex div 2)) (elems ranges) 0) (\<lambda>_.
     bindE (bindE (jat ''timing'' response) check_timing) (\<lambda>_.
       Inr (jput ''can_prove_original_service_acceptance'' (JBool False) response))))))))))))"

definition contract_limit :: string where
  "contract_limit = ''Local responses, including replayed bytes, never independently prove original-service acceptance. Timing and framing require separate evidence.''"

definition prior_contract :: "(string \<Rightarrow> json res) \<Rightarrow> kb \<Rightarrow> json \<Rightarrow> json \<Rightarrow> json \<Rightarrow> json res" where
  "prior_contract parse db args s body =
     (if \<not> contains s ''previous'' then Inr body
      else
        bindE (jat ''previous'' s) (\<lambda>ref. bindE (exact_record parse db args ref) (\<lambda>prior.
        bindE (native_record ''indago.research.v1'' ''native-research'' prior) (\<lambda>_.
        bindE (jat ''body'' prior) (\<lambda>b. bindE (field_differs ''kind'' b (JStr ''service_contract'')) (\<lambda>bad.
          throw_if bad ''prior service contract required'' (Inr (jput ''previous'' ref body))))))))"

definition contract_body :: "loader \<Rightarrow> (string \<Rightarrow> json res) \<Rightarrow> kb \<Rightarrow> json \<Rightarrow> json \<Rightarrow> json \<Rightarrow> json res" where
  "contract_body xair parse db args s body =
     bindE (check_keys s [''kind'', ''hypothesis'', ''responses'', ''reject_if'', ''previous'']) (\<lambda>_.
     bindE (bindE (jat ''hypothesis'' s) (text_limit 2048)) (\<lambda>_.
     bindE (sized_array ''reject_if'' 1 16 ''service contract requires falsification observations'' s) (\<lambda>rejects.
     bindE (check_all (text_limit 2048) (elems rejects)) (\<lambda>_.
     bindE (sized_array ''responses'' 1 16 ''bounded service responses required'' s) (\<lambda>responses.
     bindE (foldE (copy_field s) [''hypothesis'', ''reject_if''] body) (\<lambda>body.
     bindE (mapE (service_response xair (base db) args) (elems responses)) (\<lambda>rs.
     bindE (prior_contract parse db args s (jput ''responses'' (JArr rs) body)) (\<lambda>body.
       Inr (jput ''scope_limit'' (JStr contract_limit) (jput ''simulated_service'' (JBool True)
         (jput ''status'' (JStr ''hypothesis_contract'') body)))))))))))"

section \<open>Observations of a service\<close>

text \<open>The offsets of a range; \<^verbatim>\<open>offset + length\<close> wraps at the width of \<^verbatim>\<open>size_t\<close>.\<close>

definition range_of :: "json \<Rightarrow> (nat \<times> nat) res" where
  "range_of rg =
     bindE (jat ''offset'' rg) (\<lambda>a. bindE (ju64 a) (\<lambda>offset.
     bindE (jat ''length'' rg) (\<lambda>b. bindE (ju64 b) (\<lambda>n.
       Inr (offset, (offset + n) mod 2 ^ 64)))))"

definition variable_at :: "(nat \<times> nat) list \<Rightarrow> nat \<Rightarrow> bool" where
  "variable_at ranges i = list_ex (\<lambda>(a, b). a \<le> i \<and> i < b) ranges"

definition fixed_differences :: "(nat \<times> nat) list \<Rightarrow> string \<Rightarrow> string \<Rightarrow> nat list" where
  "fixed_differences ranges actual expected =
     filter (\<lambda>i. \<not> variable_at ranges i \<and> actual ! i \<noteq> expected ! i) [0..<min (length actual) (length expected)]"

definition observation_limit :: string where
  "observation_limit = ''Byte/framing hypothesis only. Captured source identity is checked; timing, endpoint attribution and original service acceptance remain unproven.''"

definition observation_json :: "bool \<Rightarrow> nat list \<Rightarrow> json \<Rightarrow> json" where
  "observation_json same differing body =
     jput ''scope_limit'' (JStr observation_limit) (jput ''service_attribution_verified'' (JBool False)
       (jput ''timing_tested'' (JBool False)
       (jput ''status'' (JStr (if same then ''agreement_on_selected_bytes'' else ''hypothesis_rejected_on_selected_bytes''))
       (jput ''differing_offsets'' (JArr (map jnat (take 32 differing))) (jput ''fixed_bytes_agree'' (JBool same) body)))))"

definition observed_contract :: "(string \<Rightarrow> json res) \<Rightarrow> kb \<Rightarrow> json \<Rightarrow> json \<Rightarrow> (nat \<times> json) res" where
  "observed_contract parse db args s =
     bindE (jat ''contract'' s) (\<lambda>ref. bindE (exact_record parse db args ref) (\<lambda>contract.
     bindE (native_record ''indago.research.v1'' ''native-research'' contract) (\<lambda>_.
     bindE (jat ''body'' contract) (\<lambda>b. bindE (field_differs ''kind'' b (JStr ''service_contract'')) (\<lambda>bad.
     throw_if bad ''service contract required'' (
     bindE (bound s ''response'' 0 15) (\<lambda>index.
     bindE (jat ''responses'' b) (\<lambda>rs. bindE (jnth index rs) (\<lambda>hypothesis. Inr (index, hypothesis))))))))))"

definition observation_body :: "loader \<Rightarrow> (string \<Rightarrow> json res) \<Rightarrow> kb \<Rightarrow> json \<Rightarrow> json \<Rightarrow> json \<Rightarrow> json res" where
  "observation_body xair parse db args s body =
     bindE (check_keys s [''kind'', ''contract'', ''response'', ''capture'']) (\<lambda>_.
     bindE (observed_contract parse db args s) (\<lambda>(index, hypothesis).
     bindE (jat ''capture'' s) (\<lambda>ref. bindE (capture_page xair (base db) args ref) (\<lambda>page.
     bindE (bindE (jstr_at ''hex'' hypothesis) raw_hex) (\<lambda>expected.
     bindE (bindE (jstr_at ''hex'' page) raw_hex) (\<lambda>actual.
     bindE (jat ''variable_ranges'' hypothesis) (\<lambda>rj. bindE (mapE range_of (jrange rj)) (\<lambda>ranges.
     bindE (copy_field s ''contract'' body) (\<lambda>body.
       let differing = fixed_differences ranges actual expected in
       Inr (observation_json (length actual = length expected \<and> differing = []) differing
         (jput ''observed_bytes'' page (jput ''response'' (jnat index) body))))))))))))"

section \<open>Checking, sealing and executing\<close>

definition checked_body :: "loader \<Rightarrow> (string \<Rightarrow> json res) \<Rightarrow> kb \<Rightarrow> json \<Rightarrow> json res" where
  "checked_body xair parse db args =
     bindE (jat ''body'' args) (\<lambda>s. bindE (jstr_at ''kind'' s) (\<lambda>kind.
     bindE (body_header args kind) (\<lambda>body.
       if kind = ''algorithm_candidate'' then candidate_body parse db args s body
       else if kind = ''algorithm_comparison'' then comparison_body parse db args s body
       else if kind = ''service_contract'' then contract_body xair parse db args s body
       else if kind = ''service_observation'' then observation_body xair parse db args s body
       else throw ''unsupported research operation kind'')))"

text \<open>
  The recursion over a body before it is used: \<open>scope_value\<close> takes a value, \<open>scope_values\<close>
  the values inside it.  The depth is bounded, so no size argument is needed.
\<close>

definition scope_references :: "(string \<Rightarrow> json res) \<Rightarrow> kb \<Rightarrow> json \<Rightarrow> json \<Rightarrow> json \<Rightarrow> unit res" where
  "scope_references parse db iv args v =
     bindE (if contains v ''id'' \<and> contains v ''revision''
            then bindE (exact_record parse db args v) (harness_check_knowledge parse db iv) else Inr ()) (\<lambda>_.
       if contains v ''target_id''
       then bindE (jat ''target_id'' v) (\<lambda>t.
              bindE (harness_select_component iv (jobj [(''target_id'', t)])) (\<lambda>_. Inr ()))
       else Inr ())"

function scope_value :: "(string \<Rightarrow> json res) \<Rightarrow> kb \<Rightarrow> json \<Rightarrow> json \<Rightarrow> nat \<Rightarrow> json \<Rightarrow> unit res"
and scope_values :: "(string \<Rightarrow> json res) \<Rightarrow> kb \<Rightarrow> json \<Rightarrow> json \<Rightarrow> nat \<Rightarrow> json list \<Rightarrow> unit res" where
  "scope_value parse db iv args depth v =
     (if depth > 16 then throw ''research nesting bound exceeded''
      else case v of
        JObj m \<Rightarrow> bindE (scope_references parse db iv args v) (\<lambda>_. scope_values parse db iv args (Suc depth) (map snd m))
      | JArr xs \<Rightarrow> scope_values parse db iv args (Suc depth) xs
      | _ \<Rightarrow> Inr ())"
| "scope_values parse db iv args depth [] = Inr ()"
| "scope_values parse db iv args depth (v # vs) =
     bindE (scope_value parse db iv args depth v) (\<lambda>_. scope_values parse db iv args depth vs)"
  by pat_completeness auto

termination
  by (relation "inv_image (less_than <*lex*> less_than)
        (\<lambda>x. case x of Inl (parse, db, iv, args, depth, v) \<Rightarrow> (18 - depth, 0)
                     | Inr (parse, db, iv, args, depth, vs) \<Rightarrow> (18 - depth, Suc (length vs)))") auto

definition research_seal :: "json \<Rightarrow> json res" where
  "research_seal result = bindE (dump result) (\<lambda>text. Inr (jobj [(''body_sha256'', JStr (sha256_text text))]))"

definition normalize_research :: "loader \<Rightarrow> (string \<Rightarrow> json res) \<Rightarrow> kb \<Rightarrow> json \<Rightarrow> json \<Rightarrow> json res" where
  "normalize_research xair parse db iv args =
     bindE (check_keys args [''project'', ''scope'', ''body'', ''sealed'']) (\<lambda>_.
     bindE (jat ''body'' args) (\<lambda>b. bindE (dump_size b) (\<lambda>n.
     throw_if (n > 24576) ''research body exceeds 24 KiB'' (
     bindE (scope_value parse db iv args 0 b) (\<lambda>_.
     bindE (checked_body xair parse db (jerase ''sealed'' args)) (\<lambda>result.
     bindE (research_seal result) (\<lambda>seal.
     bindE (if contains args ''sealed'' then field_differs ''sealed'' args seal else Inr False) (\<lambda>bad.
       throw_if bad ''research dependency pins changed'' (Inr (jput ''sealed'' seal args))))))))))"

text \<open>The dependencies that a body names, each once and in the order they are met.\<close>

definition add_reference :: "json \<Rightarrow> json list \<times> string list \<Rightarrow> (json list \<times> string list) res" where
  "add_reference d = (\<lambda>(ds, seen). bindE (dump d) (\<lambda>t. Inr (if t \<in> set seen then (ds, seen) else (ds @ [d], t # seen))))"

definition record_reference :: "json \<Rightarrow> json res" where
  "record_reference v =
     bindE (jat ''id'' v) (\<lambda>rid. bindE (jat ''revision'' v) (\<lambda>rj. bindE (ju64 rj) (\<lambda>rv.
       Inr (jobj [(''type'', JStr ''record''), (''id'', rid), (''pin'', JStr (to_string rv))]))))"

definition visit_references :: "store \<Rightarrow> json \<Rightarrow> json \<Rightarrow> json list \<times> string list \<Rightarrow> (json list \<times> string list) res" where
  "visit_references st args v s =
     bindE (if contains v ''id'' \<and> contains v ''revision''
            then bindE (record_reference v) (\<lambda>d. add_reference d s) else Inr s) (\<lambda>s.
       if contains v ''target_id''
       then bindE (jstr_at ''project'' args) (\<lambda>p. bindE (jstr_at ''target_id'' v) (\<lambda>tid.
              bindE (target st p tid True) (\<lambda>t.
                add_reference (jobj [(''type'', JStr ''artifact''), (''id'', JStr (tr_sha t)), (''pin'', JStr (tr_sha t))]) s)))
       else Inr s)"

fun visit_value :: "store \<Rightarrow> json \<Rightarrow> json \<Rightarrow> json list \<times> string list \<Rightarrow> (json list \<times> string list) res" where
  "visit_value st args (JObj m) s =
     bindE (visit_references st args (JObj m) s) (foldE (\<lambda>kv s. visit_value st args (snd kv) s) m)"
| "visit_value st args (JArr xs) s = foldE (\<lambda>x s. visit_value st args x s) xs s"
| "visit_value st args v s = Inr s"

definition execute_research ::
  "loader \<Rightarrow> (string \<Rightarrow> json res) \<Rightarrow> publication option \<Rightarrow> int \<Rightarrow> string \<Rightarrow> string \<Rightarrow> kb \<Rightarrow> json \<Rightarrow> (json \<times> kb) res" where
  "execute_research xair parse ctx now fresh_id at' db args =
     bindE (checked_body xair parse db (jerase ''sealed'' args)) (\<lambda>body.
     bindE (dump body) (\<lambda>text.
     bindE (jat ''sealed'' args) (\<lambda>seal. bindE (jstr_at ''body_sha256'' seal) (\<lambda>pinned.
     throw_if (sha256_text text \<noteq> pinned) ''research inputs changed'' (
     bindE (dump args) (\<lambda>request.
     bindE (jat ''body'' args) (\<lambda>s.
     bindE (visit_value (base db) args s ([], [])) (\<lambda>(ds, seen).
     bindE (jat ''project'' args) (\<lambda>p. bindE (jat ''scope'' args) (\<lambda>scope.
       knowledge_put parse ctx now fresh_id at' db
         (jobj [(''project'', p), (''kind'', JStr ''product''), (''title'', JStr ''Bounded research workflow''),
           (''state'', JStr ''unknown''), (''scope'', scope),
           (''body'', jput ''request_sha256'' (JStr (sha256_text request)) body),
           (''dependencies'', JArr ds), (''author'', JStr ''native-research'')]) True))))))))))"

end
