(* ===== verification/Ind_Evaluation.thy ===== *)
theory Ind_Evaluation
  imports Ind_Research
begin

text \<open>
  The evaluation ledger of the research workflow (\<^verbatim>\<open>evaluation_action\<close> of
  \<^verbatim>\<open>src/research_workflow.cpp\<close>): attempts with their reproductions, matched-pair ablations
  and reviewed recipes, each a hashed record in the evaluation directory.  The capability matrix, which
  reads a benchmark catalogue, is in \<^verbatim>\<open>Ind_Benchmark\<close>.

  \<open>files\<close> is the evaluation directory by relative path, \<open>host\<close> the operator's files by path;
  \<open>separate\<close> says that the evaluation directory and the workspace do not contain each other;
  \<open>fresh_id\<close> is the identifier drawn for a new record.
\<close>

type_synonym eval_files = "string \<Rightarrow> string option"

section \<open>Records\<close>

definition record_limit :: nat where "record_limit = 262144"

definition evaluation_load :: "(string \<Rightarrow> json res) \<Rightarrow> eval_files \<Rightarrow> json \<Rightarrow> json res" where
  "evaluation_load parse files rid =
     bindE (jstr rid) (\<lambda>name. bindE (check_identifier name) (\<lambda>_.
     bindE (read_file (map_option length (files (name @ ''.json''))) (files (name @ ''.json'')) record_limit) (\<lambda>text.
     bindE (parse text) (\<lambda>r.
     bindE (jat ''id'' r) (\<lambda>own.
     if \<not> jeq own rid then throw ''evaluation record integrity failure''
     else
       bindE (dump (jerase ''record_sha256'' r)) (\<lambda>body.
       bindE (jstr_at ''record_sha256'' r) (\<lambda>sha.
         throw_if (sha256_text body \<noteq> sha) ''evaluation record integrity failure'' (Inr r))))))))"

definition evaluation_save :: "string \<Rightarrow> json \<Rightarrow> eval_files \<Rightarrow> (json \<times> eval_files) res" where
  "evaluation_save fresh_id body files =
     (let named = jput ''id'' (JStr fresh_id) body in
      bindE (dump named) (\<lambda>text.
        let signed = jput ''record_sha256'' (JStr (sha256_text text)) named in
        bindE (dump signed) (\<lambda>out.
          throw_if (length out > record_limit) ''evaluation record exceeds 256 KiB''
            (Inr (signed, files(fresh_id @ ''.json'' \<mapsto> out))))))"

section \<open>Attempts\<close>

definition evaluation_failures :: "string list" where
  "evaluation_failures = [''none'', ''tool_gap'', ''controller_failure'', ''model_limitation'', ''unavailable_dependency'',
     ''invalid_evidence'', ''wrong_answer'', ''timeout'', ''resource_limit'', ''interrupted'', ''unknown'']"

definition evaluation_splits :: "string list" where
  "evaluation_splits = [''development'', ''synthetic_private'', ''held_out'']"

definition evaluation_outcomes :: "string list" where
  "evaluation_outcomes = [''passed'', ''failed'', ''incomplete'']"

definition attempt_keys :: "string list" where
  "attempt_keys = [''evaluation_root'', ''challenge'', ''split'', ''artifact_sha256'', ''model'', ''settings'', ''seed'',
     ''budget'', ''features'', ''outcome'', ''failure_category'', ''reproduction'', ''metrics'', ''attempt'']"

definition attempt_identity :: "json \<Rightarrow> unit res" where
  "attempt_identity r =
     bindE (bindE (jstr_at ''challenge'' r) check_identifier) (\<lambda>_.
     bindE (bindE (jstr_at ''artifact_sha256'' r) check_hash) (\<lambda>_.
     bindE (bindE (jat ''model'' r) (text_limit 2048)) (\<lambda>_.
     throw_if (\<not> contains r ''seed'' \<or> \<not> contains r ''attempt'') ''evaluation seed and attempt required'' (
     bindE (bound r ''seed'' 0 4294967295) (\<lambda>_. bindE (bound r ''attempt'' 1 10000) (\<lambda>attempt.
       throw_if (attempt = 0) ''attempt starts at one'' (Inr ())))))))"

definition attempt_outcome :: "json \<Rightarrow> (string \<times> string) res" where
  "attempt_outcome r =
     bindE (jstr_at ''split'' r) (\<lambda>split.
     throw_if (split \<notin> set evaluation_splits) ''explicit evaluation split required'' (
     bindE (jstr_at ''failure_category'' r) (\<lambda>failure.
     throw_if (failure \<notin> set evaluation_failures) ''unknown machine-readable failure category'' (
     bindE (jstr_at ''outcome'' r) (\<lambda>outcome.
     throw_if (outcome \<notin> set evaluation_outcomes) ''invalid evaluation outcome'' (
       throw_if ((outcome = ''passed'') \<noteq> (failure = ''none'')) ''outcome/failure inconsistency'' (Inr (outcome, failure))))))))"

text \<open>An object field whose text is at most 4096 bytes.\<close>

definition oversized :: "string \<Rightarrow> json \<Rightarrow> bool res" where
  "oversized k r = bindE (jat k r) (\<lambda>v. if \<not> is_object v then Inr True else bindE (dump_size v) (\<lambda>n. Inr (n > 4096)))"

definition check_feature :: "string \<times> json \<Rightarrow> unit \<Rightarrow> unit res" where
  "check_feature = (\<lambda>(k, v) _. bindE (check_identifier k) (\<lambda>_.
     throw_if (\<not> is_boolean v) ''feature flag must be boolean'' (Inr ())))"

definition attempt_settings :: "json \<Rightarrow> unit res" where
  "attempt_settings r =
     bindE (any_differs [oversized ''settings'' r, oversized ''budget'' r,
       bindE (jat ''features'' r) (\<lambda>v. Inr (\<not> is_object v \<or> jsize v > 32))]) (\<lambda>bad.
     throw_if bad ''evaluation setting bounds'' (
     bindE (jat ''features'' r) (\<lambda>features. foldE check_feature (entries features) ())))"

definition repro_field :: "string \<Rightarrow> string \<Rightarrow> json \<Rightarrow> string res" where
  "repro_field side part repro = jstr_at (side @ part) repro"

definition check_repro :: "eval_files \<Rightarrow> json \<Rightarrow> string \<Rightarrow> unit \<Rightarrow> unit res" where
  "check_repro host repro side = (\<lambda>_.
     bindE (repro_field side ''_path'' repro) (\<lambda>path.
       case host path of None \<Rightarrow> Inl Fs_Error | Some bytes \<Rightarrow>
         (if length bytes > record_limit then throw ''minimal reproduction identity mismatch''
          else bindE (sha256_file path (Some bytes)) (\<lambda>h. bindE (repro_field side ''_sha256'' repro) (\<lambda>sha.
            throw_if (h \<noteq> sha) ''minimal reproduction identity mismatch'' (Inr ()))))))"

definition check_metric :: "json \<Rightarrow> unit \<Rightarrow> unit res" where
  "check_metric v = (\<lambda>_.
     if is_number_unsigned v then Inr ()
     else if is_number_integer v
     then bindE (ji64 v) (\<lambda>i. throw_if (i < 0) ''nonnegative metrics required'' (Inr ()))
     else throw ''nonnegative metrics required'')"

definition retain :: "eval_files \<Rightarrow> json \<Rightarrow> string \<Rightarrow> json \<times> eval_files \<Rightarrow> (json \<times> eval_files) res" where
  "retain host repro side = (\<lambda>(out, files).
     bindE (repro_field side ''_path'' repro) (\<lambda>path.
     bindE (read_file (map_option length (host path)) (host path) record_limit) (\<lambda>data.
     bindE (repro_field side ''_sha256'' repro) (\<lambda>sha.
       let digest = sha256_text data; name = ''reproductions/'' @ digest in
       throw_if (digest \<noteq> sha) ''reproduction changed during retention'' (
       throw_if (case files name of Some old \<Rightarrow> sha256_text old \<noteq> digest | None \<Rightarrow> False)
         ''retained reproduction integrity mismatch''
         (Inr (jput (side @ ''_retained'') (JStr name) out, if files name = None then files(name \<mapsto> data) else files)))))))"

definition evaluation_record :: "eval_files \<Rightarrow> string \<Rightarrow> json \<Rightarrow> eval_files \<Rightarrow> (json \<times> eval_files) res" where
  "evaluation_record host fresh_id r files =
     bindE (check_keys r attempt_keys) (\<lambda>_.
     bindE (attempt_identity r) (\<lambda>_. bindE (attempt_outcome r) (\<lambda>_. bindE (attempt_settings r) (\<lambda>_.
     bindE (jat ''reproduction'' r) (\<lambda>repro.
     bindE (check_keys repro [''source_path'', ''source_sha256'', ''request_path'', ''request_sha256'', ''diagnostic'']) (\<lambda>_.
     bindE (bindE (jat ''diagnostic'' repro) (text_limit 2048)) (\<lambda>_.
     bindE (foldE (check_repro host repro) [''source'', ''request''] ()) (\<lambda>_.
     bindE (jat ''metrics'' r) (\<lambda>metrics.
     bindE (check_keys metrics [''wall_ms'', ''model_generations'', ''native_actions'', ''tokens'']) (\<lambda>_.
     bindE (foldE check_metric (map snd (entries metrics)) ()) (\<lambda>_.
     bindE (foldE (retain host repro) [''source'', ''request''] (repro, files)) (\<lambda>(kept, files).
       evaluation_save fresh_id
         (jput ''reproduction'' kept
           (jput ''outcome_authority'' (JStr ''operator supplied; independent benchmark certification is separate'')
           (jput ''verified_solve'' (JBool False) (jput ''schema'' (JStr ''indago.evaluation-attempt.v1'')
             (jerase ''evaluation_root'' r))))) files))))))))))))"

section \<open>Ablations and recipes\<close>

definition matched_fields :: "string list" where
  "matched_fields = [''schema'', ''challenge'', ''split'', ''artifact_sha256'', ''model'', ''settings'', ''seed'', ''budget'']"

definition same_field :: "json \<Rightarrow> json \<Rightarrow> string \<Rightarrow> unit \<Rightarrow> unit res" where
  "same_field a b k = (\<lambda>_. bindE (jat k a) (\<lambda>v. bindE (jat k b) (\<lambda>w.
     throw_if (\<not> jeq v w) ''ablation confound: model, task, settings, seed and budgets must match'' (Inr ()))))"

definition toggles_only :: "json \<Rightarrow> json \<Rightarrow> string \<Rightarrow> unit res" where
  "toggles_only af bf feature =
     bindE (if \<not> contains af feature \<or> \<not> contains bf feature then Inr True
            else bindE (jat feature af) (\<lambda>v. bindE (jat feature bf) (\<lambda>w. Inr (jeq v w)))) (\<lambda>bad.
     throw_if bad ''ablation must toggle requested feature'' (
     throw_if (\<not> jeq (jerase feature af) (jerase feature bf)) ''ablation changes multiple features'' (Inr ())))"

text \<open>The comparison hashes the records that \<^verbatim>\<open>load\<close> has just checked once more.\<close>

definition rehash :: "json \<Rightarrow> unit \<Rightarrow> unit res" where
  "rehash entry = (\<lambda>_. bindE (dump (jerase ''record_sha256'' entry)) (\<lambda>text.
     bindE (jstr_at ''record_sha256'' entry) (\<lambda>sha.
       throw_if (sha256_text text \<noteq> sha) ''evaluation record integrity failure'' (Inr ()))))"

definition ablation_limit :: string where
  "ablation_limit = ''One matched pair; repeat across private tasks and seeds before claiming transfer or superiority''"

definition evaluation_compare :: "(string \<Rightarrow> json res) \<Rightarrow> string \<Rightarrow> json \<Rightarrow> eval_files \<Rightarrow> (json \<times> eval_files) res" where
  "evaluation_compare parse fresh_id r files =
     bindE (check_keys r [''evaluation_root'', ''baseline'', ''variant'', ''feature'']) (\<lambda>_.
     bindE (jat ''baseline'' r) (\<lambda>bid. bindE (evaluation_load parse files bid) (\<lambda>a.
     bindE (jat ''variant'' r) (\<lambda>vid. bindE (evaluation_load parse files vid) (\<lambda>b.
     bindE (foldE rehash [a, b] ()) (\<lambda>_.
     bindE (foldE (same_field a b) matched_fields ()) (\<lambda>_.
     bindE (jat ''features'' a) (\<lambda>af. bindE (jat ''features'' b) (\<lambda>bf.
     bindE (jstr_at ''feature'' r) (\<lambda>feature.
     bindE (toggles_only af bf feature) (\<lambda>_.
     bindE (jat ''model'' a) (\<lambda>model.
     bindE (jat ''outcome'' a) (\<lambda>oa. bindE (jat ''outcome'' b) (\<lambda>ob.
     bindE (jat ''metrics'' a) (\<lambda>ma. bindE (jat ''metrics'' b) (\<lambda>mb.
       evaluation_save fresh_id (jobj [(''schema'', JStr ''indago.ablation.v1''), (''baseline'', bid), (''variant'', vid),
         (''feature'', JStr feature), (''model'', model), (''outcomes'', JArr [oa, ob]), (''metrics'', JArr [ma, mb]),
         (''causal_claim'', JBool False), (''scope_limit'', JStr ablation_limit)]) files))))))))))))))))"

definition recipe_comparison :: "(string \<Rightarrow> json res) \<Rightarrow> kb \<Rightarrow> json \<Rightarrow> json res" where
  "recipe_comparison parse db r =
     bindE (jat ''comparison'' r) (\<lambda>ref. bindE (exact_record parse db r ref) (\<lambda>comparison.
     bindE (native_record ''indago.research.v1'' ''native-research'' comparison) (\<lambda>_.
     bindE (jat ''body'' comparison) (\<lambda>b.
     bindE (any_differs [field_differs ''kind'' b (JStr ''algorithm_comparison''),
       field_differs ''status'' b (JStr ''agreement_on_tested_inputs'')]) (\<lambda>bad.
       throw_if bad ''recipe requires completed native comparison'' (Inr b))))))"

definition evaluation_recipe ::
  "(string \<Rightarrow> json res) \<Rightarrow> kb \<Rightarrow> string \<Rightarrow> json \<Rightarrow> eval_files \<Rightarrow> (json \<times> eval_files) res" where
  "evaluation_recipe parse db fresh_id r files =
     bindE (check_keys r [''evaluation_root'', ''project'', ''scope'', ''comparison'', ''applicability'',
       ''limitations'', ''technique'', ''answer_free_review'']) (\<lambda>_.
     bindE (jvalue_bool ''answer_free_review'' False r) (\<lambda>reviewed.
     throw_if (\<not> reviewed) ''operator answer-free source review required'' (
     bindE (bindE (jat ''technique'' r) (text_limit 2048)) (\<lambda>_.
     bindE (bindE (jat ''applicability'' r) (text_limit 2048)) (\<lambda>_.
     bindE (bindE (jat ''limitations'' r) (text_limit 2048)) (\<lambda>_.
     bindE (recipe_comparison parse db r) (\<lambda>b.
     bindE (jat ''candidate'' b) (\<lambda>cref. bindE (exact_record parse db r cref) (\<lambda>candidate.
     bindE (jat ''body'' candidate) (\<lambda>c.
     bindE (foldE (copy_field r) [''technique'', ''applicability'', ''limitations'']
       (jobj [(''schema'', JStr ''indago.validated-recipe.v1'')])) (\<lambda>out.
     bindE (foldE (copy_field c) [''language'', ''source_code'', ''source_sha256''] out) (\<lambda>out.
     bindE (jat ''tested_domain'' b) (\<lambda>tested. bindE (dump b) (\<lambda>text.
       evaluation_save fresh_id
         (jput ''universal_equivalence'' (JBool False)
           (jput ''answer_free_review''
              (JStr ''operator reviewed; semantic absence of hardcoded answers is not machine proven'')
           (jput ''validation_receipt_sha256'' (JStr (sha256_text text))
           (jput ''tested_case_count'' (jnat (jsize tested)) out)))) files))))))))))))))"

definition evaluation_action ::
  "(string \<Rightarrow> json res) \<Rightarrow> kb \<Rightarrow> bool \<Rightarrow> eval_files \<Rightarrow> string \<Rightarrow> string \<Rightarrow> json \<Rightarrow> eval_files \<Rightarrow>
   (json \<times> eval_files) res" where
  "evaluation_action parse db separate host fresh_id op r files =
     bindE (jstr_at ''evaluation_root'' r) (\<lambda>_.
     throw_if (\<not> separate) ''Evaluator and analysis directories must be disjoint'' (
       if op = ''record'' then evaluation_record host fresh_id r files
       else if op = ''compare'' then evaluation_compare parse fresh_id r files
       else if op = ''recipe'' then evaluation_recipe parse db fresh_id r files
       else if op = ''show'' then
         bindE (check_keys r [''evaluation_root'', ''id'']) (\<lambda>_.
         bindE (jat ''id'' r) (\<lambda>rid. bindE (evaluation_load parse files rid) (\<lambda>rec. Inr (rec, files))))
       else throw ''unknown evaluation operation''))"

end
