(* ===== verification/Ind_Route.thy ===== *)
theory Ind_Route
  imports Ind_Store
begin

text \<open>
  The routing hint of an artifact (\<^verbatim>\<open>src/artifact_route.hpp\<close>), from its name and from a bounded prefix
  of its bytes, and the identity of a group of embedded engine files (\<^verbatim>\<open>src/payload_identity.hpp\<close>).
\<close>

section \<open>Hints by name\<close>

text \<open>\<^verbatim>\<open>fs::path(name).extension()\<close> on a system whose separator is the slash.\<close>

definition file_name :: "string \<Rightarrow> string" where
  "file_name s = rev (takeWhile (\<lambda>c. c \<noteq> CHR ''/'') (rev s))"

definition path_extension :: "string \<Rightarrow> string" where
  "path_extension s =
     (let f = file_name s; ext = rev (takeWhile (\<lambda>c. c \<noteq> CHR ''.'') (rev f)); n = length f - length ext in
      if f = ''.'' \<or> f = ''..'' \<or> CHR ''.'' \<notin> set f \<or> n \<le> 1 then [] else drop (n - 1) f)"

definition route_formats :: "(string \<times> string \<times> string) list" where
  "route_formats =
     [(''.exe'', ''pe_candidate'', ''xair/ilspy inventory''), (''.dll'', ''pe_candidate'', ''xair/ilspy inventory''),
      (''.so'', ''elf_candidate'', ''xair inventory''),
      (''.pcap'', ''capture'', ''wireshark packets''), (''.pcapng'', ''capture'', ''wireshark packets''),
      (''.py'', ''python'', ''artifact read; bounded helper reconstruction''),
      (''.js'', ''javascript'', ''artifact read; bounded helper reconstruction''), (''.html'', ''web_document'', ''artifact read''),
      (''.php'', ''php'', ''artifact read; dedicated PHP execution adapter required''),
      (''.apk'', ''android_package'', ''ilspy artifact; transform container_member; Ghidra Dalvik''),
      (''.jar'', ''java_archive'', ''ilspy artifact; transform container_member; Ghidra JVM''),
      (''.class'', ''jvm_class_candidate'', ''ghidra functions/decompile; validate JVM loader''),
      (''.dex'', ''dex_candidate'', ''ghidra functions/decompile; validate Dalvik loader''),
      (''.tpk'', ''tizen_package'', ''bounded archive preparation; inspect embedded assemblies/native code''),
      (''.pdf'', ''pdf'', ''ilspy artifact PDF pages/objects''),
      (''.doc'', ''office_document'', ''ilspy artifact OLE streams; macro semantics via bounded helper''),
      (''.xls'', ''office_document'', ''ilspy artifact OLE streams; formula semantics require reconstruction''),
      (''.wasm'', ''wasm'', ''ilspy artifact WABT validation/disassembly''),
      (''.v'', ''verilog'', ''artifact read; bounded HDL simulation adapter required''),
      (''.yara'', ''yara_constraints'', ''artifact read; bounded solver/helper reconstruction''),
      (''.nes'', ''nes_rom'', ''dedicated 6502/NES adapter required''),
      (''.hex'', ''intel_hex_candidate'', ''confirm record checksums and architecture before routing''),
      (''.img'', ''disk_image'', ''identify filesystem and machine before emulation''),
      (''.dsk'', ''disk_image'', ''identify filesystem and machine before emulation''),
      (''.vmdk'', ''virtual_disk'', ''bounded disk adapter required''),
      (''.tap'', ''tape_image'', ''identify tape format and machine before emulation''),
      (''.xnb'', ''game_resource'', ''dedicated XNB reader required''),
      (''.zip'', ''archive'', ''bounded archive preparation''), (''.tar'', ''archive'', ''bounded archive preparation''),
      (''.pdb'', ''debug_symbols'', ''confirm portable/native PDB and matching module identity''),
      (''.dylib'', ''macho_candidate'', ''LIEF/architecture support must be checked'')]"

definition artifact_route_hint :: "string \<Rightarrow> json" where
  "artifact_route_hint name =
     (case (case map_of route_formats (lower_string (path_extension name)) of
              None \<Rightarrow> (''unclassified'', ''artifact read; classify bytes before selecting an engine'') | Some f \<Rightarrow> f)
      of (kind, route) \<Rightarrow>
        jobj [(''kind'', JStr kind), (''route'', JStr route), (''basis'', JStr ''filename_hint_only''),
          (''semantic_support_confirmed'', JBool False), (''execution_authorized'', JBool False)])"

section \<open>Bounded probe of the bytes\<close>

definition u32_at :: "string \<Rightarrow> nat \<Rightarrow> nat option" where
  "u32_at bytes p =
     (if p > length bytes \<or> length bytes - p < 4 then None
      else Some (ord (bytes ! p) + 256 * ord (bytes ! (p + 1)) + 65536 * ord (bytes ! (p + 2)) + 16777216 * ord (bytes ! (p + 3))))"

text \<open>A managed header: the fifteenth data directory is there and large enough. \<open>None\<close>: truncated.\<close>

definition managed_header :: "string \<Rightarrow> nat \<Rightarrow> bool option" where
  "managed_header bytes opt =
     (case u32_at bytes opt of None \<Rightarrow> None | Some magic \<Rightarrow>
       let plus = (magic mod 65536 = 0x20b); count = opt + (if plus then 108 else 92); clr = opt + (if plus then 112 else 96) + 14 * 8 in
       (case u32_at bytes count of None \<Rightarrow> None | Some n \<Rightarrow> if n \<le> 14 then Some False else
       (case u32_at bytes clr of None \<Rightarrow> None | Some va \<Rightarrow> if va = 0 then Some False else
       (case u32_at bytes (clr + 4) of None \<Rightarrow> None | Some n \<Rightarrow> Some (n \<ge> 72)))))"

definition pe_route :: string where
  "pe_route = ''xair inventory; ilspy inventory if managed''"

text \<open>Kind and route of a module, and whether its header was truncated.\<close>

definition pe_probe :: "string \<Rightarrow> (string \<times> string) \<times> bool" where
  "pe_probe bytes =
     (case u32_at bytes 0x3c of
        None \<Rightarrow> ((''pe_candidate'', pe_route), True)
      | Some pe \<Rightarrow>
          if pe + 26 \<le> length bytes \<and> take 4 (drop pe bytes) = [CHR ''P'', CHR ''E'', CHR 0x00, CHR 0x00]
          then (case managed_header bytes (pe + 24) of
                  None \<Rightarrow> ((''pe'', pe_route), True)
                | Some True \<Rightarrow> ((''managed_pe'', ''ilspy inventory/references/methods; explicit imported dependencies''), False)
                | Some False \<Rightarrow> ((''pe'', pe_route), False))
          else ((''pe_candidate'', pe_route), False))"

definition magic_routes :: "(string \<times> string \<times> string) list" where
  "magic_routes =
     [(''%PDF-'', ''pdf'', ''ilspy artifact PDF pages/objects; do not execute active content''),
      ([CHR 0x00, CHR ''a'', CHR ''s'', CHR ''m''], ''wasm'', ''ilspy artifact WABT validation/disassembly''),
      ([CHR ''d'', CHR ''e'', CHR ''x'', CHR 0x0A], ''dex'', ''ghidra functions/decompile (Dalvik)''),
      ([CHR 0xCA, CHR 0xFE, CHR 0xBA, CHR 0xBE], ''class_or_fat_macho_candidate'',
        ''Ghidra loader validation required; magic alone is ambiguous''),
      ([CHR 0xD0, CHR 0xCF, CHR 0x11, CHR 0xE0, CHR 0xA1, CHR 0xB1, CHR 0x1A, CHR 0xE1], ''ole_container'',
        ''ilspy artifact structured streams; never execute macros automatically''),
      ([CHR ''P'', CHR ''K'', CHR 0x03, CHR 0x04], ''zip_container'',
        ''bounded archive preparation; classify children; APK/JAR identity not confirmed by ZIP signature''),
      ([CHR 0xD4, CHR 0xC3, CHR 0xB2, CHR 0xA1], ''capture'', ''wireshark packets''),
      ([CHR 0xA1, CHR 0xB2, CHR 0xC3, CHR 0xD4], ''capture'', ''wireshark packets''),
      ([CHR 0x0A, CHR 0x0D, CHR 0x0D, CHR 0x0A], ''capture'', ''wireshark packets'')]"

definition probe :: "string \<Rightarrow> (string \<times> string) option \<times> bool" where
  "probe bytes =
     (if starts_with bytes [CHR 0x7F, CHR ''E'', CHR ''L'', CHR ''F'']
      then (Some (''elf'', ''xair inventory; verify machine support''), False)
      else if starts_with bytes ''MZ'' then (Some (fst (pe_probe bytes)), snd (pe_probe bytes))
      else (map_option snd (find (\<lambda>(magic, r). starts_with bytes magic) magic_routes), False))"

definition artifact_route :: "store \<Rightarrow> target_rec \<Rightarrow> json res" where
  "artifact_route st t =
     bindE (object_path (tr_sha t)) (\<lambda>path.
     case objects st path of
       None \<Rightarrow> throw ''artifact unreadable''
     | Some content \<Rightarrow>
         let bytes = take 65536 content;
             out = jput ''prefix_sha256'' (JStr (sha256_text bytes)) (jput ''prefix_bytes'' (jnat (length bytes))
                     (jput ''artifact_sha256'' (JStr (tr_sha t)) (jput ''schema'' (JStr ''indago.artifact-route.v1'')
                     (artifact_route_hint (tr_name t)))));
             out = (if snd (probe bytes) then jput ''header_status'' (JStr ''partial'') out else out);
             out = (case fst (probe bytes) of
                 None \<Rightarrow> out
               | Some (kind, route) \<Rightarrow> jput ''basis'' (JStr ''bounded_signature_probe; parser validation still required'')
                   (jput ''route'' (JStr route) (jput ''kind'' (JStr kind) out)))
         in bindE (sha256_file [] (Some content)) (\<lambda>h.
              throw_if (h \<noteq> tr_sha t) ''Artifact changed during routing'' (Inr (jput ''automatic_execution'' (JBool False) out))))"

section \<open>Engine groups\<close>

definition group_for :: "string \<Rightarrow> string" where
  "group_for name =
     (if starts_with name ''ghidra/'' then ''ghidra'' else if starts_with name ''ilspy/'' then ''ilspy''
      else if starts_with name ''enrichment/'' then ''enrichment'' else if starts_with name ''network/'' then ''network''
      else if starts_with name ''replay/'' then ''replay'' else ''runtime'')"

definition engine_groups :: "string list" where
  "engine_groups = [''runtime'', ''ghidra'', ''ilspy'', ''enrichment'', ''network'', ''replay'']"

text \<open>The entries of the embedded manifest, name and hash, up to its terminating entry.\<close>

definition select_entry :: "string \<Rightarrow> string \<times> string \<Rightarrow> (string \<times> json) list \<Rightarrow> (string \<times> json) list res" where
  "select_entry grp = (\<lambda>(name, sha) selected.
     if group_for name \<noteq> grp then Inr selected
     else if smap_has selected name then throw ''Duplicate engine payload name''
     else Inr (smap_put name (JStr sha) selected))"

definition group_identity :: "(string \<times> string) list \<Rightarrow> string \<Rightarrow> string res" where
  "group_identity entries' grp =
     throw_if (grp \<notin> set engine_groups) ''Unknown engine payload group'' (
     bindE (foldE (select_entry grp) entries' []) (\<lambda>selected.
     throw_if (selected = []) ''Requested engine payload group is unavailable'' (
     bindE (dump (jobj [(''schema'', JStr ''indago.engine-group.v1''), (''group'', JStr grp), (''files'', JObj selected)])) (\<lambda>text.
       Inr (sha256_text text)))))"

section \<open>What the identity depends on\<close>

text \<open>An entry of another group does not change the identity of a group.\<close>

lemma select_other: "group_for name \<noteq> grp \<Longrightarrow> select_entry grp (name, sha) selected = Inr selected"
  by (simp add: select_entry_def)

lemma foldE_filter: "(\<And>x s. \<not> P x \<Longrightarrow> f x s = Inr s) \<Longrightarrow> foldE f xs s = foldE f (filter P xs) s"
  by (induction xs arbitrary: s) (auto intro!: bindE_cong)

lemma group_identity_filter:
  "group_identity entries' grp = group_identity (filter (\<lambda>(name, sha). group_for name = grp) entries') grp"
  unfolding group_identity_def
  by (subst foldE_filter[where P = "\<lambda>(name, sha). group_for name = grp"]) (auto simp: select_other)

text \<open>The hint never authorizes an execution.\<close>

lemma hint_flags:
  "jat ''execution_authorized'' (artifact_route_hint name) = Inr (JBool False)" "is_object (artifact_route_hint name)"
  by (simp_all add: artifact_route_hint_def json_simps split: prod.split)

lemma route_never_executes:
  assumes "artifact_route st t = Inr out"
  shows "jat ''automatic_execution'' out = Inr (JBool False)"
    and "jat ''execution_authorized'' out = Inr (JBool False)"
  using assms hint_flags
  by (auto simp: artifact_route_def Let_def json_simps jat_jput_obj simp del: jat_jput
      split: option.splits if_splits prod.splits)

end
