(* ===== verification/Ind_Benchmark.thy ===== *)
theory Ind_Benchmark
  imports Ind_Evaluation Ind_Route
begin

text \<open>
  The operator's side of the benchmark (\<^verbatim>\<open>src/benchmark.hpp\<close>): the checks of catalogue and paths, the coverage
  of a catalogue, the grade of one attempt and the score of many, and the capability matrix of
  \<^verbatim>\<open>evaluation_action\<close> (\<^verbatim>\<open>src/research_workflow.cpp\<close>).  Freezing and preparing a catalogue run the
  archive tool and are not modelled.
\<close>

section \<open>Paths below a root\<close>

definition device_stem :: "string \<Rightarrow> bool" where
  "device_stem d =
     (d \<in> {''con'', ''prn'', ''aux'', ''nul''} \<or>
      (length d = 4 \<and> (starts_with d ''com'' \<or> starts_with d ''lpt'') \<and> CHR ''0'' \<le> last d \<and> last d \<le> CHR ''9''))"

definition forbidden_part :: "string \<Rightarrow> bool" where
  "forbidden_part part =
     (part = [] \<or> part = ''.'' \<or> part = ''..'' \<or> last part = CHR ''.'' \<or> last part = CHR '' '' \<or>
      lower_string part \<in> {''.git'', ''write-ups'', ''writeups'', ''solutions''} \<or>
      device_stem (takeWhile (\<lambda>c. c \<noteq> CHR ''.'') (lower_string part)))"

text \<open>The parts that \<^verbatim>\<open>std::getline\<close> yields: a slash at the end starts no further part.\<close>

definition path_parts :: "string \<Rightarrow> string list" where
  "path_parts s = (let parts = split_slash [] s in if last parts = [] then butlast parts else parts)"

definition safe_relative :: "string \<Rightarrow> string res" where
  "safe_relative raw =
     (let s = map (\<lambda>c. if c = CHR 0x5C then CHR ''/'' else c) raw in
      throw_if (s = [] \<or> length s > 1024 \<or> hd s = CHR ''/'' \<or> list_ex (\<lambda>c. c \<in> set '':\"<>|?*'') s \<or> list_ex (\<lambda>c. ord c < 32) s)
        ''Unsafe artifact path'' (
      throw_if (list_ex forbidden_part (path_parts s)) ''Forbidden artifact path component'' (Inr s)))"

text \<open>
  A directory tree of the operator, where a path is the list of its parts and the part after a slash at the end is
  empty: whether the root or an ancestor is a symbolic link, which paths below it are, and
  the files below it.
\<close>

record tree_view =
  tv_linked_root :: bool
  tv_link :: "string list \<Rightarrow> bool"
  tv_file :: "string list \<Rightarrow> string option"

definition checked_path :: "tree_view \<Rightarrow> string \<Rightarrow> string list res" where
  "checked_path tree relative =
     throw_if (tv_linked_root tree) ''Symlink in benchmark root'' (
     bindE (safe_relative relative) (\<lambda>s.
     let parts = split_slash [] s in
     throw_if (list_ex (\<lambda>n. tv_link tree (take n parts)) [1..<Suc (length parts)]) ''Symlink in benchmark path'' (Inr parts)))"

text \<open>The operator's machine: files and directories by the text of their path.\<close>

record bench_host =
  bh_read :: "string \<Rightarrow> json res"
  bh_file :: "string \<Rightarrow> string option"
  bh_tree :: "string \<Rightarrow> tree_view"
  bh_disjoint :: "string \<Rightarrow> string \<Rightarrow> bool"

definition bench_load :: "bench_host \<Rightarrow> string option \<Rightarrow> json res" where
  "bench_load h content =
     (case content of
        None \<Rightarrow> Inl Fs_Error
      | Some text \<Rightarrow> throw_if (length text > 16 * 1024 * 1024) ''Benchmark JSON exceeds 16 MiB'' (bh_read h text))"

definition bench_load_in :: "bench_host \<Rightarrow> tree_view \<Rightarrow> string \<Rightarrow> json res" where
  "bench_load_in h tree relative = bindE (checked_path tree relative) (\<lambda>p. bench_load h (tv_file tree p))"

section \<open>Catalogues\<close>

definition verify_catalogue :: "json \<Rightarrow> unit res" where
  "verify_catalogue catalogue =
     bindE (jstr_at ''catalogue_sha256'' catalogue) (\<lambda>sha.
     bindE (dump (jerase ''catalogue_sha256'' catalogue)) (\<lambda>text.
     throw_if (sha256_text text \<noteq> sha) ''Catalogue integrity failure'' (
     bindE (jat ''denominator'' (jerase ''catalogue_sha256'' catalogue)) (\<lambda>n.
     bindE (jat ''challenges'' (jerase ''catalogue_sha256'' catalogue)) (\<lambda>cs.
     throw_if (\<not> jeq n (jnat (jsize cs))) ''Denominator mismatch'' (Inr ()))))))"

definition load_catalogue :: "bench_host \<Rightarrow> json \<Rightarrow> json res" where
  "load_catalogue h r =
     bindE (jstr_at ''catalogue'' r) (\<lambda>p. bindE (bench_load h (bh_file h p)) (\<lambda>catalogue.
     bindE (verify_catalogue catalogue) (\<lambda>_. Inr catalogue)))"

definition format_hint :: "string \<Rightarrow> string \<Rightarrow> string" where
  "format_hint name bytes =
     (if starts_with bytes ''MZ'' then ''PE_candidate''
      else if length bytes > 4 \<and> take 4 bytes = [CHR 0x7F, CHR ''E'', CHR ''L'', CHR ''F''] then ''ELF_candidate''
      else
        let ext = (if CHR ''.'' \<in> set name then CHR ''.'' # rev (takeWhile (\<lambda>c. c \<noteq> CHR ''.'') (rev (lower_string name))) else []) in
        if ext \<in> {''.exe'', ''.dll'', ''.sys''} then ''native_or_managed_PE_candidate''
        else if ext = ''.apk'' then ''Android_archive_candidate''
        else if ext \<in> {''.pcap'', ''.pcapng''} then ''packet_capture_candidate''
        else if ext \<in> {''.py'', ''.js'', ''.html'', ''.ps1''} then ''script_candidate''
        else if ext \<in> {''.zip'', ''.7z'', ''.tar'', ''.gz''} then ''nested_archive''
        else ''unknown'')"

section \<open>Coverage of a catalogue\<close>

type_synonym families = "(string, string list) smap"

definition add_family :: "string \<Rightarrow> string \<Rightarrow> families \<Rightarrow> families" where
  "add_family kind i fs =
     smap_put kind (sset_insert i (case smap_get fs kind of Some s \<Rightarrow> s | None \<Rightarrow> [])) fs"

definition cover_member :: "json \<Rightarrow> json \<Rightarrow> json \<Rightarrow> json list \<times> families \<Rightarrow> (json list \<times> families) res" where
  "cover_member challenge container member = (\<lambda>(rs, fs).
     throw_if (length rs \<ge> 4096) ''Catalogue coverage row bound exceeded'' (
     bindE (jstr_at ''path'' member) (\<lambda>p.
     let route = artifact_route_hint p in
     bindE (jstr_at ''kind'' route) (\<lambda>kind. bindE (jstr_at ''id'' challenge) (\<lambda>i.
     bindE (jat ''sha256'' container) (\<lambda>sha.
       Inr (rs @ [jobj [(''challenge'', JStr i), (''container_sha256'', sha), (''member'', JStr p), (''assessment'', route)]],
            add_family kind i fs)))))))"

definition bench_coverage :: "bench_host \<Rightarrow> json \<Rightarrow> json res" where
  "bench_coverage h r =
     bindE (load_catalogue h r) (\<lambda>catalogue. bindE (jat ''challenges'' catalogue) (\<lambda>cs.
     bindE (foldE (\<lambda>challenge s. bindE (jat ''artifacts'' challenge) (\<lambda>as.
              foldE (\<lambda>container s. bindE (jvalue ''members'' (JArr []) container) (\<lambda>ms.
                foldE (cover_member challenge container) (jrange ms) s)) (jrange as) s)) (jrange cs) ([], [])) (\<lambda>(rs, fs).
     bindE (jat ''catalogue_sha256'' catalogue) (\<lambda>sha. bindE (jat ''denominator'' catalogue) (\<lambda>n.
       Inr (jobj [(''schema'', JStr ''indago.catalogue-coverage.v1''), (''catalogue_sha256'', sha), (''denominator'', n),
         (''families'', JObj (map (\<lambda>(k, ids). (k, JArr (map JStr ids))) fs)), (''artifacts'', JArr rs),
         (''all_formats_supported'', JBool False),
         (''limitation'', JStr (''Frozen filename inventory, not confirmed parser/runtime coverage; '' @
            ''nested contents require materialization''))]))))))"

section \<open>Grading one attempt\<close>

definition same_at :: "string \<Rightarrow> json \<Rightarrow> string \<Rightarrow> json \<Rightarrow> bool res" where
  "same_at k a l b = bindE (jat k a) (\<lambda>x. bindE (jat l b) (\<lambda>y. Inr (jeq x y)))"

definition not_same_at :: "string \<Rightarrow> json \<Rightarrow> json \<Rightarrow> bool res" where
  "not_same_at k a b = bindE (same_at k a k b) (\<lambda>e. Inr (\<not> e))"

fun any_challenge :: "json \<Rightarrow> json list \<Rightarrow> bool \<Rightarrow> bool res" where
  "any_challenge submission [] found = Inr found"
| "any_challenge submission (c # cs) found =
     bindE (same_at ''id'' c ''challenge'' submission) (\<lambda>e. any_challenge submission cs (found \<or> e))"

definition grade_scope :: "json \<Rightarrow> json \<Rightarrow> json \<Rightarrow> unit res" where
  "grade_scope catalogue submission spec =
     bindE (jat ''challenges'' catalogue) (\<lambda>cs. bindE (any_challenge submission (jrange cs) False) (\<lambda>found.
     bindE (any_differs [Inr (\<not> found), not_same_at ''catalogue_sha256'' submission catalogue,
         not_same_at ''catalogue_sha256'' spec catalogue, not_same_at ''challenge'' spec submission]) (\<lambda>bad.
     throw_if bad ''Verifier/submission scope mismatch'' (
     bindE (any_differs [bindE (jat ''kind'' spec) (\<lambda>k. Inr (\<not> jeq k (JStr ''exact_utf8_sha256''))),
         bindE (jat ''authority'' spec) (\<lambda>a. Inr (\<not> jeq a (JStr ''independent_operator'')))]) (\<lambda>bad.
     throw_if bad ''Unsupported or non-independent verifier'' (Inr ()))))))"

definition check_solver :: "tree_view \<Rightarrow> json \<Rightarrow> unit res" where
  "check_solver analysis submission =
     bindE (jstr_at ''solver_path'' submission) (\<lambda>p. bindE (checked_path analysis p) (\<lambda>path.
       case tv_file analysis path of
         None \<Rightarrow> Inl Fs_Error
       | Some bytes \<Rightarrow>
           if length bytes > 1024 * 1024 then throw ''Solver artifact integrity failure''
           else bindE (sha256_file [] (Some bytes)) (\<lambda>h. bindE (jstr_at ''solver_sha256'' submission) (\<lambda>sha.
             throw_if (h \<noteq> sha) ''Solver artifact integrity failure'' (Inr ())))))"

definition check_input :: "tree_view \<Rightarrow> json \<Rightarrow> unit \<Rightarrow> unit res" where
  "check_input analysis a _ =
     bindE (jstr_at ''path'' a) (\<lambda>p. bindE (checked_path analysis p) (\<lambda>path.
     bindE (sha256_file [] (tv_file analysis path)) (\<lambda>h. bindE (jstr_at ''sha256'' a) (\<lambda>sha.
       throw_if (h \<noteq> sha) ''Prepared input changed'' (Inr ())))))"

definition check_inputs_manifest :: "bench_host \<Rightarrow> tree_view \<Rightarrow> json \<Rightarrow> json \<Rightarrow> unit res" where
  "check_inputs_manifest h analysis submission catalogue =
     bindE (bench_load_in h analysis ''input-manifest.json'') (\<lambda>inputs.
     bindE (any_differs [bindE (jat ''status'' inputs) (\<lambda>s. Inr (\<not> jeq s (JStr ''completed''))),
         bindE (dump (jerase ''input_manifest_sha256'' inputs)) (\<lambda>text. bindE (jstr_at ''input_manifest_sha256'' inputs) (\<lambda>sha.
           Inr (sha256_text text \<noteq> sha))),
         not_same_at ''challenge'' inputs submission, not_same_at ''catalogue_sha256'' inputs catalogue]) (\<lambda>bad.
     throw_if bad ''Prepared inputs invalid'' (
     bindE (jat ''artifacts'' inputs) (\<lambda>as. foldE (check_input analysis) (jrange as) ()))))"

definition attempt_number :: "json \<Rightarrow> u32 res" where
  "attempt_number submission =
     bindE (bindE (jat ''attempt'' submission) (\<lambda>v. case v of JBool b \<Rightarrow> Inr (if b then 1 else 0) | _ \<Rightarrow> jword v)) (\<lambda>w.
       let n = (ucast w :: u32) in throw_if (n = 0 \<or> n > 1000) ''Attempt must be 1..1000'' (Inr n))"

definition grade_outcomes :: "string list" where
  "grade_outcomes = [''answer'', ''timeout'', ''unsupported'', ''environment_missing'', ''budget_exhausted'', ''analysis_failed'',
     ''cancelled'', ''no_answer'']"

definition declared_run :: "json \<Rightarrow> json res" where
  "declared_run submission =
     bindE (jat ''run'' submission) (\<lambda>run.
       throw_if (\<not> list_all (contains run) [''model'', ''profile_sha256'', ''budget'', ''usage'']) ''Missing run declaration'' (Inr run))"

definition answer_passes :: "json \<Rightarrow> string \<Rightarrow> string \<Rightarrow> bool res" where
  "answer_passes spec outcome answer =
     (if outcome \<noteq> ''answer'' then Inr False
      else bindE (jstr_at ''answer_sha256'' spec) (\<lambda>sha. Inr (sha256_text answer = sha)))"

definition grade_json :: "json \<Rightarrow> json \<Rightarrow> json \<Rightarrow> u32 \<Rightarrow> json \<Rightarrow> string \<Rightarrow> bool \<Rightarrow> json res" where
  "grade_json catalogue submission spec attempt run outcome passed =
     bindE (jat ''challenge'' submission) (\<lambda>c. bindE (jat ''catalogue_sha256'' catalogue) (\<lambda>sha.
     bindE (jat ''solver_sha256'' submission) (\<lambda>solver. bindE (dump submission) (\<lambda>stext. bindE (dump spec) (\<lambda>vtext.
       Inr (jobj [(''schema'', JStr ''indago.benchmark-grade.v1''), (''challenge'', c), (''catalogue_sha256'', sha),
         (''attempt'', JUInt (ucast attempt)), (''status'', JStr (if passed then ''passed'' else ''failed'')),
         (''verified_solve'', JBool passed), (''verification_kind'', JStr ''exact_utf8_sha256''),
         (''failure_category'', JStr (if passed then ''none'' else if outcome = ''answer'' then ''wrong_answer'' else outcome)),
         (''behavior_verified'', JBool False), (''solver_executed'', JBool False), (''solver_sha256'', solver),
         (''submission_sha256'', JStr (sha256_text stext)), (''verifier_sha256'', JStr (sha256_text vtext)), (''run'', run),
         (''limitations'', JArr [
            JStr (''Independent operator supplies expected-answer digest; no expected answer is exposed to the harness''),
            JStr (''Fixed-answer grading does not prove solver correctness, behavior, clean-room execution, '' @
               ''or absence of model training contamination'')])]))))))"

definition grade :: "bench_host \<Rightarrow> json \<Rightarrow> json res" where
  "grade h r =
     bindE (jstr_at ''evaluator_root'' r) (\<lambda>evaluator. bindE (jstr_at ''analysis_root'' r) (\<lambda>analysis.
     throw_if (\<not> bh_disjoint h evaluator analysis) ''Evaluator and analysis directories must be disjoint'' (
     bindE (load_catalogue h r) (\<lambda>catalogue.
     bindE (bindE (jstr_at ''submission'' r) (bench_load_in h (bh_tree h analysis))) (\<lambda>submission.
     bindE (bindE (jstr_at ''verifier'' r) (bench_load_in h (bh_tree h evaluator))) (\<lambda>spec.
     bindE (grade_scope catalogue submission spec) (\<lambda>_.
     bindE (jvalue_str ''answer'' [] submission) (\<lambda>answer.
     throw_if (length answer > 4096) ''Answer exceeds bound'' (
     bindE (check_solver (bh_tree h analysis) submission) (\<lambda>_.
     bindE (check_inputs_manifest h (bh_tree h analysis) submission catalogue) (\<lambda>_.
     bindE (attempt_number submission) (\<lambda>attempt.
     bindE (declared_run submission) (\<lambda>run.
     bindE (jvalue_str ''outcome'' ''answer'' submission) (\<lambda>outcome.
     throw_if (outcome \<notin> set grade_outcomes) ''Unknown attempt outcome'' (
     bindE (answer_passes spec outcome answer) (\<lambda>passed.
       grade_json catalogue submission spec attempt run outcome passed))))))))))))))))"

section \<open>Scoring many attempts\<close>

record score_state =
  sc_attempts :: "(string, u32 list) smap"
  sc_successes :: "string list"
  sc_firsts :: "string list"
  sc_rows :: "json list"

definition attempts_of :: "string \<Rightarrow> (string, u32 list) smap \<Rightarrow> u32 list" where
  "attempts_of i m = (case smap_get m i of Some ns \<Rightarrow> ns | None \<Rightarrow> [])"

definition score_attempt :: "bench_host \<Rightarrow> json \<Rightarrow> json \<Rightarrow> score_state \<Rightarrow> score_state res" where
  "score_attempt h r request s =
     bindE (jat ''catalogue'' r) (\<lambda>c. bindE (jset ''catalogue'' c request) (\<lambda>request.
     bindE (jat ''evaluator_root'' r) (\<lambda>e. bindE (jset ''evaluator_root'' e request) (\<lambda>request.
     bindE (grade h request) (\<lambda>result.
     bindE (jstr_at ''challenge'' result) (\<lambda>i.
     bindE (bindE (jat ''attempt'' result) jword) (\<lambda>w.
     let n = (ucast w :: u32); ns = attempts_of i (sc_attempts s) in
     throw_if (n \<in> set ns) ''Duplicate challenge attempt'' (
     bindE (jat ''verified_solve'' result) (\<lambda>v.
     let verified = jeq v (JBool True) in
       Inr \<lparr>sc_attempts = smap_put i (n # ns) (sc_attempts s),
            sc_successes = (if verified then sset_insert i (sc_successes s) else sc_successes s),
            sc_firsts = (if verified \<and> n = 1 then sset_insert i (sc_firsts s) else sc_firsts s),
            sc_rows = sc_rows s @ [result]\<rparr>)))))))))"

text \<open>The outcome of one challenge of the catalogue; asking for its attempts makes an empty entry.\<close>

record outcome_state =
  oc_attempts :: "(string, u32 list) smap"
  oc_passed :: u32
  oc_first :: u32
  oc_rows :: "json list"

definition score_outcome :: "score_state \<Rightarrow> json \<Rightarrow> outcome_state \<Rightarrow> outcome_state res" where
  "score_outcome s c o' =
     bindE (jstr_at ''id'' c) (\<lambda>i. bindE (jstr_at ''status'' c) (\<lambda>status.
       let solved = (i \<in> set (sc_successes s));
           outcome = (if solved then ''passed'' else if smap_has (oc_attempts o') i then ''failed''
             else if status = ''available'' then ''not_run'' else status) in
       Inr \<lparr>oc_attempts = smap_emplace i [] (oc_attempts o'),
            oc_passed = (if solved then oc_passed o' + 1 else oc_passed o'),
            oc_first = (if i \<in> set (sc_firsts s) then oc_first o' + 1 else oc_first o'),
            oc_rows = oc_rows o' @ [jobj [(''challenge'', JStr i), (''status'', JStr outcome),
              (''attempts'', jnat (length (attempts_of i (oc_attempts o'))))]]\<rparr>))"

definition bench_score :: "bench_host \<Rightarrow> json \<Rightarrow> json res" where
  "bench_score h r =
     bindE (load_catalogue h r) (\<lambda>catalogue.
     bindE (jat ''attempts'' r) (\<lambda>as.
     throw_if (jsize as > 1000) ''Score attempt bound'' (
     bindE (foldE (score_attempt h r) (jrange as) \<lparr>sc_attempts = [], sc_successes = [], sc_firsts = [], sc_rows = []\<rparr>) (\<lambda>s.
     bindE (jat ''challenges'' catalogue) (\<lambda>cs.
     bindE (foldE (score_outcome s) (jrange cs) \<lparr>oc_attempts = sc_attempts s, oc_passed = 0, oc_first = 0, oc_rows = []\<rparr>) (\<lambda>o'.
     bindE (jat ''denominator'' catalogue) (\<lambda>n. bindE (jword n) (\<lambda>w.
       Inr (jobj [(''schema'', JStr ''indago.benchmark-score.v1''), (''denominator'', n), (''passed'', JUInt (ucast (oc_passed o'))),
         (''pass_at_1_count'', JUInt (ucast (oc_first o'))), (''all_solved'', JBool (oc_passed o' = ucast w)),
         (''attempts'', JArr (sc_rows s)), (''outcomes'', JArr (oc_rows o')),
         (''limitation'', JStr (''Score covers submitted attempts; operator must retain all attempts '' @
            ''and enforce the declared clean-run protocol''))])))))))))"

text \<open>The commands; \<open>archiver\<close> stands for the two that run the archive tool.\<close>

definition bench_action :: "bench_host \<Rightarrow> (string \<Rightarrow> json \<Rightarrow> json res) \<Rightarrow> string \<Rightarrow> json \<Rightarrow> json res" where
  "bench_action h archiver op r =
     (if op = ''coverage'' then bench_coverage h r
      else if op = ''freeze'' \<or> op = ''prepare'' then archiver op r
      else if op = ''grade'' then grade h r
      else if op = ''score'' then bench_score h r
      else throw ''Unknown benchmark operation'')"

section \<open>The capability matrix\<close>

definition assessments :: "string list" where
  "assessments = [''missing'', ''implemented'', ''fixture_tested'', ''challenge_tested'', ''unknown'']"

definition capability_row :: "json \<Rightarrow> json \<Rightarrow> json list \<Rightarrow> json list res" where
  "capability_row capabilities c rs =
     bindE (jstr c) (\<lambda>name. bindE (check_identifier name) (\<lambda>_.
     bindE (jvalue name (jobj [(''status'', JStr ''unknown'')]) capabilities) (\<lambda>state.
     bindE (check_keys state [''status'', ''evidence'']) (\<lambda>_.
     bindE (jstr_at ''status'' state) (\<lambda>status.
     throw_if (status \<notin> set assessments) ''invalid capability assessment'' (
     bindE (if status \<noteq> ''missing'' \<and> status \<noteq> ''unknown'' then bindE (jat ''evidence'' state) (text_limit 2048) else Inr ()) (\<lambda>_.
       Inr (rs @ [jobj [(''capability'', c), (''assessment'', state),
         (''assessment_authority'', JStr ''operator supplied; not independently graded'')]]))))))))"

definition matrix_row :: "json \<Rightarrow> json \<Rightarrow> json \<Rightarrow> json list \<times> string list \<Rightarrow> (json list \<times> string list) res" where
  "matrix_row requirements capabilities challenge = (\<lambda>(rs, ids).
     bindE (jstr_at ''id'' challenge) (\<lambda>i. bindE (jat ''status'' challenge) (\<lambda>status.
     bindE (if contains requirements i
            then bindE (jat i requirements) (\<lambda>req.
              throw_if (\<not> is_array req \<or> jsize req > 32) ''challenge capability bound''
                (foldE (capability_row capabilities) (jrange req) []))
            else Inr []) (\<lambda>caps.
       Inr (rs @ [jobj [(''challenge'', JStr i), (''catalogue_status'', status), (''capabilities'', JArr caps),
              (''requirements_assessed'', JBool (contains requirements i)), (''solved'', JBool False)]], sset_insert i ids)))))"

definition evaluation_matrix :: "bench_host \<Rightarrow> json \<Rightarrow> json res" where
  "evaluation_matrix h r =
     bindE (check_keys r [''catalogue'', ''requirements'', ''capabilities'', ''basis'']) (\<lambda>_.
     bindE (load_catalogue h r) (\<lambda>catalogue.
     bindE (jat ''requirements'' r) (\<lambda>requirements.
     throw_if (\<not> is_object requirements \<or> jsize requirements > 256) ''coverage matrix bounds exceeded'' (
     bindE (jat ''capabilities'' r) (\<lambda>capabilities.
     throw_if (\<not> is_object capabilities \<or> jsize capabilities > 128) ''coverage matrix bounds exceeded'' (
     bindE (jat ''challenges'' catalogue) (\<lambda>cs.
     bindE (foldE (matrix_row requirements capabilities) (jrange cs) ([], [])) (\<lambda>(rs, ids).
     throw_if (list_ex (\<lambda>(k, v). k \<notin> set ids) (entries requirements)) ''unknown challenge in coverage matrix'' (
     bindE (jvalue_str ''basis'' ''operator_assessment'' r) (\<lambda>basis.
     throw_if (basis \<notin> {''operator_assessment'', ''filename_lower_bound''}) ''invalid requirements basis'' (
     bindE (jat ''catalogue_sha256'' catalogue) (\<lambda>sha. bindE (jat ''denominator'' catalogue) (\<lambda>n.
       Inr (jobj [(''schema'', JStr ''indago.capability-matrix.v1''), (''catalogue_sha256'', sha), (''denominator'', n),
         (''basis'', JStr basis), (''requirements_complete'', JBool False), (''rows'', JArr rs),
         (''all_solved'', JBool False)]))))))))))))))"

text \<open>The whole of the evaluation commands.\<close>

definition evaluation_command ::
  "bench_host \<Rightarrow> (string \<Rightarrow> json res) \<Rightarrow> kb \<Rightarrow> bool \<Rightarrow> eval_files \<Rightarrow> string \<Rightarrow> string \<Rightarrow> json \<Rightarrow> eval_files \<Rightarrow>
   (json \<times> eval_files) res" where
  "evaluation_command h parse db separate host fresh_id op r files =
     (if op = ''matrix'' then bindE (evaluation_matrix h r) (\<lambda>j. Inr (j, files))
      else evaluation_action parse db separate host fresh_id op r files)"

section \<open>What a score says\<close>

text \<open>Every success is the challenge of an attempt whose grade is a verified solve.\<close>

definition score_ok :: "score_state \<Rightarrow> bool" where
  "score_ok s \<longleftrightarrow> (\<forall>i \<in> set (sc_successes s). \<exists>g \<in> set (sc_rows s).
     jat ''challenge'' g = Inr (JStr i) \<and> jat ''verified_solve'' g = Inr (JBool True))"

lemma score_attempt_ok:
  assumes "score_attempt h r request s = Inr s'" and "score_ok s"
  shows "score_ok s'"
proof -
  from assms(1) obtain result i w v where g: "jstr_at ''challenge'' result = Inr i" "jat ''verified_solve'' result = Inr v"
    and s': "sc_rows s' = sc_rows s @ [result]"
      "sc_successes s' = (if jeq v (JBool True) then sset_insert i (sc_successes s) else sc_successes s)"
    unfolding score_attempt_def Let_def by (auto elim!: bindE_InrE)
  show ?thesis using assms(2) g unfolding score_ok_def s' by (auto split: if_splits)
qed

lemma score_outcomes_count:
  assumes "foldE (score_outcome s) cs o1 = Inr o2"
  shows "oc_passed o2 = oc_passed o1 + word_of_nat (length (filter (\<lambda>c. \<exists>i \<in> set (sc_successes s). jat ''id'' c = Inr (JStr i)) cs))"
  using assms
proof (induction cs arbitrary: o1)
  case (Cons c cs)
  from Cons.prems obtain o' where "score_outcome s c o1 = Inr o'" and rest: "foldE (score_outcome s) cs o' = Inr o2"
    by (auto elim!: bindE_InrE)
  then have "oc_passed o' = oc_passed o1 + (if \<exists>i \<in> set (sc_successes s). jat ''id'' c = Inr (JStr i) then 1 else 0)"
    unfolding score_outcome_def Let_def by (auto elim!: bindE_InrE)
  with Cons.IH[OF rest] show ?case by (simp add: algebra_simps)
qed simp

lemma bit_length_le: "n < 2 ^ k \<Longrightarrow> bit_length n \<le> k"
proof (induction k arbitrary: n)
  case 0
  then show ?case by (simp add: bit_length.simps)
next
  case (Suc k)
  then have "n div 2 < 2 ^ k" by auto
  from Suc.IH[OF this] show ?case by (subst bit_length.simps) simp
qed

lemma double_of_small: "n < 2 ^ 53 \<Longrightarrow> double_of_nat n = n"
  using bit_length_le[of n 53] by (simp add: double_of_nat_def)

text \<open>A small number that equals the size, of whichever kind, reads as the size.\<close>

lemma jeq_size_word:
  assumes "jeq n (jnat m)" and "m < 2 ^ 32"
  shows "jword n = Inr (word_of_nat m)"
proof (cases n)
  case (JFloat f t)
  have "uint (word_of_nat m :: u64) = int m" using assms(2) by (simp add: uint_nat unat_jnat)
  then have "f = of_nat m" using assms JFloat by (simp add: double_of_int_def double_of_small)
  then show ?thesis using JFloat by (simp add: jword_def)
next
  case (JInt w)
  then show ?thesis using assms(1) by (simp add: jword_def signed_word_eqI)
next
  case (JUInt w)
  then show ?thesis using assms(1) by (simp add: jword_def)
qed (use assms(1) in simp_all)

lemma smap_get_del_other: "k \<noteq> k' \<Longrightarrow> smap_get (smap_del k' m) k = smap_get m k"
  by (induction k' m rule: smap_del.induct) auto

lemma load_catalogue_denominator:
  assumes "load_catalogue h r = Inr catalogue" and "jat ''challenges'' catalogue = Inr cs"
  obtains n where "jat ''denominator'' catalogue = Inr n" "jeq n (jnat (length (jrange cs)))"
proof -
  have erase: "jat k (jerase ''catalogue_sha256'' catalogue) = jat k catalogue" if "k \<noteq> ''catalogue_sha256''" for k
    using that by (auto simp: jat_def jerase_def smap_get_del_other split: json.splits)
  from assms(1) have "verify_catalogue catalogue = Inr ()" unfolding load_catalogue_def by (auto elim!: bindE_InrE)
  then obtain n where "jat ''denominator'' (jerase ''catalogue_sha256'' catalogue) = Inr n" "jeq n (jnat (jsize cs))"
    using assms(2) erase[of "''challenges''"] unfolding verify_catalogue_def by (auto elim!: bindE_InrE)
  then show thesis using that erase[of "''denominator''"] by (simp add: jsize_def)
qed

lemma ucast_small: "(ucast (word_of_nat m :: u64) :: u32) = word_of_nat m"
  by (rule bit_word_eqI) (simp add: bit_simps)

text \<open>
  A score that says that all is solved has, for every challenge of the catalogue, an attempt that was graded as a
  verified solve.
\<close>

lemma all_solved_sound:
  assumes "bench_score h r = Inr j" and "jat ''all_solved'' j = Inr (JBool True)"
    and "load_catalogue h r = Inr catalogue" and "jat ''challenges'' catalogue = Inr cs" and "length (jrange cs) < 2 ^ 32"
    and "c \<in> set (jrange cs)"
  shows "\<exists>rs i. jat ''attempts'' j = Inr (JArr rs) \<and> jat ''id'' c = Inr (JStr i) \<and>
    (\<exists>g \<in> set rs. jat ''challenge'' g = Inr (JStr i) \<and> jat ''verified_solve'' g = Inr (JBool True))"
proof -
  from assms(1,3,4) obtain s o' as n w where
    run: "foldE (score_attempt h r) (jrange as) \<lparr>sc_attempts = [], sc_successes = [], sc_firsts = [], sc_rows = []\<rparr> = Inr s"
    and out: "foldE (score_outcome s) (jrange cs) \<lparr>oc_attempts = sc_attempts s, oc_passed = 0, oc_first = 0, oc_rows = []\<rparr> = Inr o'"
    and n: "jat ''denominator'' catalogue = Inr n" "jword n = Inr w"
    and j: "jat ''attempts'' j = Inr (JArr (sc_rows s))" "jat ''all_solved'' j = Inr (JBool (oc_passed o' = ucast w))"
    unfolding bench_score_def by (auto simp: json_simps elim!: bindE_InrE)
  let ?P = "\<lambda>c. \<exists>i \<in> set (sc_successes s). jat ''id'' c = Inr (JStr i)"
  have "jeq n (jnat (length (jrange cs)))"
    using load_catalogue_denominator[OF assms(3,4)] n(1) by auto
  from jeq_size_word[OF this assms(5)] have w: "w = word_of_nat (length (jrange cs))" using n(2) by simp
  have "oc_passed o' = ucast w" using j(2) assms(2) by simp
  then have "(word_of_nat (length (filter ?P (jrange cs))) :: u32) = word_of_nat (length (jrange cs))"
    using score_outcomes_count[OF out] by (simp add: w ucast_small)
  moreover have "length (filter ?P (jrange cs)) < 2 ^ 32"
    using length_filter_le[of ?P "jrange cs"] assms(5) by (rule le_less_trans)
  ultimately have "length (filter ?P (jrange cs)) = length (jrange cs)"
    using assms(5) by (simp add: word_of_nat_eq_iff take_bit_nat_eq_self)
  then have "?P c" using assms(6) length_filter_less[of c "jrange cs" ?P] by auto
  moreover have "score_ok s"
    by (rule foldE_invariant[OF run, of score_ok]) (auto simp: score_ok_def[of "\<lparr>sc_attempts = [], sc_successes = [], sc_firsts = [], sc_rows = []\<rparr>"] intro: score_attempt_ok)
  ultimately show ?thesis using j(1) unfolding score_ok_def by blast
qed

end
