(* ===== verification/Ind_Calc.thy ===== *)
theory Ind_Calc
  imports Ind_Artifact
begin

unbundle bit_operations_syntax

text \<open>
  The investigation calculator (\<^verbatim>\<open>src/harness_calculation.hpp\<close>): a finite evaluator of
  32-bit expressions over the bytes of an artifact page.  The evaluator carries the
  variables and the remaining step budget; its depth is bounded, so it terminates on every
  program.
\<close>

section \<open>Expressions\<close>

type_synonym vars = "(string, u32) smap"

definition calc_name :: "string \<Rightarrow> bool" where
  "calc_name s =
     (s \<noteq> [] \<and> length s \<le> 32 \<and>
      (is_lower (hd s) \<or> is_upper (hd s)) \<and>
      list_all (\<lambda>c. is_lower c \<or> is_upper c \<or> is_digit c \<or> c = CHR ''_'') (tl s) \<and>
      s \<noteq> ''i'' \<and> s \<noteq> ''n'')"

definition calc_integer :: "json \<Rightarrow> u32 res" where
  "calc_integer v =
     (if \<not> is_number_integer v then throw ''Calculation constants must be unsigned 32-bit integers''
      else bindE (ji64 v) (\<lambda>i. bindE (ju64 v) (\<lambda>u.
        if i < 0 \<or> u > u32_max then throw ''Calculation constants must be unsigned 32-bit integers''
        else Inr (word_of_nat u))))"

definition rotate8 :: "bool \<Rightarrow> u32 \<Rightarrow> u32 \<Rightarrow> u32" where
  "rotate8 left a b =
     (let v = a AND 255; n = unat (b mod 8)
      in if n = 0 then v
         else if left then (push_bit n v OR drop_bit (8 - n) v) AND 255
         else (drop_bit n v OR push_bit (8 - n) v) AND 255)"

text \<open>The operators of two operands, in the order of the code's tests.\<close>

definition calc_binary :: "string \<Rightarrow> u32 \<Rightarrow> u32 \<Rightarrow> u32 res" where
  "calc_binary op a b =
     (if op = ''add'' then Inr (a + b)
      else if op = ''sub'' then Inr (a - b)
      else if op = ''mul'' then Inr (ucast ((ucast a :: u64) * ucast b))
      else if op = ''xor'' then Inr (a XOR b)
      else if op = ''and'' then Inr (a AND b)
      else if op = ''or'' then Inr (a OR b)
      else if op = ''eq'' then Inr (if a = b then 1 else 0)
      else if op = ''lt'' then Inr (if a < b then 1 else 0)
      else if op = ''div'' \<or> op = ''mod'' then
        (if b = 0 then throw ''Calculation division by zero''
         else Inr (if op = ''div'' then a div b else a mod b))
      else if op = ''shl'' \<or> op = ''shr'' then
        (if b \<ge> 32 then throw ''Calculation shift must be below 32''
         else Inr (if op = ''shl'' then push_bit (unat b) a else drop_bit (unat b) a))
      else if op = ''rol8'' \<or> op = ''ror8'' then Inr (rotate8 (op = ''rol8'') a b)
      else throw (''Unsupported calculation operator: '' @ op))"

text \<open>
  \<open>eval input vars depth e k\<close>: the value of \<open>e\<close> and the steps that remain of \<open>k\<close>.
\<close>

function eval :: "u8 list \<Rightarrow> vars \<Rightarrow> nat \<Rightarrow> json \<Rightarrow> nat \<Rightarrow> (u32 \<times> nat) res" where
  "eval input vars depth e k0 =
     (if depth > 16 \<or> k0 = 0 then throw ''Calculation expression budget exhausted''
      else let k = k0 - 1 in
      if is_number_integer e then bindE (calc_integer e) (\<lambda>v. Inr (v, k))
      else case e of
        JStr key \<Rightarrow> (case smap_get vars key of
            None \<Rightarrow> throw (''Unknown calculation variable: '' @ key)
          | Some v \<Rightarrow> Inr (v, k))
      | JArr (JStr op # args) \<Rightarrow>
          if op = ''select'' then
            (case args of
               [c, t, f] \<Rightarrow> bindE (eval input vars (Suc depth) c k) (\<lambda>(v, k).
                 eval input vars (Suc depth) (if v \<noteq> 0 then t else f) k)
             | _ \<Rightarrow> throw ''select requires condition, true expression, false expression'')
          else if op = ''byte'' \<or> op = ''not'' then
            (case args of
               [x] \<Rightarrow> bindE (eval input vars (Suc depth) x k) (\<lambda>(a, k).
                 if op = ''not'' then Inr (NOT a, k)
                 else if unat a \<ge> length input then throw ''Calculation byte index outside the source slice''
                 else Inr (ucast (input ! unat a), k))
             | _ \<Rightarrow> throw ''Unary calculation expression requires one operand'')
          else
            (case args of
               [x, y] \<Rightarrow> bindE (eval input vars (Suc depth) x k) (\<lambda>(a, k).
                 bindE (eval input vars (Suc depth) y k) (\<lambda>(b, k).
                 bindE (calc_binary op a b) (\<lambda>v. Inr (v, k))))
             | _ \<Rightarrow> throw ''Binary calculation expression requires two operands'')
      | _ \<Rightarrow> throw ''Expected a calculation expression array'')"
  by pat_completeness auto

termination eval
  by (relation "measure (\<lambda>(input, vars, depth, e, k). 17 - depth)") auto

declare eval.simps [simp del]

section \<open>Programs\<close>

record calc_state =
  c_vars :: vars
  c_left :: nat
  c_out :: string

definition calc_budget :: nat where "calc_budget = 100000"

text \<open>The names a program may use: those of the initial variables, then those it assigns.\<close>

definition add_initial :: "string \<times> json \<Rightarrow> vars \<Rightarrow> vars res" where
  "add_initial = (\<lambda>(key, v) vars.
     throw_if (\<not> calc_name key) ''Invalid or reserved calculation variable''
       (bindE (calc_integer v) (\<lambda>w. Inr (smap_put key w vars))))"

definition add_target :: "json \<Rightarrow> string list \<Rightarrow> string list res" where
  "add_target statement names =
     bindE (check_keys statement [''set'', ''value'']) (\<lambda>_.
     bindE (jstr_at ''set'' statement) (\<lambda>key.
       throw_if (\<not> calc_name key) ''Invalid or reserved calculation variable''
         (bindE (jat ''value'' statement) (\<lambda>_. Inr (sset_insert key names)))))"

definition assign :: "u8 list \<Rightarrow> json \<Rightarrow> vars \<times> nat \<Rightarrow> (vars \<times> nat) res" where
  "assign input statement = (\<lambda>(vars, k).
     bindE (jat ''value'' statement) (\<lambda>e.
     bindE (eval input vars 0 e k) (\<lambda>(v, k).
     bindE (jstr_at ''set'' statement) (\<lambda>key. Inr (smap_put key v vars, k)))))"

text \<open>One iteration: the counter, the assignments in order, then the emitted byte.\<close>

definition iterate_once :: "u8 list \<Rightarrow> json \<Rightarrow> json list \<Rightarrow> nat \<Rightarrow> calc_state \<Rightarrow> calc_state res" where
  "iterate_once input r body i s =
     bindE (foldE (assign input) body (smap_put ''i'' (word_of_nat i) (c_vars s), c_left s)) (\<lambda>(vars, k).
     bindE (jat ''emit'' r) (\<lambda>e.
     bindE (eval input vars 0 e k) (\<lambda>(b, k).
       throw_if (b > 255) ''Calculation output must be a byte; explicitly mask wider results''
         (Inr \<lparr>c_vars = vars, c_left = k, c_out = c_out s @ [char_of (unat b)]\<rparr>))))"

definition calc_input :: "string \<Rightarrow> u8 list res" where
  "calc_input hex =
     (if hex = [] \<or> length hex > 2048 \<or> \<not> even_hex hex
      then throw ''Calculation requires bounded native hex bytes''
      else Inr (bytes_of (unhex hex)))"

definition calc_setup :: "json \<Rightarrow> u8 list \<Rightarrow> (vars \<times> json list) res" where
  "calc_setup r input =
     bindE (jvalue ''variables'' (jobj []) r) (\<lambda>initial.
     bindE (jvalue ''body'' (JArr []) r) (\<lambda>body.
     throw_if (\<not> is_object initial \<or> jsize initial > 16 \<or> \<not> is_array body \<or> jsize body > 32)
       ''Calculation permits 16 variables and 32 assignments'' (
     bindE (foldE add_initial (entries initial) []) (\<lambda>vars.
     bindE (foldE add_target (elems body) (map fst vars)) (\<lambda>names.
     throw_if (length names > 16) ''Calculation variable budget exhausted''
       (Inr (smap_put ''n'' (word_of_nat (length input)) vars, elems body)))))))"

definition printable :: "string \<Rightarrow> bool" where
  "printable s = list_all (\<lambda>c. 32 \<le> ord c \<and> ord c \<le> 126) s"

definition calc_result :: "nat \<Rightarrow> calc_state \<Rightarrow> json" where
  "calc_result iterations s =
     (let vars = smap_del ''n'' (smap_del ''i'' (c_vars s));
          result = jobj [(''hex'', JStr (to_hex (c_out s))), (''iterations'', jnat iterations),
            (''variables'', JObj (map (\<lambda>(key, v). (key, JUInt (ucast v))) vars)),
            (''expression_steps'', jnat (calc_budget - c_left s))]
      in if printable (c_out s) then jput ''ascii'' (JStr (c_out s)) result else result)"

definition calc_run :: "json \<Rightarrow> string \<Rightarrow> json res" where
  "calc_run r hex =
     bindE (dump_size r) (\<lambda>n.
     throw_if (n > 16384) ''Calculation program exceeds 16 KiB'' (
     bindE (calc_input hex) (\<lambda>input.
     bindE (bound r ''iterations'' (length input) 256) (\<lambda>iterations.
     throw_if (iterations = 0) ''Calculation requires at least one iteration'' (
     bindE (calc_setup r input) (\<lambda>(vars, body).
     bindE (foldE (iterate_once input r body) [0..<iterations]
              \<lparr>c_vars = vars, c_left = calc_budget, c_out = []\<rparr>) (\<lambda>s.
       Inr (calc_result iterations s))))))))"

text \<open>The calculation on a page of the component: what is recorded names the program and the slice.\<close>

definition harness_calculation :: "loader \<Rightarrow> store \<Rightarrow> json \<Rightarrow> json \<Rightarrow> json res" where
  "harness_calculation xair st component request =
     bindE (check_keys request [''project'', ''source'', ''iterations'', ''variables'', ''body'', ''emit'']) (\<lambda>_.
     bindE (jat ''source'' request) (\<lambda>source_request.
     bindE (check_keys source_request [''offset'', ''address'', ''max_bytes'', ''raw_sha256'']) (\<lambda>_.
     bindE (jat ''project'' request) (\<lambda>project.
     bindE (jset ''project'' project source_request) (\<lambda>source_request.
     bindE (harness_artifact_page xair st component source_request 1024) (\<lambda>source.
     bindE (jstr_at ''hex'' source) (\<lambda>hex.
     bindE (calc_run request hex) (\<lambda>result.
     bindE (jat ''artifact_sha256'' source) (\<lambda>sha.
     bindE (dump request) (\<lambda>program.
       let described = jput ''pointer'' (JStr ''/calculation'') (jput ''source_verified'' (JBool True)
             (jput ''trust'' (JStr ''Exact finite calculation under model-declared expressions, not proof of target semantics, accepted input, or runtime behavior'')
             (jput ''program_sha256'' (JStr (sha256_text program))
             (jput ''artifact_sha256'' sha
             (jput ''source'' (jerase ''trust'' (jerase ''hex'' source))
             (jput ''status'' (JStr ''evaluated'')
             (jput ''schema'' (JStr ''indago.calculation.v1'') result)))))))
       in bindE (dump described) (\<lambda>t. Inr (jput ''raw_sha256'' (JStr (sha256_text t)) described))))))))))))"

section \<open>The step budget\<close>

lemma one_operand: "(case xs of [x] \<Rightarrow> f x | _ \<Rightarrow> throw m) = Inr y \<Longrightarrow> \<exists>x. xs = [x] \<and> f x = Inr y"
  by (auto split: list.splits)

lemma two_operands: "(case xs of [x, z] \<Rightarrow> f x z | _ \<Rightarrow> throw m) = Inr y \<Longrightarrow> \<exists>x z. xs = [x, z] \<and> f x z = Inr y"
  by (auto split: list.splits)

lemma three_operands:
  "(case xs of [x, z, w] \<Rightarrow> f x z w | _ \<Rightarrow> throw m) = Inr y \<Longrightarrow> \<exists>x z w. xs = [x, z, w] \<and> f x z w = Inr y"
  by (auto split: list.splits)

text \<open>An evaluation that returns has used at least one step.\<close>

lemma eval_steps: "eval input vars depth e k = Inr (v, k') \<Longrightarrow> k' < k"
proof (induction "17 - depth" arbitrary: depth e k v k')
  case 0
  then show ?case by (simp add: eval.simps)
next
  case (Suc n)
  have IH: "k2 < k1" if "eval input vars (Suc depth) e' k1 = Inr (w, k2)" for e' k1 w k2
    by (rule Suc.hyps(1) [OF _ that]) (use Suc.hyps(2) in simp)
  note step = Suc.prems [unfolded eval.simps [of input vars depth e k] Let_def]
  have live: "depth \<le> 16" "0 < k"
    using step by (auto split: if_splits)
  consider (number) "is_number_integer e" | (name) key where "e = JStr key"
    | (call) op args where "e = JArr (JStr op # args)" | (other) "\<not> is_number_integer e"
      "\<forall>key. e \<noteq> JStr key" "\<forall>op args. e \<noteq> JArr (JStr op # args)"
    by blast
  then show ?case
  proof cases
    case number
    then show ?thesis using step live by auto
  next
    case name
    then show ?thesis using step live by (auto split: option.splits)
  next
    case other
    then show ?thesis using step live
      by (cases e) (auto split: list.splits json.splits)
  next
    case call
    then have r: "(if op = ''select'' then
            (case args of
               [c, t, f] \<Rightarrow> bindE (eval input vars (Suc depth) c (k - 1)) (\<lambda>(v, k).
                 eval input vars (Suc depth) (if v \<noteq> 0 then t else f) k)
             | _ \<Rightarrow> throw ''select requires condition, true expression, false expression'')
          else if op = ''byte'' \<or> op = ''not'' then
            (case args of
               [x] \<Rightarrow> bindE (eval input vars (Suc depth) x (k - 1)) (\<lambda>(a, k).
                 if op = ''not'' then Inr (NOT a, k)
                 else if unat a \<ge> length input then throw ''Calculation byte index outside the source slice''
                 else Inr (ucast (input ! unat a), k))
             | _ \<Rightarrow> throw ''Unary calculation expression requires one operand'')
          else
            (case args of
               [x, y] \<Rightarrow> bindE (eval input vars (Suc depth) x (k - 1)) (\<lambda>(a, k).
                 bindE (eval input vars (Suc depth) y k) (\<lambda>(b, k).
                 bindE (calc_binary op a b) (\<lambda>v. Inr (v, k))))
             | _ \<Rightarrow> throw ''Binary calculation expression requires two operands'')) = Inr (v, k')"
      using step live by simp
    show ?thesis
    proof (cases "op = ''select''")
      case True
      from three_operands [OF r [unfolded if_P [OF True]]] obtain c t f w k1 where
        "eval input vars (Suc depth) c (k - 1) = Inr (w, k1)"
        "eval input vars (Suc depth) (if w \<noteq> 0 then t else f) k1 = Inr (v, k')"
        by auto
      from IH [OF this(1)] IH [OF this(2)] live show ?thesis by simp
    next
      case select: False
      show ?thesis
      proof (cases "op = ''byte'' \<or> op = ''not''")
        case True
        from one_operand [OF r [unfolded if_not_P [OF select] if_P [OF True]]] obtain x w k1 where
          x: "eval input vars (Suc depth) x (k - 1) = Inr (w, k1)"
          and "(if op = ''not'' then Inr (NOT w, k1)
                 else if unat w \<ge> length input then throw ''Calculation byte index outside the source slice''
                 else Inr (ucast (input ! unat w), k1)) = Inr (v, k')"
          by (elim exE conjE bindE2_InrE) blast
        then have "k1 = k'" by (simp split: if_splits)
        with IH [OF x] live show ?thesis by simp
      next
        case False
        from two_operands [OF r [unfolded if_not_P [OF select] if_not_P [OF False]]] obtain x y a b k1 where
          "eval input vars (Suc depth) x (k - 1) = Inr (a, k1)" "eval input vars (Suc depth) y k1 = Inr (b, k')"
          by auto
        from IH [OF this(1)] IH [OF this(2)] live show ?thesis by simp
      qed
    qed
  qed
qed

lemma eval_budget: "eval input vars depth e k = Inr (v, k') \<Longrightarrow> depth \<le> 16 \<and> 0 < k"
  by (auto simp: eval.simps [of input vars depth e k] split: if_splits)

lemma assigns_steps: "foldE (assign input) body (vars, k) = Inr (vars', k') \<Longrightarrow> k' \<le> k"
proof (induction body arbitrary: vars k)
  case (Cons b body)
  then obtain vars1 k1 where "assign input b (vars, k) = Inr (vars1, k1)"
    and rest: "foldE (assign input) body (vars1, k1) = Inr (vars', k')"
    by auto
  then have "k1 < k"
    by (auto simp: assign_def dest: eval_steps)
  with Cons.IH [OF rest] show ?case by simp
qed simp

lemma iterate_once_Inr:
  assumes "iterate_once input r body i s = Inr s'"
  shows "c_left s' < c_left s" and "\<exists>b. c_out s' = c_out s @ [b]"
proof -
  from assms obtain vars k e b k' where
    "foldE (assign input) body (smap_put ''i'' (word_of_nat i) (c_vars s), c_left s) = Inr (vars, k)"
    "eval input vars 0 e k = Inr (b, k')"
    "s' = \<lparr>c_vars = vars, c_left = k', c_out = c_out s @ [char_of (unat b)]\<rparr>"
    by (auto simp: iterate_once_def)
  then show "c_left s' < c_left s" and "\<exists>b. c_out s' = c_out s @ [b]"
    using assigns_steps eval_steps by fastforce+
qed

lemma iterations_Inr:
  "foldE (iterate_once input r body) is s = Inr s' \<Longrightarrow>
     length (c_out s') = length (c_out s) + length is \<and> c_left s' + length is \<le> c_left s"
proof (induction "is" arbitrary: s)
  case (Cons i "is")
  then obtain s1 where s1: "iterate_once input r body i s = Inr s1"
    and rest: "foldE (iterate_once input r body) is s1 = Inr s'"
    by auto
  from Cons.IH [OF rest] iterate_once_Inr [OF s1] show ?case
    by auto
qed simp

lemma calc_run_Inr:
  assumes "calc_run r hex = Inr result"
  shows "\<exists>input iterations vars body s. calc_input hex = Inr input \<and> bound r ''iterations'' (length input) 256 = Inr iterations \<and>
    0 < iterations \<and> calc_setup r input = Inr (vars, body) \<and>
    foldE (iterate_once input r body) [0..<iterations] \<lparr>c_vars = vars, c_left = calc_budget, c_out = []\<rparr> = Inr s \<and>
    result = calc_result iterations s"
  using assms by (auto simp: calc_run_def)

lemma calc_input_Inr: "calc_input hex = Inr input \<Longrightarrow> length input = length hex div 2 \<and> 0 < length input \<and> length input \<le> 1024"
proof -
  assume i: "calc_input hex = Inr input"
  then have len: "length input = length hex div 2" and h: "hex \<noteq> []" "length hex \<le> 2048" "even (length hex)"
    by (auto simp: calc_input_def even_hex_def split: if_splits)
  from h(3) obtain n where "length hex = 2 * n"
    by (elim evenE)
  with len h show ?thesis by auto
qed

lemma calc_result_fields:
  "jat ''hex'' (calc_result n s) = Inr (JStr (to_hex (c_out s)))"
  "jat ''iterations'' (calc_result n s) = Inr (jnat n)"
  "jat ''expression_steps'' (calc_result n s) = Inr (jnat (calc_budget - c_left s))"
  by (simp_all add: calc_result_def Let_def json_simps)

section \<open>Properties\<close>

text \<open>
  C16. A calculation that returns is finite and accounted for: it emits exactly one byte per
  iteration (two hexadecimal digits each), it makes at least one iteration and at most the
  larger of 256 and the length of the slice, and the reported number of expression steps is
  between the number of iterations and the budget of 100000.
\<close>

theorem calculation_bounded:
  assumes "calc_run r hex = Inr result"
  shows "\<exists>iterations steps out. jat ''iterations'' result = Inr (jnat iterations) \<and>
    jat ''hex'' result = Inr (JStr out) \<and> even_hex out \<and> length out = 2 * iterations \<and>
    jat ''expression_steps'' result = Inr (jnat steps) \<and>
    0 < iterations \<and> iterations \<le> max 256 (length hex div 2) \<and> iterations \<le> steps \<and> steps \<le> 100000"
proof -
  from calc_run_Inr [OF assms] obtain input iterations vars body s where
    input: "calc_input hex = Inr input" and it: "bound r ''iterations'' (length input) 256 = Inr iterations"
    and pos: "0 < iterations" and run: "foldE (iterate_once input r body) [0..<iterations]
      \<lparr>c_vars = vars, c_left = calc_budget, c_out = []\<rparr> = Inr s"
    and result: "result = calc_result iterations s"
    by blast
  from iterations_Inr [OF run] have len: "length (c_out s) = iterations"
    and left: "c_left s + iterations \<le> calc_budget"
    by simp_all
  have "iterations \<le> max 256 (length input)"
    using bound_cases [OF it] by auto
  then show ?thesis
    using calc_result_fields [of iterations s] len left pos calc_input_Inr [OF input]
    by (intro exI [of _ iterations] exI [of _ "calc_budget - c_left s"] exI [of _ "to_hex (c_out s)"])
      (simp add: result calc_budget_def)
qed

text \<open>The concrete instance: exclusive or of every byte with a key.\<close>

definition demo_program :: json where
  "demo_program = jobj [(''variables'', jobj [(''key'', jnat 66)]),
     (''emit'', JArr [JStr ''xor'', JArr [JStr ''byte'', JStr ''i''], JStr ''key''])]"

lemma demo_eval:
  assumes "smap_get vars ''key'' = Some 66" and "smap_get vars ''i'' = Some w" and "unat w < length input" and "4 \<le> k"
  shows "eval input vars 0 (JArr [JStr ''xor'', JArr [JStr ''byte'', JStr ''i''], JStr ''key'']) k =
    Inr (ucast (input ! unat w) XOR 66, k - 4)"
  using assms by (simp add: eval.simps calc_binary_def)

lemma demo_program_parts:
  "dump_size demo_program = Inr 58"
  "jat ''emit'' demo_program = Inr (JArr [JStr ''xor'', JArr [JStr ''byte'', JStr ''i''], JStr ''key''])"
  "\<not> contains demo_program ''iterations''"
  by code_simp+

lemma demo_input: "calc_input ''2a2b'' = Inr [42, 43]"
proof -
  have "bytes_of (unhex ''2a2b'') = [42, 43]" "even_hex ''2a2b''"
    by code_simp+
  then show ?thesis by (simp add: calc_input_def)
qed

lemma demo_setup: "calc_setup demo_program [42, 43] = Inr ([(''key'', 66), (''n'', 2)], [])"
proof -
  have "jvalue ''variables'' (jobj []) demo_program = Inr (JObj [(''key'', JUInt 66)])"
    "jvalue ''body'' (JArr []) demo_program = Inr (JArr [])" "calc_name ''key''"
    by code_simp+
  then show ?thesis
    by (simp add: calc_setup_def add_initial_def calc_integer_def ji64_def ju64_def jword_def entries_def elems_def
        jsize_def jrange_def)
qed

lemma demo_calc:
  "calc_run demo_program ''2a2b'' =
     Inr (calc_result (Suc (Suc 0)) \<lparr>c_vars = [(''i'', 1), (''key'', 66), (''n'', 2)], c_left = 99992, c_out = [char_of (104::nat), char_of (105::nat)]\<rparr>)"
proof -
  have "[0..<Suc (Suc 0)] = [0, Suc 0]"
    by simp
  then show ?thesis
    using demo_program_parts demo_input demo_setup
    by (simp add: calc_run_def bound_def iterate_once_def demo_eval calc_budget_def)
qed

theorem calculation_bounded_witness:
  "\<exists>out. jat ''hex'' (calc_result (Suc (Suc 0)) \<lparr>c_vars = [(''i'', 1), (''key'', 66), (''n'', 2)], c_left = 99992, c_out = [char_of (104::nat), char_of (105::nat)]\<rparr>) =
     Inr (JStr out) \<and> even_hex out"
  using calculation_bounded [OF demo_calc] by blast

end
