(* ===== verification/Ind_Evidence.thy ===== *)
theory Ind_Evidence
  imports Ind_Scope Ind_Weight
begin

text \<open>
  Bounded pages of native evidence (\<^verbatim>\<open>src/harness_evidence_read.hpp\<close>): one verified, immutable
  JSON snapshot of a backend is read at a JSON pointer, as a window of a text, a window of the
  children of a container, or a scalar.  Every page fits a packet of 4096 bytes.
\<close>

definition snapshot_limit :: nat where "snapshot_limit = 16 * 1024 * 1024"

section \<open>Projections\<close>

definition project_field :: "string \<times> json \<Rightarrow> json \<Rightarrow> json res" where
  "project_field = (\<lambda>(k, v) fields.
     if \<not> is_primitive v then Inr fields
     else bindE (dump_size v) (\<lambda>n. if n > 512 then Inr fields
       else bindE (dump_size (jput k v fields)) (\<lambda>m.
         Inr (if m > 1024 then jerase k (jput k v fields) else jput k v fields))))"

definition evidence_scalar_projection :: "json \<Rightarrow> json res" where
  "evidence_scalar_projection r = (if \<not> is_object r then Inr (JObj []) else foldE project_field (entries r) (JObj []))"

section \<open>Texts\<close>

text \<open>The lambda \<^verbatim>\<open>boundary\<close>: move the end back to the start of a character.\<close>

fun char_boundary :: "string \<Rightarrow> nat \<Rightarrow> nat \<Rightarrow> nat" where
  "char_boundary t offset past =
     (if past > offset \<and> past < length t \<and> is_cont (t ! past) then char_boundary t offset (past - 1) else past)"

declare char_boundary.simps [simp del]

lemma char_boundary_le: "char_boundary t offset past \<le> past"
proof (induction t offset past rule: char_boundary.induct)
  case (1 t offset past)
  then show ?case by (subst char_boundary.simps) auto
qed

definition text_page :: "string \<Rightarrow> nat \<Rightarrow> nat \<Rightarrow> json \<Rightarrow> json" where
  "text_page t offset past page =
     jput ''partial'' (JBool (offset \<noteq> 0 \<or> past \<noteq> length t))
       (jput ''next_offset'' (if past < length t then jnat past else JNull)
       (jput ''text'' (JStr (take (past - offset) (drop offset t))) page))"

text \<open>Shrink the text by whole characters until the page fits the packet.\<close>

function fit_text :: "string \<Rightarrow> nat \<Rightarrow> nat \<Rightarrow> json \<Rightarrow> (nat \<times> json) res" where
  "fit_text t offset past page =
     bindE (dump_size (text_page t offset past page)) (\<lambda>n.
       if n \<le> 4096 then Inr (past, text_page t offset past page)
       else if past \<le> offset then throw ''Evidence pointer metadata exceeds packet budget''
       else fit_text t offset (char_boundary t offset (past - 1)) page)"
  by pat_completeness auto

termination
proof (relation "measure (\<lambda>(t, offset, past, page). past)")
  fix t :: string and offset past n :: nat and page :: json
  assume "\<not> past \<le> offset"
  then show "((t, offset, char_boundary t offset (past - 1), page), (t, offset, past, page)) \<in> measure (\<lambda>(t, offset, past, page). past)"
    using char_boundary_le[of t offset "past - 1"] by simp
qed simp

declare fit_text.simps [simp del]

definition text_evidence :: "string \<Rightarrow> nat \<Rightarrow> nat \<Rightarrow> json \<Rightarrow> json res" where
  "text_evidence t offset budget page =
     throw_if (offset > length t \<or> (offset < length t \<and> is_cont (t ! offset)))
       ''Text offset must be a UTF-8 byte boundary within the string'' (
     bindE (fit_text t offset (char_boundary t offset (min (length t) (offset + budget)))
         (jput ''total_bytes'' (jnat (length t)) (jput ''offset_unit'' (JStr ''utf8_bytes'') page))) (\<lambda>(past, page).
       throw_if (past = offset \<and> offset < length t) ''Evidence packet has no room for text; use a shorter pointer'' (Inr page)))"

section \<open>Containers\<close>

definition child_pointer :: "bool \<Rightarrow> string \<Rightarrow> string \<Rightarrow> json \<Rightarrow> json" where
  "child_pointer keyed pointer key item =
     (let p = pointer @ ''/'' @ escape_key key in
      if length p \<le> 1024
      then (if keyed then jput ''key'' (JStr key) (jput ''pointer'' (JStr p) item) else jput ''pointer'' (JStr p) item)
      else jput ''key_sha256'' (JStr (sha256_text key)) (jput ''pointer_omitted'' (JBool True) item))"

definition child_size :: "json \<Rightarrow> json \<Rightarrow> json" where
  "child_size v item = (case v of
       JStr s \<Rightarrow> jput ''total_bytes'' (jnat (length s)) item
     | _ \<Rightarrow> (if is_structured v then jput ''total_items'' (jnat (jsize v)) item else item))"

definition short_text :: "json \<Rightarrow> bool" where
  "short_text v = (case v of JStr s \<Rightarrow> length s \<le> 512 | _ \<Rightarrow> True)"

definition child_value :: "json \<Rightarrow> json \<Rightarrow> json res" where
  "child_value v item =
     bindE (if is_primitive v \<and> short_text v then bindE (dump_size v) (\<lambda>n. Inr (n \<le> 512)) else Inr False) (\<lambda>fits.
       Inr (if fits then jput ''value'' v item else jput ''value_omitted'' (JBool True) item))"

definition child_projection :: "string \<Rightarrow> json \<Rightarrow> json \<Rightarrow> json res" where
  "child_projection projection v item =
     (if projection = ''scalars'' \<and> is_object v then
        bindE (evidence_scalar_projection v) (\<lambda>fields.
          Inr (if jempty fields then item
               else jput ''value_omitted'' (JBool (\<not> jeq fields v))
                 (jput ''value_projection'' (JStr ''scalars'') (jput ''value'' fields item))))
      else Inr item)"

definition child_item :: "string \<Rightarrow> bool \<Rightarrow> string \<Rightarrow> nat \<Rightarrow> string \<times> json \<Rightarrow> json res" where
  "child_item projection keyed pointer cursor = (\<lambda>(key, v).
     bindE (child_value v (child_size v (child_pointer keyed pointer key
         (jobj [(''index'', jnat cursor), (''type'', JStr (type_name v))])))) (child_projection projection v))"

definition with_items :: "json list \<Rightarrow> json \<Rightarrow> json" where
  "with_items items page = jput ''items'' (JArr items) page"

text \<open>An item as it fits the page: whole, without its value, or not at all.\<close>

definition place_item :: "json \<Rightarrow> json list \<Rightarrow> json \<Rightarrow> json option res" where
  "place_item page items i =
     bindE (dump_size (with_items (items @ [i]) page)) (\<lambda>n.
       if n \<le> 3700 then Inr (Some i)
       else let j = jput ''value_omitted'' (JBool True) (jerase ''value'' i) in
         bindE (dump_size (with_items (items @ [j]) page)) (\<lambda>m. Inr (if m > 3700 then None else Some j)))"

text \<open>The loop over the children from the offset; an item that does not fit closes the page.\<close>

fun add_children ::
  "(nat \<Rightarrow> string \<times> json \<Rightarrow> json res) \<Rightarrow> nat \<Rightarrow> json \<Rightarrow> (string \<times> json) list \<Rightarrow> nat \<Rightarrow> json list \<Rightarrow> (nat \<times> json list) res" where
  "add_children item limit page [] cursor items = Inr (cursor, items)"
| "add_children item limit page (c # cs) cursor items =
     (if length items \<ge> limit then Inr (cursor, items)
      else bindE (item cursor c) (\<lambda>i. bindE (place_item page items i) (\<lambda>placed.
        case placed of None \<Rightarrow> Inr (cursor, items)
        | Some j \<Rightarrow> add_children item limit page cs (Suc cursor) (items @ [j]))))"

text \<open>The children of a container with their keys; the key of an array element is its index.\<close>

definition children :: "json \<Rightarrow> (string \<times> json) list" where
  "children v = (case v of JObj m \<Rightarrow> m | JArr xs \<Rightarrow> zip (map to_string [0..<length xs]) xs | _ \<Rightarrow> [])"

definition container_evidence :: "string \<Rightarrow> string \<Rightarrow> json \<Rightarrow> nat \<Rightarrow> nat \<Rightarrow> json \<Rightarrow> json res" where
  "container_evidence projection pointer v offset limit page =
     throw_if (offset > jsize v) ''Collection offset outside evidence value'' (
     let page = jput ''total_items'' (jnat (jsize v)) (jput ''representation'' (JStr ''child_descriptors'')
           (jput ''offset_unit'' (JStr ''items'') page)) in
     bindE (add_children (child_item projection (is_object v) pointer) limit page (drop offset (children v)) offset [])
       (\<lambda>(cursor, items).
       throw_if (cursor = offset \<and> cursor < jsize v) ''Evidence pointer metadata exceeds packet budget''
         (Inr (jput ''partial'' (JBool (offset \<noteq> 0 \<or> cursor \<noteq> jsize v))
           (jput ''next_offset'' (if cursor < jsize v then jnat cursor else JNull) (with_items items page))))))"

definition scalar_evidence :: "json \<Rightarrow> nat \<Rightarrow> json \<Rightarrow> json res" where
  "scalar_evidence v offset page =
     throw_if (offset \<noteq> 0) ''Scalar evidence has no offset''
       (Inr (jput ''next_offset'' JNull (jput ''partial'' (JBool False) (jput ''value'' v page))))"

section \<open>The page\<close>

record page_request =
  g_projection :: string
  g_id :: string
  g_pointer :: string
  g_offset :: nat
  g_limit :: nat
  g_budget :: nat

definition page_keys :: "string list" where
  "page_keys = [''project'', ''id'', ''pointer'', ''offset'', ''limit'', ''max_bytes'', ''raw_sha256'', ''projection'']"

definition page_fields :: "json \<Rightarrow> page_request res" where
  "page_fields r =
     bindE (check_keys r page_keys) (\<lambda>_.
     bindE (jvalue_str ''projection'' ''descriptors'' r) (\<lambda>projection.
     throw_if (projection \<noteq> ''descriptors'' \<and> projection \<noteq> ''scalars'')
       ''Evidence projection must be descriptors or scalars'' (
     bindE (jstr_at ''id'' r) (\<lambda>ev. bindE (check_identifier ev) (\<lambda>_.
     bindE (jvalue_str ''pointer'' [] r) (\<lambda>pointer.
     throw_if (length pointer > 1024) ''Evidence JSON pointer exceeds 1024 bytes'' (
     bindE (bound r ''offset'' 0 snapshot_limit) (\<lambda>offset.
     bindE (bound r ''limit'' 8 16) (\<lambda>limit.
     bindE (bound r ''max_bytes'' 1024 2048) (\<lambda>budget.
     throw_if (limit = 0 \<or> budget < 4) ''Evidence page requires positive limit and at least four text bytes'' (
       Inr \<lparr>g_projection = projection, g_id = ev, g_pointer = pointer, g_offset = offset, g_limit = limit,
            g_budget = budget\<rparr>)))))))))))"

text \<open>The evidence row of the investigation's project, with its metadata.\<close>

definition evidence_metadata :: "(string \<Rightarrow> json res) \<Rightarrow> store \<Rightarrow> json \<Rightarrow> json \<Rightarrow> string \<Rightarrow> (json \<times> string) res" where
  "evidence_metadata parse st iv r ev =
     bindE (jstr_at ''project'' iv) (\<lambda>p.
       case find (\<lambda>v. v_project v = p \<and> v_id v = ev) (evidence_rows st) of
         None \<Rightarrow> throw ''Unknown evidence''
       | Some row \<Rightarrow>
           bindE (parse (v_record row)) (\<lambda>metadata.
           bindE (jat ''artifact_sha256'' metadata) (\<lambda>artifact. bindE (harness_contains_artifact iv artifact) (\<lambda>inside.
           throw_if (\<not> inside) ''Evidence outside investigation scope'' (
           bindE (jat ''raw_sha256'' metadata) (\<lambda>raw.
           throw_if (raw \<noteq> JStr (v_sha row)) ''Evidence metadata hash mismatch'' (
           throw_if (contains r ''raw_sha256'' \<and> jat ''raw_sha256'' r \<noteq> Inr (JStr (v_sha row))) ''Stale evidence snapshot pin''
             (Inr (metadata, v_sha row)))))))))"

definition page_header :: "json \<Rightarrow> string \<Rightarrow> page_request \<Rightarrow> json res" where
  "page_header metadata raw g =
     bindE (jat ''artifact_sha256'' metadata) (\<lambda>artifact. bindE (jat ''revision'' metadata) (\<lambda>revision.
     bindE (jat ''producer'' metadata) (\<lambda>producer. bindE (jat ''status'' metadata) (\<lambda>status.
       Inr (jobj [(''schema'', JStr ''indago.evidence-page.v1''), (''id'', JStr (g_id g)), (''artifact_sha256'', artifact),
         (''raw_sha256'', JStr raw), (''revision'', revision), (''producer'', producer), (''native_status'', status),
         (''pointer'', JStr (g_pointer g)), (''offset'', jnat (g_offset g)), (''source_verified'', JBool False)])))))"

definition omitted_page :: "json \<Rightarrow> json" where
  "omitted_page page =
     jput ''diagnostic'' (JStr ''Native snapshot exceeds 16 MiB read bound; submit a narrower backend query'')
       (jput ''omitted'' (JBool True) (jput ''partial'' (JBool True) page))"

definition value_page :: "page_request \<Rightarrow> json \<Rightarrow> json \<Rightarrow> json res" where
  "value_page g v page =
     (case v of
        JStr t \<Rightarrow> text_evidence t (g_offset g) (g_budget g) page
      | _ \<Rightarrow> (if is_structured v then container_evidence (g_projection g) (g_pointer g) v (g_offset g) (g_limit g) page
              else scalar_evidence v (g_offset g) page))"

definition verified_page :: "(string \<Rightarrow> json res) \<Rightarrow> page_request \<Rightarrow> string \<Rightarrow> string \<Rightarrow> json \<Rightarrow> json res" where
  "verified_page parse g raw bytes page =
     throw_if (sha256_text bytes \<noteq> raw) ''Evidence integrity failure'' (
     bindE (parse bytes) (\<lambda>native.
     bindE (pointer_at (g_pointer g) native) (\<lambda>v.
     bindE (value_page g v (jput ''type'' (JStr (type_name v)) (jput ''source_verified'' (JBool True) page))) (\<lambda>page.
     bindE (dump_size page) (\<lambda>n. throw_if (n > 4096) ''Evidence page exceeds packet budget'' (Inr page))))))"

definition harness_evidence_page :: "(string \<Rightarrow> json res) \<Rightarrow> store \<Rightarrow> json \<Rightarrow> json \<Rightarrow> json res" where
  "harness_evidence_page parse st iv r =
     bindE (page_fields r) (\<lambda>g.
     bindE (evidence_metadata parse st iv r (g_id g)) (\<lambda>(metadata, raw).
     bindE (page_header metadata raw g) (\<lambda>page.
     bindE (object_path raw) (\<lambda>path.
       case objects st path of
         None \<Rightarrow> Inl Fs_Error
       | Some bytes \<Rightarrow>
           if length bytes > snapshot_limit then Inr (omitted_page page)
           else bindE (read_object (objects st) raw snapshot_limit) (\<lambda>bytes. verified_page parse g raw bytes page)))))"

section \<open>What a page holds\<close>

definition at_boundary :: "string \<Rightarrow> nat \<Rightarrow> bool" where
  "at_boundary t n = (n < length t \<longrightarrow> \<not> is_cont (t ! n))"

lemma char_boundary_ok:
  "offset \<le> past \<Longrightarrow> at_boundary t offset \<Longrightarrow> offset \<le> char_boundary t offset past \<and> at_boundary t (char_boundary t offset past)"
proof (induction t offset past rule: char_boundary.induct)
  case (1 t offset past)
  show ?case
  proof (cases "past > offset \<and> past < length t \<and> is_cont (t ! past)")
    case True
    then have "offset \<le> past - 1" by auto
    from "1.IH"[OF True this "1.prems"(2)] True show ?thesis by (simp add: char_boundary.simps[of t offset past])
  next
    case False
    moreover have "at_boundary t past"
      using False "1.prems" by (cases "past = offset") (auto simp: at_boundary_def)
    moreover have "char_boundary t offset past = past" using False by (subst char_boundary.simps) (simp only: if_False)
    ultimately show ?thesis using "1.prems"(1) by simp
  qed
qed

lemma fit_text_ok:
  assumes "fit_text t offset past page = Inr (e, out)" and "offset \<le> past" "at_boundary t past" "at_boundary t offset"
  shows "offset \<le> e \<and> e \<le> past \<and> at_boundary t e \<and> out = text_page t offset e page"
  using assms
proof (induction t offset past page rule: fit_text.induct)
  case (1 t offset past page)
  from "1.prems"(1) obtain n where n: "dump_size (text_page t offset past page) = Inr n"
    and step: "(if n \<le> 4096 then Inr (past, text_page t offset past page)
       else if past \<le> offset then throw ''Evidence pointer metadata exceeds packet budget''
       else fit_text t offset (char_boundary t offset (past - 1)) page) = Inr (e, out)"
    by (subst (asm) fit_text.simps) blast
  show ?case
  proof (cases "n \<le> 4096")
    case True
    then show ?thesis using step "1.prems" by auto
  next
    case False
    with step have p: "\<not> past \<le> offset" by (auto split: if_splits)
    then have "offset \<le> past - 1" by simp
    note b = char_boundary_ok[OF this "1.prems"(4)] char_boundary_le[of t offset "past - 1"]
    have "fit_text t offset (char_boundary t offset (past - 1)) page = Inr (e, out)"
      using step False p by simp
    from "1.IH"[OF n False p this] b "1.prems"(4) show ?thesis by auto
  qed
qed

lemma utf8_piece:
  assumes "utf8_ok t" "at_boundary t offset" "at_boundary t e" "offset \<le> e" "e \<le> length t"
  shows "utf8_ok (take (e - offset) (drop offset t))"
proof -
  have "utf8_ok (drop offset t)"
    using utf8_cut[of t offset] assms by (auto simp: at_boundary_def)
  then show ?thesis
    using utf8_cut[of "drop offset t" "e - offset"] assms by (auto simp: at_boundary_def)
qed

text \<open>A window of a text: it starts at the offset, ends between characters, and makes progress.\<close>

definition text_window :: "string \<Rightarrow> nat \<Rightarrow> json \<Rightarrow> bool" where
  "text_window t offset page =
     (\<exists>k. offset + k \<le> length t \<and> (k = 0 \<longrightarrow> offset = length t) \<and>
        jat ''text'' page = Inr (JStr (take k (drop offset t))) \<and> (utf8_ok t \<longrightarrow> utf8_ok (take k (drop offset t))) \<and>
        jat ''next_offset'' page = Inr (if offset + k < length t then jnat (offset + k) else JNull))"

lemma text_evidence_window:
  assumes "text_evidence t offset budget page = Inr out"
  shows "text_window t offset out"
proof -
  let ?past = "char_boundary t offset (min (length t) (offset + budget))"
  obtain e page' where off: "\<not> (offset > length t \<or> (offset < length t \<and> is_cont (t ! offset)))"
    and fit: "fit_text t offset ?past page' = Inr (e, out)" and e: "\<not> (e = offset \<and> offset < length t)"
    using assms unfolding text_evidence_def by (elim bindE_elims) auto
  have b: "at_boundary t offset" using off by (auto simp: at_boundary_def)
  have p: "offset \<le> ?past" "at_boundary t ?past" "?past \<le> length t"
    using char_boundary_ok[OF _ b, of "min (length t) (offset + budget)"] off
      char_boundary_le[of t offset "min (length t) (offset + budget)"] by auto
  note f = fit_text_ok[OF fit p(1,2) b]
  then have k: "offset + (e - offset) = e" "e \<le> length t" using p(3) by auto
  have "text_window t offset out"
    unfolding text_window_def
  proof (intro exI[of _ "e - offset"] conjI impI)
    show "utf8_ok (take (e - offset) (drop offset t))" if "utf8_ok t"
      using utf8_piece[OF that b] f k by simp
  qed (use f k e in \<open>auto simp: text_page_def smap_get_jput\<close>)
  then show ?thesis .
qed

text \<open>An item describes the child at its index; a value it carries is the child or its scalar fields.\<close>

definition describes :: "json \<Rightarrow> nat \<Rightarrow> json \<Rightarrow> bool" where
  "describes i cursor v =
     (is_object i \<and> smap_ok (entries i) \<and> jat ''index'' i = Inr (jnat cursor) \<and> jat ''type'' i = Inr (JStr (type_name v)) \<and>
      (\<forall>w. jat ''value'' i = Inr w \<longrightarrow> w = v \<or> evidence_scalar_projection v = Inr w))"

lemma describes_jput:
  assumes "describes i c v" and "k \<noteq> ''index''" "k \<noteq> ''type''" and "k = ''value'' \<longrightarrow> w = v \<or> evidence_scalar_projection v = Inr w"
  shows "describes (jput k w i) c v"
  using assms by (auto simp: describes_def smap_ok_jput jat_jput_obj simp del: jat_jput)

lemma describes_jerase:
  assumes "describes i c v"
  shows "describes (jerase ''value'' i) c v"
proof -
  obtain m where m: "i = JObj m" "smap_ok m" using assms by (cases i) (auto simp: describes_def entries_def)
  then show ?thesis
    using assms by (auto simp: describes_def jerase_def entries_def jat_JObj smap_get_del split: if_splits)
qed

lemma child_item_describes:
  assumes "child_item projection keyed pointer cursor (key, v) = Inr i"
  shows "describes i cursor v"
proof -
  have 0: "describes (jobj [(''index'', jnat cursor), (''type'', JStr (type_name v))]) cursor v"
    by (simp add: describes_def json_simps smap_ok_jobj)
  have 1: "describes (child_pointer keyed pointer key j) cursor v" if "describes j cursor v" for j
    using that by (auto simp: child_pointer_def Let_def intro!: describes_jput)
  have 2: "describes (child_size v j) cursor v" if "describes j cursor v" for j
    using that by (auto simp: child_size_def intro!: describes_jput split: json.split)
  have 3: "describes j' cursor v" if "child_value v j = Inr j'" "describes j cursor v" for j j'
    using that by (auto simp: child_value_def intro!: describes_jput)
  have 4: "describes j' cursor v" if "child_projection projection v j = Inr j'" "describes j cursor v" for j j'
    using that by (auto simp: child_projection_def intro!: describes_jput split: if_splits)
  from assms obtain j where "child_value v (child_size v (child_pointer keyed pointer key
      (jobj [(''index'', jnat cursor), (''type'', JStr (type_name v))]))) = Inr j" "child_projection projection v j = Inr i"
    by (auto simp: child_item_def)
  then show ?thesis using 0 1 2 3 4 by blast
qed

lemma add_children_tile:
  assumes "add_children item limit page cs cursor items = Inr (c', items')"
    and "\<And>n c i. item n c = Inr i \<Longrightarrow> describes i n (snd c)"
  shows "\<exists>new. items' = items @ new \<and> c' = cursor + length new \<and> length new \<le> length cs \<and>
    length items' \<le> max limit (length items) \<and> (\<forall>j < length new. describes (new ! j) (cursor + j) (snd (cs ! j)))"
  using assms(1)
proof (induction cs arbitrary: cursor items)
  case Nil
  then show ?case by auto
next
  case (Cons c cs)
  show ?case
  proof (cases "length items \<ge> limit")
    case True
    then show ?thesis using Cons.prems by auto
  next
    case False
    from Cons.prems False obtain i placed where i: "item cursor c = Inr i" and placed: "place_item page items i = Inr placed"
      and step: "(case placed of None \<Rightarrow> Inr (cursor, items)
        | Some j \<Rightarrow> add_children item limit page cs (Suc cursor) (items @ [j])) = Inr (c', items')"
      by auto
    have d: "describes j cursor (snd c)" if "placed = Some j" for j
      using placed that assms(2)[OF i] describes_jput[OF describes_jerase[OF assms(2)[OF i]], of "''value_omitted''"]
      by (auto simp: place_item_def Let_def split: if_splits)
    from step d consider "(c', items') = (cursor, items)"
      | j where "describes j cursor (snd c)" "add_children item limit page cs (Suc cursor) (items @ [j]) = Inr (c', items')"
      by (cases placed) auto
    then show ?thesis
    proof cases
      case 1
      then show ?thesis by auto
    next
      case (2 j)
      from Cons.IH[OF 2(2)] obtain new where new: "items' = items @ j # new" "c' = Suc cursor + length new" "length new \<le> length cs"
        "length items' \<le> max limit (Suc (length items))" "\<forall>k < length new. describes (new ! k) (Suc cursor + k) (snd (cs ! k))"
        by auto
      have "describes ((j # new) ! k) (cursor + k) (snd ((c # cs) ! k))" if "k < length (j # new)" for k
        using that new(5) 2(1) by (cases k) auto
      then show ?thesis using new False by (intro exI[of _ "j # new"]) auto
    qed
  qed
qed

text \<open>A window of a container: consecutive children from the offset, at most the limit, and progress.\<close>

definition items_window :: "json \<Rightarrow> nat \<Rightarrow> nat \<Rightarrow> json \<Rightarrow> bool" where
  "items_window v offset limit page =
     (\<exists>items. jat ''items'' page = Inr (JArr items) \<and> length items \<le> limit \<and> offset + length items \<le> jsize v \<and>
        (items = [] \<longrightarrow> offset = jsize v) \<and>
        (\<forall>j < length items. describes (items ! j) (offset + j) (snd (children v ! (offset + j)))) \<and>
        jat ''next_offset'' page = Inr (if offset + length items < jsize v then jnat (offset + length items) else JNull))"

lemma length_children: "is_structured v \<Longrightarrow> length (children v) = jsize v"
  by (cases v) (simp_all add: children_def jsize_def jrange_def is_structured_def)

lemma container_evidence_window:
  assumes "container_evidence projection pointer v offset limit page = Inr out" and "is_structured v"
  shows "items_window v offset limit out"
proof -
  obtain page' cursor items where off: "\<not> offset > jsize v"
    and add: "add_children (child_item projection (is_object v) pointer) limit page' (drop offset (children v)) offset [] = Inr (cursor, items)"
    and more: "\<not> (cursor = offset \<and> cursor < jsize v)"
    and out: "Inr (jput ''partial'' (JBool (offset \<noteq> 0 \<or> cursor \<noteq> jsize v))
      (jput ''next_offset'' (if cursor < jsize v then jnat cursor else JNull) (with_items items page'))) = (Inr out :: json res)"
    using assms(1) unfolding container_evidence_def Let_def by (elim bindE_elims) (rule that, assumption+)
  have item: "describes i n (snd c)" if "child_item projection (is_object v) pointer n c = Inr i" for n c i
    using that child_item_describes by (cases c) auto
  from add_children_tile[OF add item] obtain t: "cursor = offset + length items" "length items \<le> limit"
      "length items \<le> length (children v) - offset"
      "\<forall>j < length items. describes (items ! j) (offset + j) (snd (drop offset (children v) ! j))"
    by auto
  then show ?thesis
    using off more out length_children[OF assms(2)] unfolding items_window_def
    by (intro exI[of _ items]) (auto simp: with_items_def smap_get_jput)
qed

definition value_keys :: "string list" where
  "value_keys = [''text'', ''partial'', ''next_offset'', ''total_bytes'', ''offset_unit'', ''total_items'', ''representation'',
     ''items'', ''value'']"

lemma jat_jput_other: "k \<noteq> k' \<Longrightarrow> is_object j \<Longrightarrow> jat k (jput k' v j) = jat k j"
  by (simp add: jat_jput_obj del: jat_jput)

lemma fit_text_page: "fit_text t offset past page = Inr (e, out) \<Longrightarrow> out = text_page t offset e page"
proof (induction t offset past page rule: fit_text.induct)
  case (1 t offset past page)
  from "1.prems" obtain n where "dump_size (text_page t offset past page) = Inr n"
    and "(if n \<le> 4096 then Inr (past, text_page t offset past page)
       else if past \<le> offset then throw ''Evidence pointer metadata exceeds packet budget''
       else fit_text t offset (char_boundary t offset (past - 1)) page) = Inr (e, out)"
    by (subst (asm) fit_text.simps) blast
  then show ?case using "1.IH" by (auto split: if_splits)
qed

lemma value_page_keeps:
  assumes "value_page g v page = Inr out" and "k \<notin> set value_keys" "is_object page"
  shows "jat k out = jat k page"
proof -
  consider t where "v = JStr t" "text_evidence t (g_offset g) (g_budget g) page = Inr out"
    | "container_evidence (g_projection g) (g_pointer g) v (g_offset g) (g_limit g) page = Inr out"
    | "scalar_evidence v (g_offset g) page = Inr out"
    using assms(1) by (auto simp: value_page_def split: json.splits if_splits)
  then show ?thesis
  proof cases
    case 1
    then show ?thesis
      using assms(2,3) by (auto simp: text_evidence_def text_page_def jat_jput_other value_keys_def dest!: fit_text_page simp del: jat_jput)
  next
    case 2
    then show ?thesis
      using assms(2,3) by (auto simp: container_evidence_def Let_def with_items_def jat_jput_other value_keys_def simp del: jat_jput)
  next
    case 3
    then show ?thesis
      using assms(2,3) by (auto simp: scalar_evidence_def jat_jput_other value_keys_def simp del: jat_jput)
  qed
qed

definition exact_page :: "json \<Rightarrow> nat \<Rightarrow> nat \<Rightarrow> json \<Rightarrow> bool" where
  "exact_page v offset limit page =
     (case v of
        JStr t \<Rightarrow> text_window t offset page
      | _ \<Rightarrow> (if is_structured v then items_window v offset limit page else offset = 0 \<and> jat ''value'' page = Inr v))"

lemma value_page_exact:
  assumes "value_page g v page = Inr out"
  shows "exact_page v (g_offset g) (g_limit g) out"
  using assms text_evidence_window container_evidence_window
  by (cases v) (auto simp: value_page_def exact_page_def scalar_evidence_def smap_get_jput is_structured_def)

lemma page_fields_read:
  assumes "page_fields r = Inr g"
  shows "jvalue_str ''pointer'' [] r = Inr (g_pointer g)" "bound r ''offset'' 0 snapshot_limit = Inr (g_offset g)"
    "bound r ''limit'' 8 16 = Inr (g_limit g)"
  using assms unfolding page_fields_def by (elim bindE_elims; auto)+

text \<open>
  C31. A page whose source is verified comes from the snapshot in the content store that has the hash the
  page names, of an artifact in the scope of the investigation; it fits a packet of 4096 bytes, and it shows
  exactly what is at the pointer: a piece of the text between characters, consecutive children of the
  container, or the scalar. A window that is not the last one is not empty and names where the
  next one starts.
\<close>

theorem evidence_page_exact:
  assumes "harness_evidence_page parse st iv r = Inr page" and "jat ''source_verified'' page = Inr (JBool True)"
  shows "\<exists>raw bytes native v pointer offset limit artifact n. jat ''raw_sha256'' page = Inr (JStr raw) \<and>
    object_at (objects st) raw = Some bytes \<and> sha256_text bytes = raw \<and> parse bytes = Inr native \<and>
    jvalue_str ''pointer'' [] r = Inr pointer \<and> pointer_at pointer native = Inr v \<and>
    bound r ''offset'' 0 snapshot_limit = Inr offset \<and> bound r ''limit'' 8 16 = Inr limit \<and>
    jat ''artifact_sha256'' page = Inr artifact \<and> harness_contains_artifact iv artifact = Inr True \<and>
    dump_size page = Inr n \<and> n \<le> 4096 \<and> exact_page v offset limit page"
proof -
  obtain g metadata raw header path where g: "page_fields r = Inr g"
    and m: "evidence_metadata parse st iv r (g_id g) = Inr (metadata, raw)" and h: "page_header metadata raw g = Inr header"
    and path: "object_path raw = Inr path"
    and rest: "(case objects st path of None \<Rightarrow> Inl Fs_Error
       | Some bytes \<Rightarrow>
           if length bytes > snapshot_limit then Inr (omitted_page header)
           else bindE (read_object (objects st) raw snapshot_limit) (\<lambda>bytes. verified_page parse g raw bytes header)) = Inr page"
    using assms(1) unfolding harness_evidence_page_def by (elim bindE_elims) (rule that, assumption+)
  have fields: "is_object header" "jat ''raw_sha256'' header = Inr (JStr raw)" "jat ''artifact_sha256'' header = jat ''artifact_sha256'' metadata"
    "jat ''source_verified'' header = Inr (JBool False)"
    using h by (auto simp: page_header_def json_simps)
  have scope: "\<exists>artifact. jat ''artifact_sha256'' metadata = Inr artifact \<and> harness_contains_artifact iv artifact = Inr True"
    using m unfolding evidence_metadata_def by (auto split: option.splits)
  have "jat ''source_verified'' (omitted_page header) = Inr (JBool False)"
    using fields(1,4) by (simp add: omitted_page_def jat_jput_other del: jat_jput)
  then obtain bytes where "read_object (objects st) raw snapshot_limit = Inr bytes" and v: "verified_page parse g raw bytes header = Inr page"
    using rest assms(2) by (auto split: option.splits if_splits)
  then have bytes: "object_at (objects st) raw = Some bytes"
    using read_file_ok path by (auto simp: read_object_def object_at_def)
  obtain native v n where sha: "sha256_text bytes = raw" and native: "parse bytes = Inr native" "pointer_at (g_pointer g) native = Inr v"
    and page: "value_page g v (jput ''type'' (JStr (type_name v)) (jput ''source_verified'' (JBool True) header)) = Inr page"
    and n: "dump_size page = Inr n" "n \<le> 4096"
    using v unfolding verified_page_def by (elim bindE_elims) auto
  have "jat k page = jat k header" if "k \<in> {''raw_sha256'', ''artifact_sha256''}" for k
    using value_page_keeps[OF page, of k] that fields(1) by (auto simp: value_keys_def jat_jput_other simp del: jat_jput)
  then show ?thesis
    using fields scope bytes sha native n page_fields_read[OF g] value_page_exact[OF page] by auto
qed

text \<open>One text snapshot, in the scope of a one-component investigation.\<close>

definition demo_metadata :: json where
  "demo_metadata = jobj [(''artifact_sha256'', JStr ''a''), (''raw_sha256'', JStr (sha256_text ''B'')), (''revision'', JStr ''r''),
     (''producer'', JStr ''xair''), (''status'', JStr ''completed'')]"

definition demo_snapshot :: "string \<Rightarrow> json res" where
  "demo_snapshot t = (if t = ''M'' then Inr demo_metadata else if t = ''B'' then Inr (JStr ''hello'') else Inl Json_Parse)"

definition demo_evidence :: store where
  "demo_evidence = \<lparr>projects = [], targets = [], jobs = [], idems = [], leases = [], job_log = [], derivation_rows = [],
     evidence_rows = [\<lparr>v_id = ''e1'', v_project = ''p'', v_job = ''j'', v_revision = ''r'', v_backend = ''xair'',
       v_sha = sha256_text ''B'', v_status = ''completed'', v_record = ''M'', v_created = ''t''\<rparr>],
     function_rows = [], view_rows = [], cancels = [],
     objects = [[''objects'', ''sha256'', take 2 (sha256_text ''B''), drop 2 (sha256_text ''B'')] \<mapsto> ''B'']\<rparr>"

definition demo_scope :: json where
  "demo_scope = jobj [(''project'', JStr ''p''), (''target_id'', JStr ''t''), (''artifact_sha256'', JStr ''a'')]"

definition demo_header :: json where
  "demo_header = jobj [(''schema'', JStr ''indago.evidence-page.v1''), (''id'', JStr ''e1''),
    (''artifact_sha256'', JStr ''a''), (''raw_sha256'', JStr (sha256_text ''B'')), (''revision'', JStr ''r''), (''producer'', JStr ''xair''),
    (''native_status'', JStr ''completed''), (''pointer'', JStr []), (''offset'', jnat 0), (''source_verified'', JBool False)]"

definition demo_page :: json where
  "demo_page = text_page ''hello'' 0 5
     (jput ''total_bytes'' (jnat 5) (jput ''offset_unit'' (JStr ''utf8_bytes'')
       (jput ''type'' (JStr ''string'') (jput ''source_verified'' (JBool True) demo_header))))"

lemma fit_text_whole:
  assumes "dumpable (text_page t offset past page)" "json_weight (text_page t offset past page) \<le> 4096"
  shows "fit_text t offset past page = Inr (past, text_page t offset past page)"
  using dump_size_le[OF assms] by (subst fit_text.simps) auto

lemma demo_page_fits: "dumpable demo_page" "json_weight demo_page \<le> 4096"
proof -
  have "json_weight demo_header \<le> 2500"
    by (simp add: demo_header_def json_simps)
  then show "json_weight demo_page \<le> 4096"
    unfolding demo_page_def text_page_def
    by - (rule order_trans, (rule weight_jput_le is_object_jput)+, simp add: demo_header_def, assumption, simp)
  show "dumpable demo_page"
    unfolding demo_page_def text_page_def demo_header_def by (auto intro!: dumpable_jput dumpable_jobj simp: utf8_ok_ascii)
qed

lemma demo_page_fields:
  "jat ''source_verified'' demo_page = Inr (JBool True)" "jat ''text'' demo_page = Inr (JStr ''hello'')"
  "jat ''partial'' demo_page = Inr (JBool False)" "jat ''raw_sha256'' demo_page = Inr (JStr (sha256_text ''B''))"
  "jat ''revision'' demo_page = Inr (JStr ''r'')" "jat ''native_status'' demo_page = Inr (JStr ''completed'')"
  by (simp_all add: demo_page_def text_page_def demo_header_def smap_get_jput smap_get_jobj)

text \<open>Any request for the text as a whole gets this page.\<close>

lemma demo_page_read:
  assumes "page_fields r = Inr \<lparr>g_projection = ''descriptors'', g_id = ''e1'', g_pointer = [], g_offset = 0, g_limit = 8, g_budget = b\<rparr>"
    and "5 \<le> b" and "\<not> (contains r ''raw_sha256'' \<and> jat ''raw_sha256'' r \<noteq> Inr (JStr (sha256_text ''B'')))"
  shows "harness_evidence_page demo_snapshot demo_evidence demo_scope r = Inr demo_page"
proof -
  let ?g = "\<lparr>g_projection = ''descriptors'', g_id = ''e1'', g_pointer = [], g_offset = 0, g_limit = 8, g_budget = b\<rparr>"
  let ?raw = "sha256_text ''B''"
  have m: "evidence_metadata demo_snapshot demo_evidence demo_scope r ''e1'' = Inr (demo_metadata, ?raw)"
    using assms(3) by (simp add: evidence_metadata_def demo_scope_def demo_evidence_def demo_snapshot_def
        demo_metadata_def json_simps jstr_at_def harness_contains_artifact_def harness_components_def root_component_def)
  have h: "page_header demo_metadata ?raw ?g = Inr demo_header"
    by (simp add: page_header_def demo_metadata_def demo_header_def json_simps)
  let ?p0 = "jput ''type'' (JStr ''string'') (jput ''source_verified'' (JBool True) demo_header)"
  let ?p1 = "jput ''total_bytes'' (jnat 5) (jput ''offset_unit'' (JStr ''utf8_bytes'') ?p0)"
  have fit: "fit_text ''hello'' 0 5 ?p1 = Inr (5, demo_page)"
    using fit_text_whole[of "''hello''" 0 5 ?p1] demo_page_fits by (simp add: demo_page_def)
  have "char_boundary ''hello'' 0 (min (length ''hello'') (0 + b)) = 5"
    using assms(2) by (simp add: char_boundary.simps)
  then have "text_evidence ''hello'' 0 b ?p0 = Inr demo_page"
    unfolding text_evidence_def using fit by (simp add: is_cont_def)
  then have "verified_page demo_snapshot ?g ?raw ''B'' demo_header = Inr demo_page"
    using dump_size_le[OF demo_page_fits]
    by (auto simp: verified_page_def demo_snapshot_def pointer_at_def pointer_tokens_def value_page_def type_name_def)
  moreover have "read_object (objects demo_evidence) ?raw snapshot_limit = Inr ''B''"
    by (simp add: read_object_def read_file_def demo_evidence_def snapshot_limit_def)
  ultimately show ?thesis
    using m h by (simp add: harness_evidence_page_def assms(1)) (simp add: demo_evidence_def snapshot_limit_def)
qed

theorem evidence_page_exact_witness:
  "\<exists>page bytes. harness_evidence_page demo_snapshot demo_evidence demo_scope (jobj [(''id'', JStr ''e1'')]) = Inr page \<and>
     jat ''raw_sha256'' page = Inr (JStr (sha256_text bytes)) \<and> (\<exists>native. demo_snapshot bytes = Inr native)"
proof -
  have "harness_evidence_page demo_snapshot demo_evidence demo_scope (jobj [(''id'', JStr ''e1'')]) = Inr demo_page"
    by (rule demo_page_read[of _ 1024])
      (simp_all add: page_fields_def page_keys_def json_simps check_keys_jobj[THEN iffD2] jvalue_str_def
      jstr_at_def check_identifier_def identifier_chars_def bound_def)
  from evidence_page_exact[OF this demo_page_fields(1)] this show ?thesis by blast
qed

end
