(* ===== verification/Ind_Image.thy ===== *)
theory Ind_Image
  imports Ind_Artifact Ind_Number
begin

text \<open>
  What is read from the headers of a module image before it is run (\<^verbatim>\<open>src/runtime_image.cpp\<close>).  A file is
  the string of its bytes, which does not change while it is read; that it can be opened is not part of the model.
\<close>

unbundle bit_operations_syntax

section \<open>Module images\<close>

text \<open>Little-endian integers of at most eight bytes, at a checked offset.\<close>

fun le_bytes :: "string \<Rightarrow> u64" where
  "le_bytes [] = 0"
| "le_bytes (c # s) = word_of_nat (ord c) OR push_bit 8 (le_bytes s)"

definition read_le :: "string \<Rightarrow> u64 \<Rightarrow> nat \<Rightarrow> u64 res" where
  "read_le bytes pos n =
     (if unat pos > length bytes \<or> n > length bytes - unat pos then throw ''truncated image header''
      else Inr (le_bytes (take n (drop (unat pos) bytes))))"

definition arch_name :: "bool \<Rightarrow> string" where
  "arch_name x64 = (if x64 then ''x64'' else ''x86'')"

definition pe_image :: "string \<Rightarrow> json res" where
  "pe_image bytes =
     bindE (read_le bytes 0x3c 4) (\<lambda>pe.
     bindE (read_le bytes pe 4) (\<lambda>signature. throw_if (signature \<noteq> 0x4550) ''invalid PE signature'' (
     bindE (read_le bytes (pe + 4) 2) (\<lambda>machine.
       let opt = pe + 24 in
     bindE (read_le bytes opt 2) (\<lambda>magic.
       let x64 = (magic = 0x20b) in
     throw_if (machine \<noteq> 0x14c \<and> machine \<noteq> 0x8664) ''runtime supports only x86/x64'' (
     bindE (read_le bytes (opt + (if x64 then 24 else 28)) (if x64 then 8 else 4)) (\<lambda>base.
     bindE (read_le bytes (opt + 16) 4) (\<lambda>entry.
     bindE (read_le bytes (opt + 56) 4) (\<lambda>sz.
       Inr (jobj [(''format'', JStr ''PE''), (''arch'', JStr (arch_name x64)), (''image_base'', JStr (hex_address base)),
         (''entry'', JStr (hex_address (base + entry))), (''image_size'', JUInt sz), (''segments'', JArr [])]))))))))))"

record load_segment =
  sg_va :: u64
  sg_offset :: u64
  sg_size :: u64

record elf_state =
  es_base :: u64
  es_end :: u64
  es_segments :: "load_segment list"

text \<open>One program header; only load segments count.\<close>

definition elf_header :: "string \<Rightarrow> bool \<Rightarrow> u64 \<Rightarrow> u64 \<Rightarrow> nat \<Rightarrow> elf_state \<Rightarrow> elf_state res" where
  "elf_header bytes x64 ph stride i s =
     (let p = ph + word_of_nat i * stride; width = (if x64 then 8 else 4) in
      bindE (read_le bytes p 4) (\<lambda>kind.
        if kind \<noteq> 1 then Inr s
        else
      bindE (read_le bytes (p + (if x64 then 8 else 4)) width) (\<lambda>off.
      bindE (read_le bytes (p + (if x64 then 16 else 8)) width) (\<lambda>va.
      bindE (read_le bytes (p + (if x64 then 40 else 20)) width) (\<lambda>mem.
      throw_if (mem > (- 1) - va) ''ELF range overflow''
        (Inr \<lparr>es_base = min (es_base s) (va AND NOT 4095), es_end = max (es_end s) (va + mem),
              es_segments = es_segments s @ [\<lparr>sg_va = va, sg_offset = off, sg_size = mem\<rparr>]\<rparr>))))))"

definition elf_layout :: "string \<Rightarrow> bool \<Rightarrow> u64 \<Rightarrow> u64 \<Rightarrow> nat \<Rightarrow> elf_state res" where
  "elf_layout bytes x64 ph stride n =
     bindE (foldE (elf_header bytes x64 ph stride) [0..<n] \<lparr>es_base = - 1, es_end = 0, es_segments = []\<rparr>) (\<lambda>s.
       throw_if (es_base s = - 1) ''ELF has no load segments'' (Inr s))"

definition segment_json :: "load_segment \<Rightarrow> json" where
  "segment_json s = jobj [(''va'', JStr (hex_address (sg_va s))), (''file_offset'', JStr (hex_address (sg_offset s))),
     (''mem_size'', JUInt (sg_size s))]"

definition elf_image :: "string \<Rightarrow> json res" where
  "elf_image bytes =
     bindE (read_le bytes 4 1) (\<lambda>cls.
     bindE (if cls = 1 \<or> cls = 2 then bindE (read_le bytes 5 1) (\<lambda>d. Inr (d = 1)) else Inr False) (\<lambda>known.
     throw_if (\<not> known) ''unsupported ELF encoding'' (
     bindE (read_le bytes 18 2) (\<lambda>machine.
     throw_if (machine \<noteq> 3 \<and> machine \<noteq> 62) ''runtime supports only x86/x64'' (
       let x64 = (cls = 2) in
     bindE (read_le bytes (if x64 then 32 else 28) (if x64 then 8 else 4)) (\<lambda>ph.
     bindE (read_le bytes (if x64 then 56 else 44) 2) (\<lambda>n.
     bindE (read_le bytes (if x64 then 54 else 42) 2) (\<lambda>stride.
     throw_if (n > 1024) ''ELF header budget exceeded'' (
     bindE (elf_layout bytes x64 ph stride (unat n)) (\<lambda>s.
     bindE (read_le bytes 24 (if x64 then 8 else 4)) (\<lambda>entry.
       Inr (jobj [(''format'', JStr ''ELF''), (''arch'', JStr (arch_name x64)), (''image_base'', JStr (hex_address (es_base s))),
         (''entry'', JStr (hex_address entry)), (''image_size'', JUInt (es_end s - es_base s)),
         (''segments'', JArr (map segment_json (es_segments s)))]))))))))))))"

definition runtime_image :: "string \<Rightarrow> json res" where
  "runtime_image bytes =
     bindE (read_le bytes 0 4) (\<lambda>magic.
       if magic AND 65535 = 0x5a4d then pe_image bytes
       else if magic = 0x464c457f then elf_image bytes
       else throw ''runtime requires PE or ELF'')"

section \<open>The layout of an ELF image\<close>

lemma unat_all_ones: "unat (- 1 :: u64) = 2 ^ 64 - 1"
  by (simp add: unsigned_minus_1_eq_mask mask_eq_exp_minus_1)

lemma unat_difference: "b \<le> a \<Longrightarrow> unat (a - b) = unat a - unat (b :: u64)"
  by (simp add: unat_sub)

lemma no_wrap:
  assumes "\<not> mem > (- 1) - va"
  shows "unat (va :: u64) + unat mem < 2 ^ 64" and "unat (va + mem) = unat va + unat mem"
proof -
  have "va \<le> - 1" by (rule word_order.extremum)
  have "unat mem \<le> unat ((- 1) - va)" using assms by (simp add: word_le_nat_alt not_less)
  also have "\<dots> = 2 ^ 64 - 1 - unat va"
    using unat_difference[OF \<open>va \<le> - 1\<close>] by (simp only: unat_all_ones)
  finally have "unat mem \<le> 18446744073709551615 - unat va" by simp
  moreover have "unat va \<le> 18446744073709551615" by (rule unat_u64_le)
  ultimately have "unat va + unat mem < 18446744073709551616" by linarith
  then show "unat va + unat mem < 2 ^ 64" by simp
  then show "unat (va + mem) = unat va + unat mem" by (simp add: unat_add_lem[THEN iffD1])
qed

lemma page_base: "(va :: u64) AND NOT 4095 \<le> va" "(va AND NOT 4095) AND 4095 = (0 :: u64)"
  by (simp_all add: word_and_le2 word_and_le1 and.assoc)

section \<open>What the bytes say of the load segments\<close>

text \<open>
  The specification reads the file as plain numbers: the program header \<open>i\<close> is the \<open>i\<close>-th entry of the table
  at \<^verbatim>\<open>e_phoff\<close>, its type 1 is \<^verbatim>\<open>PT_LOAD\<close>, and its virtual address, its place in the file and its size in
  memory (\<^verbatim>\<open>p_vaddr\<close>, \<^verbatim>\<open>p_offset\<close>, \<^verbatim>\<open>p_memsz\<close>) stand where the two classes of ELF files put them.
\<close>

fun le_number :: "string \<Rightarrow> nat" where
  "le_number [] = 0"
| "le_number (c # s) = ord c + 256 * le_number s"

definition number_at :: "string \<Rightarrow> nat \<Rightarrow> nat \<Rightarrow> nat" where
  "number_at bytes p n = le_number (take n (drop p bytes))"

definition elf64 :: "string \<Rightarrow> bool" where
  "elf64 bytes = (number_at bytes 4 1 = 2)"

definition program_headers :: "string \<Rightarrow> nat" where
  "program_headers bytes = number_at bytes (if elf64 bytes then 56 else 44) 2"

definition program_header :: "string \<Rightarrow> nat \<Rightarrow> nat" where
  "program_header bytes i =
     (if elf64 bytes then number_at bytes 32 8 + i * number_at bytes 54 2
      else number_at bytes 28 4 + i * number_at bytes 42 2)"

definition loaded :: "string \<Rightarrow> nat \<Rightarrow> bool" where
  "loaded bytes i = (number_at bytes (program_header bytes i) 4 = 1)"

definition header_field :: "string \<Rightarrow> nat \<Rightarrow> nat \<Rightarrow> nat \<Rightarrow> nat" where
  "header_field bytes i wide narrow =
     (if elf64 bytes then number_at bytes (program_header bytes i + wide) 8
      else number_at bytes (program_header bytes i + narrow) 4)"

definition header_offset :: "string \<Rightarrow> nat \<Rightarrow> nat" where
  "header_offset bytes i = header_field bytes i 8 4"

definition header_va :: "string \<Rightarrow> nat \<Rightarrow> nat" where
  "header_va bytes i = header_field bytes i 16 8"

definition header_mem :: "string \<Rightarrow> nat \<Rightarrow> nat" where
  "header_mem bytes i = header_field bytes i 40 20"

text \<open>The words the code reads are those numbers.\<close>

lemma le_number_less: "le_number s < 256 ^ length s"
proof (induction s)
  case (Cons c s)
  have step: "a < 256 \<Longrightarrow> n < m \<Longrightarrow> a + 256 * n < 256 * m" for a n m :: nat by linarith
  show ?case unfolding le_number.simps length_Cons power_Suc
    by (rule step) (simp, rule Cons)
qed simp

lemma unat_le_bytes: "length s \<le> 8 \<Longrightarrow> unat (le_bytes s) = le_number s"
proof (induction s)
  case (Cons c s)
  have small: "le_number s < 72057594037927936"
    using le_number_less[of s] power_increasing[of "length s" 7 "256::nat"] Cons.prems by simp
  have u: "unat (le_bytes s) = le_number s" using Cons by simp
  have c: "unat (word_of_nat (ord c) :: u64) = ord c"
    by (simp add: unsigned_of_nat take_bit_nat_eq_self less_trans[of _ 256])
  have "take_bit 8 (word_of_nat (ord c) :: u64) = word_of_nat (ord c)"
    by (simp add: take_bit_of_nat take_bit_nat_eq_self)
  then have "bit (word_of_nat (ord c) :: u64) k \<Longrightarrow> k < 8" for k
    by (metis bit_take_bit_iff)
  then have "(word_of_nat (ord c) :: u64) AND push_bit 8 (le_bytes s) = 0"
    by (intro bit_word_eqI) (auto simp: bit_and_iff bit_push_bit_iff dest: leD)
  then have sum: "le_bytes (c # s) = word_of_nat (ord c) + push_bit 8 (le_bytes s)"
    by (simp add: disjunctive_add_eq_or)
  have shift: "unat (push_bit 8 (le_bytes s)) = 256 * le_number s"
    using small u by (simp add: push_bit_eq_mult unat_mult_lem[THEN iffD1] mult.commute)
  have step: "a < 256 \<Longrightarrow> n < 72057594037927936 \<Longrightarrow> a + 256 * n < 2 ^ 64" for a n :: nat by simp
  have "ord c + 256 * le_number s < 2 ^ 64" by (rule step[OF _ small]) simp
  then show ?case unfolding sum using c shift
    by (simp add: unat_add_lem[THEN iffD1])
qed simp


lemma read_le_number:
  assumes "read_le bytes pos n = Inr v" and "n \<le> 8"
  shows "unat v = number_at bytes (unat pos) n" and "unat pos + n \<le> length bytes"
  using assms unat_le_bytes[of "take n (drop (unat pos) bytes)"]
  by (auto simp: read_le_def number_at_def split: if_splits)

lemma page_remainder: "unat ((va :: u64) AND 4095) = unat va mod 4096"
proof -
  have "(4095 :: u64) = mask 12" by (simp add: mask_eq_exp_minus_1)
  then have "va AND 4095 = take_bit 12 va" by (simp only: take_bit_eq_mask)
  then have "unat (va AND 4095) = take_bit 12 (unat va)" by (simp only: unsigned_take_bit_eq)
  then show ?thesis by (simp add: take_bit_eq_mod)
qed

lemma page_floor: "unat ((va :: u64) AND NOT 4095) = unat va - unat va mod 4096"
proof -
  have split: "(a AND NOT m) AND (a AND m) = 0" "(a AND NOT m) OR (a AND m) = a" for a m :: u64
    by (rule bit_word_eqI, auto simp: bit_and_iff bit_or_iff bit_not_iff)+
  have "va AND NOT 4095 = va - (va AND 4095)"
    using disjunctive_add_eq_or[OF split(1)[of va 4095]] unfolding split(2) by (simp only: eq_diff_eq)
  moreover have "va AND 4095 \<le> va" by (rule word_and_le2)
  ultimately show ?thesis by (simp only: unat_difference page_remainder)
qed

text \<open>One step of the loop, over those numbers; a file of fewer than \<open>2 ^ 63\<close> bytes leaves no room for an offset to wrap.\<close>

lemma elf_header_numbers:
  assumes step: "elf_header bytes (elf64 bytes) ph stride i s = Inr s'" and small: "length bytes < 2 ^ 63"
    and p: "unat (ph + word_of_nat i * stride) = program_header bytes i"
  shows "if loaded bytes i then
      (\<exists>g. es_segments s' = es_segments s @ [g] \<and> unat (sg_va g) = header_va bytes i \<and> unat (sg_offset g) = header_offset bytes i \<and>
        unat (sg_size g) = header_mem bytes i) \<and>
      unat (es_base s') = min (unat (es_base s)) (header_va bytes i - header_va bytes i mod 4096) \<and>
      unat (es_end s') = max (unat (es_end s)) (header_va bytes i + header_mem bytes i)
    else s' = s"
proof -
  let ?p = "ph + word_of_nat i * stride" and ?x = "elf64 bytes"
  let ?w = "if ?x then 8 else 4 :: nat"
  obtain kind where kind: "read_le bytes ?p 4 = Inr kind" and
    rest: "(if kind \<noteq> 1 then Inr s else
      bindE (read_le bytes (?p + (if ?x then 8 else 4)) ?w) (\<lambda>off.
      bindE (read_le bytes (?p + (if ?x then 16 else 8)) ?w) (\<lambda>va.
      bindE (read_le bytes (?p + (if ?x then 40 else 20)) ?w) (\<lambda>mem.
      throw_if (mem > (- 1) - va) ''ELF range overflow''
        (Inr \<lparr>es_base = min (es_base s) (va AND NOT 4095), es_end = max (es_end s) (va + mem),
              es_segments = es_segments s @ [\<lparr>sg_va = va, sg_offset = off, sg_size = mem\<rparr>]\<rparr>))))) = Inr s'"
    using step unfolding elf_header_def Let_def by (elim bindE_InrE)
  have k: "kind = 1 \<longleftrightarrow> loaded bytes i" and fit: "unat ?p + 4 \<le> length bytes"
    using read_le_number[OF kind] p by (simp_all add: loaded_def word_unat_eq_iff)
  have at': "unat (?p + d) = program_header bytes i + unat d" if "unat d \<le> 40" for d :: u64
    using that fit small p by (subst unat_add_lem[THEN iffD1]) simp_all
  show ?thesis
  proof (cases "kind = 1")
    case True
    with rest obtain off va mem where r: "read_le bytes (?p + (if ?x then 8 else 4)) ?w = Inr off"
      "read_le bytes (?p + (if ?x then 16 else 8)) ?w = Inr va" "read_le bytes (?p + (if ?x then 40 else 20)) ?w = Inr mem"
      and ok: "\<not> mem > (- 1) - va"
      and s': "s' = \<lparr>es_base = min (es_base s) (va AND NOT 4095), es_end = max (es_end s) (va + mem),
         es_segments = es_segments s @ [\<lparr>sg_va = va, sg_offset = off, sg_size = mem\<rparr>]\<rparr>"
      by (auto elim!: bindE_InrE split: if_splits)
    have n: "unat off = header_offset bytes i" "unat va = header_va bytes i" "unat mem = header_mem bytes i"
      using r[THEN read_le_number(1)] by (auto simp: at' header_offset_def header_va_def header_mem_def header_field_def)
    have mm: "unat (min a b) = min (unat a) (unat b)" "unat (max a b) = max (unat a) (unat b)" for a b :: u64
      by (simp_all add: min_def max_def word_le_nat_alt)
    show ?thesis using True k n no_wrap(2)[OF ok] by (simp add: s' mm page_floor page_floor[simplified])
  qed (use rest k in simp)
qed


definition header_end :: "string \<Rightarrow> nat \<Rightarrow> nat" where
  "header_end bytes i = header_va bytes i + header_mem bytes i"

definition header_page :: "string \<Rightarrow> nat \<Rightarrow> nat" where
  "header_page bytes i = header_va bytes i - header_va bytes i mod 4096"

lemma elf_fold:
  assumes "foldE (elf_header bytes (elf64 bytes) ph stride) is s = Inr s'" and "length bytes < 2 ^ 63"
    and "\<forall>i \<in> set is. unat (ph + word_of_nat i * stride) = program_header bytes i"
  shows "map (\<lambda>g. (unat (sg_va g), unat (sg_offset g), unat (sg_size g))) (es_segments s') =
      map (\<lambda>g. (unat (sg_va g), unat (sg_offset g), unat (sg_size g))) (es_segments s) @
      map (\<lambda>i. (header_va bytes i, header_offset bytes i, header_mem bytes i)) (filter (loaded bytes) is) \<and>
    unat (es_base s') = Min (insert (unat (es_base s)) (header_page bytes ` set (filter (loaded bytes) is))) \<and>
    unat (es_end s') = Max (insert (unat (es_end s)) (header_end bytes ` set (filter (loaded bytes) is)))"
  using assms
proof (induction "is" arbitrary: s)
  case (Cons i "is")
  then obtain s1 where s1: "elf_header bytes (elf64 bytes) ph stride i s = Inr s1"
    "foldE (elf_header bytes (elf64 bytes) ph stride) is s1 = Inr s'" by auto
  have one: "unat (ph + word_of_nat i * stride) = program_header bytes i" using Cons.prems(3) by simp
  have "\<forall>i \<in> set is. unat (ph + word_of_nat i * stride) = program_header bytes i" using Cons.prems(3) by simp
  note IH = Cons.IH[OF s1(2) Cons.prems(2) this]
  note step = elf_header_numbers[OF s1(1) Cons.prems(2) one, folded header_end_def header_page_def]
  have fin: "finite (header_page bytes ` set (filter (loaded bytes) is))" "finite (header_end bytes ` set (filter (loaded bytes) is))"
    by simp_all
  show ?case
  proof (cases "loaded bytes i")
    case True
    with step obtain g where g: "es_segments s1 = es_segments s @ [g]" "unat (sg_va g) = header_va bytes i"
      "unat (sg_offset g) = header_offset bytes i" "unat (sg_size g) = header_mem bytes i"
      "unat (es_base s1) = min (unat (es_base s)) (header_page bytes i)"
      "unat (es_end s1) = max (unat (es_end s)) (header_end bytes i)" by auto
    have "Min (insert (min a b) A) = Min (insert a (insert b A))" "Max (insert (max a b) A) = Max (insert a (insert b A))"
      if "finite A" for a b :: nat and A
      using that by (cases "A = {}"; simp add: min.assoc max.assoc)+
    with IH g fin True show ?thesis by simp
  qed (use IH step in simp)
qed simp


lemma elf_image_layout:
  assumes "elf_image bytes = Inr j" and small: "length bytes < 2 ^ 63"
  obtains ph stride s where
    "foldE (elf_header bytes (elf64 bytes) ph stride) [0..<program_headers bytes] \<lparr>es_base = - 1, es_end = 0, es_segments = []\<rparr> = Inr s"
    and "es_base s \<noteq> - 1"
    and "\<forall>i \<in> set [0..<program_headers bytes]. unat (ph + word_of_nat i * stride) = program_header bytes i"
    and "jat ''image_base'' j = Inr (JStr (hex_address (es_base s)))" and "jat ''image_size'' j = Inr (JUInt (es_end s - es_base s))"
    and "jat ''segments'' j = Inr (JArr (map segment_json (es_segments s)))"
proof -
  obtain cls n ph stride s where cls: "read_le bytes 4 1 = Inr cls"
    and n: "read_le bytes (if cls = 2 then 56 else 44) 2 = Inr n"
    and ph: "read_le bytes (if cls = 2 then 32 else 28) (if cls = 2 then 8 else 4) = Inr ph"
    and stride: "read_le bytes (if cls = 2 then 54 else 42) 2 = Inr stride" and few: "\<not> n > 1024"
    and s: "elf_layout bytes (cls = 2) ph stride (unat n) = Inr s"
    and j: "jat ''image_base'' j = Inr (JStr (hex_address (es_base s)))" "jat ''image_size'' j = Inr (JUInt (es_end s - es_base s))"
      "jat ''segments'' j = Inr (JArr (map segment_json (es_segments s)))"
    using assms(1) unfolding elf_image_def Let_def by (auto simp: json_simps elim!: bindE_InrE)
  have x: "(cls = 2) = elf64 bytes" using read_le_number(1)[OF cls] by (simp add: elf64_def word_unat_eq_iff)
  have N: "unat n = program_headers bytes" "unat stride = number_at bytes (if elf64 bytes then 54 else 42) 2"
    "unat ph = (if elf64 bytes then number_at bytes 32 8 else number_at bytes 28 4)"
    using read_le_number(1)[OF n] read_le_number(1)[OF stride] read_le_number(1)[OF ph] x
    by (auto simp: program_headers_def split: if_splits)
  have run: "foldE (elf_header bytes (elf64 bytes) ph stride) [0..<program_headers bytes]
      \<lparr>es_base = - 1, es_end = 0, es_segments = []\<rparr> = Inr s" "es_base s \<noteq> - 1"
    using s by (auto simp: elf_layout_def x N)
  have "unat (ph + word_of_nat i * stride) = program_header bytes i" if i: "i < program_headers bytes" for i
  proof -
    have "[0..<program_headers bytes] = 0 # [1..<program_headers bytes]" using i by (simp add: upt_conv_Cons)
    with run(1) obtain s1 where "elf_header bytes (elf64 bytes) ph stride 0 \<lparr>es_base = - 1, es_end = 0, es_segments = []\<rparr> = Inr s1"
      by auto
    then obtain kind where "read_le bytes (ph + word_of_nat 0 * stride) 4 = Inr kind"
      unfolding elf_header_def Let_def by (elim bindE_InrE)
    from read_le_number(2)[OF this] small have "unat ph < 2 ^ 63" by simp
    moreover have st: "unat stride < 65536"
      using le_number_less[of "take 2 (drop (if elf64 bytes then 54 else 42) bytes)"] power_increasing[of "length (take 2 (drop (if elf64 bytes then 54 else 42) bytes))" 2 "256 :: nat"]
      by (auto simp: N number_at_def)
    have i': "i < 1024" using i few by (simp add: N(1)[symmetric] word_le_nat_alt not_less)
    have "i * unat stride \<le> 1024 * 65536" using i' st by (intro mult_le_mono) simp_all
    moreover have "unat (word_of_nat i :: u64) = i" using i' by (simp add: unsigned_of_nat take_bit_nat_eq_self)
    ultimately show ?thesis
      by (simp add: unat_add_lem[THEN iffD1] unat_mult_lem[THEN iffD1] program_header_def N split: if_splits)
  qed
  then show ?thesis using run j by (intro that[of ph stride s]) simp_all
qed


section \<open>Properties\<close>

text \<open>
  C40. The image of an ELF module (of fewer than \<open>2 ^ 63\<close> bytes) is what its program headers say: the reported
  segments are, in order, exactly the load headers of the table with their addresses, file offsets and sizes in
  memory; there is at least one; the base is the page of the lowest segment that any load header names, and the
  base plus the image size is the highest end, as numbers that do not wrap around, so that the image covers every
  load segment of the file.
\<close>

theorem elf_image_covers_segments:
  assumes "runtime_image bytes = Inr j" and "jat ''format'' j = Inr (JStr ''ELF'')" and "length bytes < 2 ^ 63"
  shows "\<exists>base sz segments. jat ''image_base'' j = Inr (JStr (hex_address base)) \<and> jat ''image_size'' j = Inr (JUInt sz) \<and>
    jat ''segments'' j = Inr (JArr (map segment_json segments)) \<and> segments \<noteq> [] \<and>
    map (\<lambda>g. (unat (sg_va g), unat (sg_offset g), unat (sg_size g))) segments =
      map (\<lambda>i. (header_va bytes i, header_offset bytes i, header_mem bytes i)) (filter (loaded bytes) [0..<program_headers bytes]) \<and>
    base AND 4095 = 0 \<and> unat base + unat sz < 2 ^ 64 \<and>
    (\<forall>i < program_headers bytes. loaded bytes i \<longrightarrow>
      unat base \<le> header_va bytes i \<and> header_va bytes i + header_mem bytes i \<le> unat base + unat sz) \<and>
    (\<exists>i < program_headers bytes. loaded bytes i \<and> unat base = header_va bytes i - header_va bytes i mod 4096) \<and>
    (\<exists>i < program_headers bytes. loaded bytes i \<and> unat base + unat sz = header_va bytes i + header_mem bytes i)"
proof -
  let ?L = "set (filter (loaded bytes) [0..<program_headers bytes])"
  have "elf_image bytes = Inr j"
    using assms unfolding runtime_image_def pe_image_def Let_def by (auto simp: json_simps split: if_splits elim!: bindE_InrE)
  from elf_image_layout[OF this assms(3)] obtain ph stride s where
    run: "foldE (elf_header bytes (elf64 bytes) ph stride) [0..<program_headers bytes] \<lparr>es_base = - 1, es_end = 0, es_segments = []\<rparr> = Inr s"
    and some: "es_base s \<noteq> - 1"
    and at': "\<forall>i \<in> set [0..<program_headers bytes]. unat (ph + word_of_nat i * stride) = program_header bytes i"
    and j: "jat ''image_base'' j = Inr (JStr (hex_address (es_base s)))" "jat ''image_size'' j = Inr (JUInt (es_end s - es_base s))"
      "jat ''segments'' j = Inr (JArr (map segment_json (es_segments s)))"
    by metis
  note f = elf_fold[OF run assms(3) at', simplified elf_state.simps list.map append_Nil]
  have "unat (es_base s) \<noteq> unat (- 1 :: u64)" using some by (simp only: word_unat_eq_iff not_False_eq_True)
  with f have low: "unat (es_base s) \<in> header_page bytes ` ?L" "\<forall>i \<in> ?L. unat (es_base s) \<le> header_page bytes i"
    using Min_in[of "insert (unat (- 1 :: u64)) (header_page bytes ` ?L)"] by auto
  then have ne: "header_end bytes ` ?L \<noteq> {}" "finite (header_end bytes ` ?L)" by auto
  have "unat (es_end s) = Max (header_end bytes ` ?L)" using f Max_insert[OF ne(2,1), of 0] by simp
  then have high: "unat (es_end s) \<in> header_end bytes ` ?L" "\<forall>i \<in> ?L. header_end bytes i \<le> unat (es_end s)"
    using Max_in[OF ne(2,1)] Max_ge[OF ne(2)] by simp_all
  have le: "header_page bytes i \<le> header_va bytes i" "header_va bytes i \<le> header_end bytes i" for i
    by (simp_all add: header_page_def header_end_def)
  obtain i where "i \<in> ?L" using low(1) by blast
  with low(2) high(2) le[of i] have "unat (es_base s) \<le> unat (es_end s)" by fastforce
  then have sum: "unat (es_base s) + unat (es_end s - es_base s) = unat (es_end s)"
    using unat_difference[of "es_base s" "es_end s"] by (simp add: word_le_nat_alt)
  have page: "es_base s AND 4095 = 0"
    using low(1) page_remainder[of "es_base s"] by (auto simp: header_page_def unat_eq_zero minus_mod_eq_mult_div)
  have ne': "es_segments s \<noteq> []" using f low(1) by (auto simp del: set_filter)
  have lowest: "\<exists>i < program_headers bytes. loaded bytes i \<and> unat (es_base s) = header_va bytes i - header_va bytes i mod 4096"
    using low(1) by (auto simp: header_page_def)
  have highest: "\<exists>i < program_headers bytes. loaded bytes i \<and>
      unat (es_base s) + unat (es_end s - es_base s) = header_va bytes i + header_mem bytes i"
    using high(1) unfolding sum by (auto simp: header_end_def)
  have cover: "unat (es_base s) \<le> header_va bytes i \<and>
      header_va bytes i + header_mem bytes i \<le> unat (es_base s) + unat (es_end s - es_base s)"
    if "i < program_headers bytes" "loaded bytes i" for i
    using low(2) high(2) le(1)[of i] that unfolding sum header_end_def[symmetric] by (auto intro: order_trans)
  have bound: "unat (es_base s) + unat (es_end s - es_base s) < 2 ^ 64" unfolding sum by (rule order.strict_trans1[OF unat_u64_le]) simp
  have cover': "\<forall>i < program_headers bytes. loaded bytes i \<longrightarrow> unat (es_base s) \<le> header_va bytes i \<and>
      header_va bytes i + header_mem bytes i \<le> unat (es_base s) + unat (es_end s - es_base s)" using cover by simp
  show ?thesis
    by (rule exI[of _ "es_base s"], rule exI[of _ "es_end s - es_base s"], rule exI[of _ "es_segments s"])
      (intro conjI j ne' page bound cover' lowest highest f[THEN conjunct1])
qed

text \<open>A module of two load segments and, between them, a header that is not one.\<close>

definition demo_elf :: string where
  "demo_elf = [
    CHR 0x7F, CHR 0x45, CHR 0x4C, CHR 0x46, CHR 0x01, CHR 0x01, CHR 0x00, CHR 0x00, CHR 0x00, CHR 0x00, CHR 0x00, CHR 0x00,
    CHR 0x00, CHR 0x00, CHR 0x00, CHR 0x00, CHR 0x00, CHR 0x00, CHR 0x03, CHR 0x00, CHR 0x00, CHR 0x00, CHR 0x00, CHR 0x00,
    CHR 0x00, CHR 0x00, CHR 0x00, CHR 0x00, CHR 0x30, CHR 0x00, CHR 0x00, CHR 0x00, CHR 0x00, CHR 0x00, CHR 0x00, CHR 0x00,
    CHR 0x00, CHR 0x00, CHR 0x00, CHR 0x00, CHR 0x00, CHR 0x00, CHR 0x18, CHR 0x00, CHR 0x03, CHR 0x00, CHR 0x00, CHR 0x00,
    CHR 0x01, CHR 0x00, CHR 0x00, CHR 0x00, CHR 0x00, CHR 0x00, CHR 0x00, CHR 0x00, CHR 0x00, CHR 0x34, CHR 0x12, CHR 0x00,
    CHR 0x00, CHR 0x00, CHR 0x00, CHR 0x00, CHR 0x00, CHR 0x00, CHR 0x00, CHR 0x00, CHR 0x00, CHR 0x10, CHR 0x00, CHR 0x00,
    CHR 0x04, CHR 0x00, CHR 0x00, CHR 0x00, CHR 0x00, CHR 0x00, CHR 0x00, CHR 0x00, CHR 0x00, CHR 0x00, CHR 0x00, CHR 0x00,
    CHR 0x00, CHR 0x00, CHR 0x00, CHR 0x00, CHR 0x00, CHR 0x00, CHR 0x00, CHR 0x00, CHR 0x00, CHR 0x00, CHR 0x00, CHR 0x00,
    CHR 0x01, CHR 0x00, CHR 0x00, CHR 0x00, CHR 0x00, CHR 0x10, CHR 0x00, CHR 0x00, CHR 0x00, CHR 0x50, CHR 0x12, CHR 0x00,
    CHR 0x00, CHR 0x00, CHR 0x00, CHR 0x00, CHR 0x20, CHR 0x00, CHR 0x00, CHR 0x00, CHR 0x34, CHR 0x12, CHR 0x00, CHR 0x00]"

lemma demo_elf_reads:
  "read_le demo_elf 0 4 = Inr 0x464c457f" "read_le demo_elf 4 1 = Inr 1" "read_le demo_elf 5 1 = Inr 1"
  "read_le demo_elf 18 2 = Inr 3" "read_le demo_elf 28 4 = Inr 48" "read_le demo_elf 44 2 = Inr 3" "read_le demo_elf 42 2 = Inr 24"
  "read_le demo_elf 48 4 = Inr 1" "read_le demo_elf 52 4 = Inr 0" "read_le demo_elf 56 4 = Inr 0x123400"
  "read_le demo_elf 68 4 = Inr 0x1000" "read_le demo_elf 72 4 = Inr 4" "read_le demo_elf 96 4 = Inr 1"
  "read_le demo_elf 100 4 = Inr 0x1000" "read_le demo_elf 104 4 = Inr 0x125000" "read_le demo_elf 116 4 = Inr 0x1234"
  "read_le demo_elf 24 4 = Inr 0"
  by (simp_all add: demo_elf_def read_le_def)

lemma demo_elf_layout:
  "elf_layout demo_elf False 48 24 3 = Inr \<lparr>es_base = 0x123000, es_end = 0x126234,
     es_segments = [\<lparr>sg_va = 0x123400, sg_offset = 0, sg_size = 0x1000\<rparr>, \<lparr>sg_va = 0x125000, sg_offset = 0x1000, sg_size = 0x1234\<rparr>]\<rparr>"
  by (simp add: elf_layout_def elf_header_def demo_elf_reads upt_rec)

theorem elf_image_covers_segments_witness:
  "\<exists>j base sz. runtime_image demo_elf = Inr j \<and> jat ''image_base'' j = Inr (JStr (hex_address base)) \<and>
     jat ''image_size'' j = Inr (JUInt sz) \<and> unat base \<le> 0x123400 \<and> 0x125000 + 0x1234 \<le> unat base + unat sz"
proof -
  obtain j where j: "runtime_image demo_elf = Inr j" "jat ''format'' j = Inr (JStr ''ELF'')"
    by (simp add: runtime_image_def elf_image_def demo_elf_reads demo_elf_reads[unfolded One_nat_def] demo_elf_layout[simplified] Let_def json_simps)
  have n: "program_headers demo_elf = 3" "loaded demo_elf 0" "loaded demo_elf 2" "header_va demo_elf 0 = 0x123400"
    "header_va demo_elf 2 = 0x125000" "header_mem demo_elf 2 = 0x1234"
    by (simp_all add: program_headers_def loaded_def header_va_def header_mem_def header_field_def program_header_def elf64_def
        number_at_def demo_elf_def)
  have "length demo_elf < 2 ^ 63" by (simp add: demo_elf_def)
  from elf_image_covers_segments[OF j this] obtain base sz where b: "jat ''image_base'' j = Inr (JStr (hex_address base))"
    "jat ''image_size'' j = Inr (JUInt sz)"
    and cover: "\<forall>i < program_headers demo_elf. loaded demo_elf i \<longrightarrow> unat base \<le> header_va demo_elf i \<and>
      header_va demo_elf i + header_mem demo_elf i \<le> unat base + unat sz" by metis
  have "unat base \<le> 0x123400" using cover n(1,2,4) by (metis zero_less_numeral)
  moreover have "0x125000 + 0x1234 \<le> unat base + unat sz" using cover[rule_format, of 2] n by simp
  ultimately show ?thesis using j(1) b by blast
qed

end
