(* ===== verification/Ind_Index.thy ===== *)
theory Ind_Index
  imports Ind_Scope
begin

text \<open>
  The bounded page of index descriptors (\<^verbatim>\<open>src/harness_index_read.hpp\<close>) and the reader of a credential file
  (\<^verbatim>\<open>src/model_credentials.hpp\<close>).  The query of the full-text index is an argument.
\<close>

section \<open>One descriptor\<close>

definition copy_fields :: "string list \<Rightarrow> json \<Rightarrow> json \<Rightarrow> json" where
  "copy_fields ks row item = fold (\<lambda>k out. case jat k row of Inr v \<Rightarrow> jput k v out | Inl _ \<Rightarrow> out) ks item"

definition plain_fields :: "string list" where
  "plain_fields = [''id'', ''kind'', ''revision'', ''producer'', ''evidence_id'', ''freshness'', ''partial'', ''source_status'',
     ''source_result_incomplete'', ''projection_partial'', ''subject'', ''predicate'', ''source_entity'', ''target_entity'']"

definition location_fields :: "string list" where
  "location_fields = [''anchor_id'', ''artifact_sha256'', ''address_space'', ''address'', ''rva'', ''file_offset'']"

text \<open>A long text is replaced by a marker and its hash; a location keeps its known fields.\<close>

definition text_field :: "json \<Rightarrow> string \<Rightarrow> json \<Rightarrow> json" where
  "text_field row k item =
     (case jat k row of
        Inr (JStr t) \<Rightarrow>
          if length t \<le> (if k = ''json_pointer'' then 1024 else 256) then jput k (JStr t) item
          else jput (k @ ''_sha256'') (JStr (sha256_text t)) (jput (k @ ''_omitted'') (JBool True) item)
      | _ \<Rightarrow> item)"

definition location_field :: "json \<Rightarrow> string \<Rightarrow> json \<Rightarrow> json" where
  "location_field row k item =
     (case jat k row of
        Inr loc \<Rightarrow> if is_object loc then jput k (copy_fields location_fields loc (JObj [])) item else item
      | _ \<Rightarrow> item)"

definition index_item :: "json \<Rightarrow> json" where
  "index_item row =
     fold (location_field row) [''location'', ''source_location'', ''target_location'']
       (fold (text_field row) [''name'', ''native_id'', ''json_pointer'']
         (copy_fields plain_fields row (jobj [(''details_omitted'', JBool True)])))"

section \<open>The page\<close>

definition index_keys :: "string list" where
  "index_keys = [''project'', ''artifact'', ''id'', ''kind'', ''backend'', ''revision'', ''name'', ''search'', ''address'', ''anchor'',
     ''source'', ''target'', ''subject'', ''predicate'', ''offset'', ''limit'']"

definition index_page_json :: "string \<Rightarrow> json \<Rightarrow> nat \<Rightarrow> json \<Rightarrow> json list \<Rightarrow> json" where
  "index_page_json operation sha offset next items =
     jobj [(''schema'', JStr ''indago.investigation-index-page.v1''), (''category'', JStr operation), (''artifact_sha256'', sha),
       (''offset'', jnat offset), (''records'', JArr items),
       (''representation'', JStr ''indexed descriptors; use evidence/read for native payloads''),
       (''source_verified'', JBool False), (''next_offset'', next)]"

text \<open>
  The loop over the records of the index: the record that makes the page too long is taken back and the page
  continues there.
\<close>

fun index_rows :: "string \<Rightarrow> json \<Rightarrow> nat \<Rightarrow> json \<Rightarrow> json list \<Rightarrow> json list \<Rightarrow> (json list \<times> json) res" where
  "index_rows operation sha offset next [] items = Inr (items, next)"
| "index_rows operation sha offset next (row # rows) items =
     bindE (dump_size (index_page_json operation sha offset next (items @ [index_item row]))) (\<lambda>n.
       if n > 3800 then Inr (items, jnat (offset + length items))
       else index_rows operation sha offset next rows (items @ [index_item row]))"

definition index_request :: "json \<Rightarrow> string \<Rightarrow> json \<Rightarrow> (nat \<times> json) res" where
  "index_request sha operation request =
     (let r = jput ''category'' (JStr operation) (jput ''artifact'' sha request) in
      bindE (bound r ''limit'' 4 16) (\<lambda>limit. bindE (bound r ''offset'' 0 1000000) (\<lambda>offset.
      throw_if (limit = 0) ''Index page requires a positive limit''
        (Inr (offset, jput ''offset'' (jnat offset) (jput ''limit'' (jnat limit) r))))))"

definition index_answer :: "string \<Rightarrow> json \<Rightarrow> nat \<Rightarrow> json \<Rightarrow> json res" where
  "index_answer operation sha offset native =
     bindE (jat ''next_offset'' native) (\<lambda>next.
     bindE (jat ''records'' native) (\<lambda>found.
     bindE (index_rows operation sha offset next (jrange found) []) (\<lambda>shown.
     throw_if (fst shown = [] \<and> \<not> jempty found)
       ''Indexed descriptor exceeds packet budget; use an evidence pointer directly''
       (Inr (jput ''partial'' (JBool True) (index_page_json operation sha offset (snd shown) (fst shown)))))))"

definition harness_index_page :: "(string \<Rightarrow> json \<Rightarrow> json res) \<Rightarrow> json \<Rightarrow> string \<Rightarrow> json \<Rightarrow> json res" where
  "harness_index_page query selected operation request =
     bindE (check_keys request index_keys) (\<lambda>_.
     throw_if (operation \<notin> {''entities'', ''relations'', ''claims'', ''revisions''}) ''Unsupported read-only index operation'' (
     bindE (jat ''artifact_sha256'' selected) (\<lambda>sha.
     bindE (index_request sha operation request) (\<lambda>(offset, r).
     bindE (jstr_at ''project'' r) (\<lambda>project.
     bindE (query project r) (index_answer operation sha offset))))))"

section \<open>Nothing is skipped\<close>

text \<open>
  A page shows the first records of the answer, in order, at least one if there is any; when it stops early, the
  next offset is the first record that is not shown.
\<close>

lemma index_rows_prefix:
  assumes "index_rows operation sha offset next rows items = Inr (out, next')" and "m = length items"
  shows "\<exists>n \<le> length rows. out = items @ map index_item (take n rows) \<and>
    (if n = length rows then next' = next else next' = jnat (offset + m + n))"
  using assms
proof (induction operation sha offset "next" rows items arbitrary: m rule: index_rows.induct)
  case (1 operation sha offset "next" items)
  then show ?case by simp
next
  case (2 operation sha offset "next" row rows items)
  from "2.prems"(1) obtain size' where
    s: "dump_size (index_page_json operation sha offset next (items @ [index_item row])) = Inr size'"
    and rest: "(if size' > 3800 then Inr (items, jnat (offset + length items))
      else index_rows operation sha offset next rows (items @ [index_item row])) = Inr (out, next')"
    by (auto elim!: bindE_InrE)
  show ?case
  proof (cases "size' > 3800")
    case True
    then show ?thesis using rest "2.prems"(2) by (intro exI[of _ 0]) auto
  next
    case False
    then have "index_rows operation sha offset next rows (items @ [index_item row]) = Inr (out, next')" using rest by simp
    from "2.IH"[OF s False this refl] obtain n where "n \<le> length rows"
      "out = (items @ [index_item row]) @ map index_item (take n rows)"
      "if n = length rows then next' = next else next' = jnat (offset + length (items @ [index_item row]) + n)" by blast
    then show ?thesis using "2.prems"(2) by (intro exI[of _ "Suc n"]) (auto split: if_splits)
  qed
qed

lemma index_answer_prefix:
  assumes "index_answer operation sha offset native = Inr page"
  obtains found n where "jat ''records'' native = Inr found" "n \<le> length (jrange found)"
    "jat ''records'' page = Inr (JArr (map index_item (take n (jrange found))))"
    "jrange found \<noteq> [] \<longrightarrow> 0 < n" "jat ''offset'' page = Inr (jnat offset)"
    "n < length (jrange found) \<longrightarrow> jat ''next_offset'' page = Inr (jnat (offset + n))"
proof -
  from assms obtain "next" found shown where found: "jat ''records'' native = Inr found"
    and rows: "index_rows operation sha offset next (jrange found) [] = Inr shown"
    and some: "\<not> (fst shown = [] \<and> \<not> jempty found)"
    and page: "(Inr (jput ''partial'' (JBool True) (index_page_json operation sha offset (snd shown) (fst shown))) :: json res) = Inr page"
    unfolding index_answer_def by (elim bindE_elims) (rule that, assumption+)
  from rows have "index_rows operation sha offset next (jrange found) [] = Inr (fst shown, snd shown)" by simp
  from index_rows_prefix[OF this refl] obtain n where "n \<le> length (jrange found)"
    "fst shown = [] @ map index_item (take n (jrange found))"
    "if n = length (jrange found) then snd shown = next else snd shown = jnat (offset + length ([] :: json list) + n)" by auto
  then have n: "n \<le> length (jrange found)" "fst shown = map index_item (take n (jrange found))"
    "n < length (jrange found) \<longrightarrow> snd shown = jnat (offset + n)" by auto
  have p: "jat ''records'' page = Inr (JArr (fst shown))" "jat ''offset'' page = Inr (jnat offset)"
    "jat ''next_offset'' page = Inr (snd shown)"
    using page by (auto simp: index_page_json_def json_simps)
  have "jrange found \<noteq> [] \<longrightarrow> 0 < n" using some n(2) by (cases n) (auto simp: jempty_def)
  then show thesis using that[OF found n(1)] p n(2,3) by simp
qed

section \<open>Credentials\<close>

definition is_blank :: "char \<Rightarrow> bool" where
  "is_blank c = (c \<in> {CHR '' '', CHR 0x09, CHR 0x0D, CHR 0x0A})"

definition trim_text :: "string \<Rightarrow> string" where
  "trim_text s = rev (dropWhile is_blank (rev (dropWhile is_blank s)))"

text \<open>The lines that \<^verbatim>\<open>std::getline\<close> yields: a newline at the end starts no further line.\<close>

function text_lines :: "string \<Rightarrow> string list" where
  "text_lines s =
     (if s = [] then []
      else takeWhile (\<lambda>c. c \<noteq> CHR 0x0A) s # text_lines (drop 1 (dropWhile (\<lambda>c. c \<noteq> CHR 0x0A) s)))"
  by pat_completeness auto

termination
proof (relation "measure length")
  fix s :: string
  assume "s \<noteq> []"
  have "length (dropWhile (\<lambda>c. c \<noteq> CHR 0x0A) s) \<le> length s" by (rule length_dropWhile_le)
  with \<open>s \<noteq> []\<close> show "(drop 1 (dropWhile (\<lambda>c. c \<noteq> CHR 0x0A) s), s) \<in> measure length" by (cases s) auto
qed simp

declare text_lines.simps [simp del]

definition credential_value :: "string \<Rightarrow> string res" where
  "credential_value secret =
     (if length secret \<ge> 2 \<and> (hd secret = CHR 0x27 \<or> hd secret = CHR 0x22)
      then (let quote = hd secret; inner = takeWhile (\<lambda>c. c \<noteq> quote) (tl secret); after = dropWhile (\<lambda>c. c \<noteq> quote) (tl secret)
            in throw_if (after = []) ''invalid quoted OpenRouter credential'' (
               let tail = trim_text (drop 1 after) in
               throw_if (tail \<noteq> [] \<and> hd tail \<noteq> CHR ''#'') ''invalid credential suffix'' (Inr inner)))
      else Inr (case str_find '' #'' secret of Some n \<Rightarrow> trim_text (take n secret) | None \<Rightarrow> secret))"

definition credential_line :: "string \<Rightarrow> string \<Rightarrow> string option \<Rightarrow> string option res" where
  "credential_line variable line found =
     (let line = trim_text line;
          line = (if starts_with line ''export '' then trim_text (drop 7 line) else line) in
      if CHR ''='' \<notin> set line \<or> trim_text (takeWhile (\<lambda>c. c \<noteq> CHR ''='') line) \<noteq> variable then Inr found
      else throw_if (found \<noteq> None) ''duplicate OpenRouter credential assignment'' (
        bindE (credential_value (trim_text (drop 1 (dropWhile (\<lambda>c. c \<noteq> CHR ''='') line)))) (\<lambda>v. Inr (Some v))))"

definition credential_chars :: string where
  "credential_chars = ''abcdefghijklmnopqrstuvwxyzABCDEFGHIJKLMNOPQRSTUVWXYZ0123456789_-.''"

definition byte_order_mark :: string where
  "byte_order_mark = [CHR 0xEF, CHR 0xBB, CHR 0xBF]"

definition parse_model_credential :: "string \<Rightarrow> string \<Rightarrow> string \<Rightarrow> string res" where
  "parse_model_credential input format variable =
     bindE (if format = ''raw'' then Inr (trim_text input)
            else if format = ''dotenv''
            then bindE (foldE (credential_line variable)
                    (text_lines (if starts_with input byte_order_mark then drop 3 input else input)) None) (\<lambda>found.
                 Inr (case found of Some v \<Rightarrow> v | None \<Rightarrow> []))
            else throw ''unsupported credential format'') (\<lambda>secret.
     throw_if (secret = [] \<or> length secret > 4096 \<or> \<not> only_of credential_chars secret)
       ''invalid or missing OpenRouter credential'' (Inr secret))"

text \<open>An accepted credential is bounded and has neither blanks nor quotes.\<close>

lemma credential_shape:
  "parse_model_credential input format variable = Inr secret \<Longrightarrow>
   secret \<noteq> [] \<and> length secret \<le> 4096 \<and> only_of credential_chars secret"
  by (auto simp: parse_model_credential_def elim!: bindE_InrE)

text \<open>A second assignment is refused wherever it stands.\<close>

lemma credential_once:
  assumes "credential_line variable line (Some v) = Inr found"
  shows "found = Some v"
  using assms by (auto simp: credential_line_def Let_def split: if_splits)

end
