(* ===== verification/Ind_Inputs.thy ===== *)
theory Ind_Inputs
  imports Ind_Scope Ind_Artifact
begin

text \<open>
  Around a run of the target: the staging of its inputs in a directory of their own
  (\<^verbatim>\<open>src/runtime_inputs.hpp\<close>), the manifest of a recorded trace (\<^verbatim>\<open>src/rr_trace.hpp\<close>) and the pairing
  of the observations of one call (\<^verbatim>\<open>src/runtime_call_identity.hpp\<close>).
\<close>

section \<open>Staged inputs\<close>

definition decode_input :: "json \<Rightarrow> string res" where
  "decode_input v =
     bindE (jstr v) (\<lambda>s.
     throw_if (length s > 8192 \<or> odd (length s) \<or> \<not> only_of hex_digits s) ''invalid bounded runtime input'' (Inr (unhex s)))"

definition upper_name :: string where
  "upper_name = ''ABCDEFGHIJKLMNOPQRSTUVWXYZ0123456789_''"

definition plain_name :: string where
  "plain_name = ''abcdefghijklmnopqrstuvwxyzABCDEFGHIJKLMNOPQRSTUVWXYZ0123456789_-''"

definition injecting :: "string list" where
  "injecting = [''BASH_ENV'', ''ENV'', ''SHELL'', ''LD_PRELOAD'', ''LD_LIBRARY_PATH'', ''DYLD_INSERT_LIBRARIES'', ''GLIBC_TUNABLES'']"

definition check_variable :: "string \<times> json \<Rightarrow> unit \<Rightarrow> unit res" where
  "check_variable = (\<lambda>(key, value) _.
     bindE (jstr value) (\<lambda>v.
     throw_if (key = [] \<or> length key > 64 \<or> \<not> only_of upper_name key \<or> length v > 1024 \<or> CHR 0x00 \<in> set v \<or>
         CHR 0x0D \<in> set v \<or> CHR 0x0A \<in> set v \<or> (v \<noteq> [] \<and> (hd v = CHR '' '' \<or> last v = CHR '' '')))
       ''invalid runtime environment'' (
     throw_if (key \<in> set injecting) ''runtime environment cannot inject shell or loader behavior'' (Inr ()))))"

text \<open>
  A directory is the map from the names to the bytes of its files; \<open>None\<close>: there is none.  The operator
  \<^verbatim>\<open>/\<close> of paths, and the checks before the directory is made.
\<close>

definition join_path :: "string \<Rightarrow> string \<Rightarrow> string" where
  "join_path p n = (if p = [] \<or> last p = CHR ''/'' then p @ n else p @ ''/'' @ n)"

definition check_inputs :: "bool \<Rightarrow> json \<Rightarrow> (json \<times> json) res" where
  "check_inputs exists r =
     bindE (jvalue ''files'' (JObj []) r) (\<lambda>files. bindE (jvalue ''environment'' (JObj []) r) (\<lambda>env.
     throw_if (\<not> is_object files \<or> jsize files > 4 \<or> \<not> is_object env \<or> jsize env > 16) ''runtime input manifest bounds'' (
     bindE (foldE check_variable (entries env) ()) (\<lambda>_.
     throw_if (contains r ''cwd'') ''explicit input manifest owns its working directory'' (
     throw_if exists ''refusing to reuse runtime input directory'' (Inr (files, env)))))))"

type_synonym dir = "string \<rightharpoonup> string"

text \<open>
  One file: its bytes are written, then its hash is recorded.  A failure leaves what was written before it.
\<close>

fun stage_files :: "(string \<times> json) list \<Rightarrow> dir \<times> json \<Rightarrow> dir \<times> json res" where
  "stage_files [] (d, recorded) = (d, Inr recorded)"
| "stage_files ((key, value) # rest) (d, recorded) =
     (case throw_if (key = [] \<or> length key > 64 \<or> \<not> only_of plain_name key) ''runtime file input requires plain filename''
             (decode_input value)
      of Inl e \<Rightarrow> (d, Inl e)
       | Inr bytes \<Rightarrow> stage_files rest (d(key \<mapsto> bytes), jput key (JStr (sha256_text bytes)) recorded))"

definition input_manifest :: "json \<Rightarrow> json \<Rightarrow> string \<Rightarrow> json \<Rightarrow> json" where
  "input_manifest env recorded input argv =
     jobj [(''schema'', JStr ''indago.runtime-inputs.v1''), (''environment'', env), (''files'', recorded),
       (''delivery'', JStr ''prepared; not yet observed at target''), (''stdin_sha256'', JStr (sha256_text input)),
       (''argv'', argv)]"

definition prepared_request :: "string \<Rightarrow> json \<Rightarrow> json \<Rightarrow> json \<Rightarrow> string \<Rightarrow> json" where
  "prepared_request path env r manifest text =
     jput ''input_manifest_sha256'' (JStr (sha256_text text)) (jput ''input_manifest'' manifest
       (jput ''stderr_file'' (JStr (join_path path ''.stderr'')) (jput ''stdout_file'' (JStr (join_path path ''.stdout''))
       (jput ''stdin_file'' (JStr (join_path path ''.stdin'')) (jput ''cwd'' (JStr path) (jput ''environment'' env r))))))"

definition stage_runtime_inputs :: "string \<Rightarrow> dir option \<Rightarrow> json \<Rightarrow> dir option \<times> json res" where
  "stage_runtime_inputs path old r =
     (case check_inputs (old \<noteq> None) r of
        Inl e \<Rightarrow> (old, Inl e)
      | Inr (files, env) \<Rightarrow>
          (case stage_files (entries files) (Map.empty, JObj []) of
             (d, Inl e) \<Rightarrow> (Some d, Inl e)
           | (d, Inr recorded) \<Rightarrow>
               (case bindE (jvalue ''input_hex'' (JStr []) r) decode_input of
                  Inl e \<Rightarrow> (Some d, Inl e)
                | Inr input \<Rightarrow>
                    (Some (d(''.stdin'' \<mapsto> input)),
                     bindE (jvalue ''argv'' (JArr []) r) (\<lambda>argv.
                       let manifest = input_manifest env recorded input argv in
                       bindE (dump manifest) (\<lambda>text. Inr (prepared_request path env r manifest text)))))))"

section \<open>The manifest of a trace\<close>

text \<open>
  A path is its components below the root; \<open>is_link\<close> says which paths are symbolic links.  Every prefix but the
  root is asked, the longest first.
\<close>

fun any_link :: "(string list \<Rightarrow> bool) \<Rightarrow> string list \<Rightarrow> string list \<Rightarrow> bool" where
  "any_link is_link stem [] = False"
| "any_link is_link stem (p # ps) = (is_link (stem @ [p]) \<or> any_link is_link (stem @ [p]) ps)"

definition unlinked_path :: "(string list \<Rightarrow> bool) \<Rightarrow> bool \<Rightarrow> string list \<Rightarrow> unit res" where
  "unlinked_path is_link absolute p =
     throw_if (\<not> absolute) ''Replay path must be absolute'' (
     throw_if (any_link is_link [] p) ''Replay paths cannot traverse symbolic links'' (Inr ()))"

text \<open>What the file system says of one entry: the size is read again after the bytes were hashed.\<close>

record trace_entry =
  te_name :: string
  te_regular :: bool
  te_size :: nat
  te_links :: nat
  te_bytes :: "string option"
  te_size_after :: nat

definition entry_record :: "bool \<Rightarrow> trace_entry \<Rightarrow> json res" where
  "entry_record hashes t =
     (if hashes
      then throw_if (te_links t \<noteq> 1) ''Packed trace retains external hard links'' (
           bindE (sha256_file (te_name t) (te_bytes t)) (\<lambda>sha.
           throw_if (te_size_after t \<noteq> te_size t) ''Trace changed during hashing'' (
             Inr (jobj [(''size'', jnat (te_size t)), (''sha256'', JStr sha)]))))
      else Inr (jobj [(''size'', jnat (te_size t))]))"

definition add_entry :: "nat \<Rightarrow> bool \<Rightarrow> trace_entry \<Rightarrow> (string \<times> json) list \<times> nat \<Rightarrow> ((string \<times> json) list \<times> nat) res" where
  "add_entry budget hashes t = (\<lambda>(files, bytes).
     throw_if (length (te_name t) > 255 \<or> length files \<ge> 1024 \<or> \<not> te_regular t)
       ''Trace contains an unsupported entry or exceeds 1024 files'' (
     throw_if (te_size t > 67108864 \<or> bytes > budget \<or> te_size t > budget - bytes) ''Trace byte budget exceeded'' (
     bindE (entry_record hashes t) (\<lambda>r. Inr (smap_emplace (te_name t) r files, bytes + te_size t)))))"

definition required_streams :: "string list" where
  "required_streams = [''version'', ''events'', ''data'', ''mmaps'', ''tasks'']"

definition trace_manifest ::
  "(string list \<Rightarrow> bool) \<Rightarrow> bool \<Rightarrow> string list \<Rightarrow> trace_entry list option \<Rightarrow> nat \<Rightarrow> bool \<Rightarrow> json res" where
  "trace_manifest is_link absolute p listing budget hashes =
     bindE (unlinked_path is_link absolute p) (\<lambda>_.
     bindE (case listing of None \<Rightarrow> Inr ([], 0) | Some ts \<Rightarrow> foldE (add_entry budget hashes) ts ([], 0)) (\<lambda>(files, bytes).
     throw_if (hashes \<and> \<not> list_all (smap_has files) required_streams)
       ''Packed rr trace is missing a required native stream'' (
     let manifest = jobj [(''schema'', JStr ''indago.rr-trace-manifest.v1''), (''files'', JObj files), (''bytes'', jnat bytes),
       (''hashed'', JBool hashes)]
     in if hashes then bindE (dump manifest) (\<lambda>text. Inr (jput ''sha256'' (JStr (sha256_text text)) manifest))
        else Inr manifest)))"

section \<open>Calls and their observations\<close>

definition new_call :: "json \<Rightarrow> json \<Rightarrow> json res" where
  "new_call data payload =
     bindE (jat ''call_id'' data) (\<lambda>i. bindE (jat ''api'' payload) (\<lambda>api.
     bindE (jvalue ''process_id'' JNull data) (\<lambda>process. bindE (jvalue ''thread_instance'' JNull payload) (\<lambda>thread.
       Inr (jobj [(''id'', i), (''api'', api), (''process_id'', process), (''thread_instance'', thread),
         (''entry_observation'', JNull), (''return_observation'', JNull), (''conflicting_observations'', JBool False),
         (''duplicate_observations'', JInt 0), (''identity_scope'', JStr ''Frida collection-local API invocation token''),
         (''network_delivery_proven'', JBool False)])))))"

definition differs :: "json res \<Rightarrow> json res \<Rightarrow> bool res" where
  "differs a b = bindE a (\<lambda>x. bindE b (\<lambda>y. Inr (\<not> jeq x y)))"

definition prior_call :: "json \<Rightarrow> json \<Rightarrow> json \<Rightarrow> json res" where
  "prior_call previous data call =
     (if is_null previous then Inr call
      else bindE (differs (jat ''id'' previous) (jat ''call_id'' data)) (\<lambda>other.
        throw_if other ''API identity token differs from prior record'' (Inr previous)))"

definition mark_conflict :: "json \<Rightarrow> json \<Rightarrow> json \<Rightarrow> json res" where
  "mark_conflict data payload call =
     bindE (any_differs [differs (jat ''api'' call) (jat ''api'' payload),
         differs (jat ''process_id'' call) (jvalue ''process_id'' JNull data),
         differs (jat ''thread_instance'' call) (jvalue ''thread_instance'' JNull payload)]) (\<lambda>conflict.
     if conflict then jset ''conflicting_observations'' (JBool True) call else Inr call)"

definition add_observation :: "string \<Rightarrow> json \<Rightarrow> json \<Rightarrow> json res" where
  "add_observation field observation call =
     bindE (jat field call) (\<lambda>old.
     if \<not> is_null old
     then bindE (bindE (jat ''duplicate_observations'' call) jword) (\<lambda>n. jset ''duplicate_observations'' (JUInt (n + 1)) call)
     else jset field observation call)"

definition pair_incomplete :: "json \<Rightarrow> bool res" where
  "pair_incomplete call =
     any_differs [bindE (jat ''entry_observation'' call) (\<lambda>x. Inr (is_null x)),
       bindE (jat ''return_observation'' call) (\<lambda>x. Inr (is_null x)),
       differs (jat ''conflicting_observations'' call) (Inr (JBool False)),
       differs (jat ''duplicate_observations'' call) (Inr (JInt 0))]"

definition advance_api_call_identity :: "json \<Rightarrow> json \<Rightarrow> string \<Rightarrow> json \<Rightarrow> json res" where
  "advance_api_call_identity previous data kind observation =
     throw_if (kind \<noteq> ''api_enter'' \<and> kind \<noteq> ''api_leave'') ''API identity requires entry or return observation'' (
     bindE (bindE (jat ''native'' data) (jat ''payload'')) (\<lambda>payload.
     bindE (new_call data payload) (\<lambda>call.
     bindE (prior_call previous data call) (\<lambda>call.
     bindE (mark_conflict data payload call) (\<lambda>call.
     bindE (add_observation (if kind = ''api_enter'' then ''entry_observation'' else ''return_observation'') observation call) (\<lambda>call.
     bindE (pair_incomplete call) (\<lambda>open_pair. jset ''pair_complete'' (JBool (\<not> open_pair)) call)))))))"

section \<open>What is prepared is what the manifest says\<close>

definition hashed_in :: "dir \<Rightarrow> json \<Rightarrow> bool" where
  "hashed_in d recorded =
     (\<forall>k h. smap_get (entries recorded) k = Some h \<longrightarrow> (\<exists>bytes. d k = Some bytes \<and> h = JStr (sha256_text bytes)))"

lemma hashed_in_put: "hashed_in d recorded \<Longrightarrow> hashed_in (d(k \<mapsto> bytes)) (jput k (JStr (sha256_text bytes)) recorded)"
  by (simp add: hashed_in_def smap_get_jput)

text \<open>Every recorded hash is the hash of the bytes in the directory, and only plain names are written.\<close>

lemma stage_files_hashed:
  "stage_files kvs (d, recorded) = (d', Inr recorded') \<Longrightarrow> hashed_in d recorded \<Longrightarrow> hashed_in d' recorded'"
  by (induction kvs "(d, recorded)" arbitrary: d recorded rule: stage_files.induct)
    (auto split: sum.splits intro: hashed_in_put)

lemma stage_files_plain:
  "stage_files kvs (d, recorded) = (d', out) \<Longrightarrow> k \<in> dom d' \<Longrightarrow> k \<in> dom d \<or> k \<noteq> [] \<and> only_of plain_name k"
  by (induction kvs "(d, recorded)" arbitrary: d recorded rule: stage_files.induct)
    (fastforce split: sum.splits if_splits)+

text \<open>A trace within its budget: the files' sizes add up to at most the budget.\<close>

lemma trace_within_budget:
  "foldE (add_entry budget hashes) ts (files, bytes) = Inr (files', bytes') \<Longrightarrow> bytes \<le> budget \<Longrightarrow>
   bytes' = bytes + sum_list (map te_size ts) \<and> bytes' \<le> budget"
proof (induction ts arbitrary: files bytes)
  case (Cons t ts)
  from Cons.prems(1) obtain r where "te_size t \<le> budget - bytes"
    and rest: "foldE (add_entry budget hashes) ts (smap_emplace (te_name t) r files, bytes + te_size t) = Inr (files', bytes')"
    by (auto simp: add_entry_def[of _ _ t] elim!: bindE_InrE)
  with Cons.prems(2) have "bytes + te_size t \<le> budget" by simp
  from Cons.IH[OF rest this] show ?case by simp
qed simp

text \<open>An observation that is recorded is never replaced.\<close>

lemma jset_other: "jset k v j = Inr j' \<Longrightarrow> k' \<noteq> k \<Longrightarrow> jat k' j = Inr x \<Longrightarrow> jat k' j' = Inr x"
  by (auto simp: jset_def jat_def smap_get_put split: json.splits option.splits)

lemma observation_kept:
  assumes "advance_api_call_identity previous data kind observation = Inr call"
    and "jat field previous = Inr x" and "\<not> is_null x" and "field \<in> {''entry_observation'', ''return_observation''}"
  shows "jat field call = Inr x"
proof -
  have "\<not> is_null previous" using assms(2) by (cases previous) (simp_all add: jat_def)
  with assms(1) obtain payload c1 c2 where c: "mark_conflict data payload previous = Inr c1"
      "add_observation (if kind = ''api_enter'' then ''entry_observation'' else ''return_observation'') observation c1 = Inr c2"
      "\<exists>b. jset ''pair_complete'' b c2 = Inr call"
    unfolding advance_api_call_identity_def prior_call_def by (fastforce elim!: bindE_InrE)
  have 1: "jat field c1 = Inr x"
    using c(1) assms(2,4) by (auto simp: mark_conflict_def split: if_splits elim!: bindE_InrE intro: jset_other)
  have 2: "jat field c2 = Inr x"
    using c(2) 1 assms(3,4) by (auto simp: add_observation_def split: if_splits elim!: bindE_InrE intro: jset_other)
  show ?thesis using c(3) 2 assms(4) by (auto intro: jset_other)
qed

end
