(* ===== verification/Ind_Jobs.thy ===== *)
theory Ind_Jobs
  imports Ind_Publish
begin

text \<open>
  The life of an analysis job: the job operations of the store as a step relation, the
  invariant every step keeps, and the refinement of the tables to the five phases of a
  job.  What the callers rely on follows from the phases: a closed job never changes, and a
  lease changes hands only by closing the job.
\<close>

section \<open>Steps\<close>

text \<open>The operations that write the tables, at any arguments; several processes interleave them.\<close>

inductive job_step ::
  "(string \<Rightarrow> json res) \<Rightarrow> (string \<Rightarrow> json option) \<Rightarrow> (store \<Rightarrow> json \<Rightarrow> json res) \<Rightarrow> store \<Rightarrow> store \<Rightarrow> bool"
  for parse other persist where
  create: "create_project st name pid at' = Inr (out, st') \<Longrightarrow> job_step parse other persist st st'"
| import_file: "import_target st project source filename tid at' = Inr (rec, st') \<Longrightarrow> job_step parse other persist st st'"
| derive: "record_derivation st t lineage = Inr st' \<Longrightarrow> job_step parse other persist st st'"
| start: "start_job parse st t request jid revision at' = Inr (job, st') \<Longrightarrow> job_step parse other persist st st'"
| claim: "claim_commit st project jid token now1 now2 at' = Inr st' \<Longrightarrow> job_step parse other persist st st'"
| beat: "heartbeat st jid token now1 now2 = Inr st' \<Longrightarrow> job_step parse other persist st st'"
| recover: "recover_jobs st project now at' = Inr (report, st') \<Longrightarrow> job_step parse other persist st st'"
| publish: "publish_result parse other persist st t job backend result ev fids now at' = Inr (envelope, st')
    \<Longrightarrow> job_step parse other persist st st'"
| cancel: "cancel_job parse st project jid = Inr (answer, st') \<Longrightarrow> job_step parse other persist st st'"

inductive_cases job_stepE: "job_step parse other persist st st'"

definition active :: "job_row \<Rightarrow> bool" where
  "active r = (j_status r = ''queued'' \<or> j_status r = ''running'')"

definition jobs_ok :: "store \<Rightarrow> bool" where
  "jobs_ok st =
     (distinct (map j_id (jobs st)) \<and> distinct (map l_job (leases st)) \<and>
      list_all (\<lambda>l. list_ex (\<lambda>r. j_id r = l_job l \<and> j_status r = ''running'') (jobs st)) (leases st) \<and>
      list_all (\<lambda>r. j_result r \<noteq> [] \<longrightarrow> \<not> active r) (jobs st))"

section \<open>Phases\<close>

datatype phase = Absent | Queued | Orphan | Owned string | Closed

definition job_of :: "store \<Rightarrow> string \<Rightarrow> job_row option" where
  "job_of st jid = find (\<lambda>r. j_id r = jid) (jobs st)"

definition lease_of :: "store \<Rightarrow> string \<Rightarrow> lease_row option" where
  "lease_of st jid = find (\<lambda>l. l_job l = jid) (leases st)"

definition phase :: "store \<Rightarrow> string \<Rightarrow> phase" where
  "phase st jid =
     (case job_of st jid of
        None \<Rightarrow> Absent
      | Some r \<Rightarrow>
          if j_status r = ''queued'' then Queued
          else if j_status r = ''running'' then
            (case lease_of st jid of None \<Rightarrow> Orphan | Some l \<Rightarrow> Owned (l_token l))
          else Closed)"

text \<open>What may happen to one job in one step of the store.\<close>

inductive phase_step :: "phase \<Rightarrow> phase \<Rightarrow> bool" where
  stay: "phase_step p p"
| submit: "phase_step Absent Queued"
| take: "phase_step Queued (Owned token)"
| adopt: "phase_step Orphan (Owned token)"
| close: "p \<noteq> Absent \<Longrightarrow> phase_step p Closed"

code_pred phase_step .

inductive_simps phase_step_Closed: "phase_step Closed q"
inductive_simps phase_step_Owned: "phase_step (Owned token) q"

text \<open>Phases are ordered by progress; two phases of the same rank, such as two owners, are not comparable.\<close>

fun phase_rank :: "phase \<Rightarrow> nat" where
  "phase_rank Absent = 0"
| "phase_rank Queued = 1"
| "phase_rank Orphan = 1"
| "phase_rank (Owned token) = 2"
| "phase_rank Closed = 3"

instantiation phase :: order
begin

definition less_eq_phase :: "phase \<Rightarrow> phase \<Rightarrow> bool" where
  "less_eq_phase p q \<longleftrightarrow> p = q \<or> phase_rank p < phase_rank q"

definition less_phase :: "phase \<Rightarrow> phase \<Rightarrow> bool" where
  "less_phase p q \<longleftrightarrow> phase_rank p < phase_rank q"

instance
  by intro_classes (auto simp: less_eq_phase_def less_phase_def)

end

lemma phase_le_Closed: "p \<le> Closed"
  by (cases p) (simp_all add: less_eq_phase_def)

lemma phase_step_progress: "phase_step p q \<Longrightarrow> p \<le> q"
  by (induction rule: phase_step.induct) (simp_all add: phase_le_Closed, simp_all add: less_eq_phase_def)

section \<open>Searching the tables\<close>

lemma find_filter_other:
  "find (\<lambda>l. l_job l = j) (filter (\<lambda>l. l_job l \<noteq> k) ls) = (if j = k then None else find (\<lambda>l. l_job l = j) ls)"
  by (induction ls) auto

lemma job_of_SomeD: "job_of st jid = Some r \<Longrightarrow> r \<in> set (jobs st) \<and> j_id r = jid"
  by (auto simp: job_of_def dest: find_SomeD)

lemma job_of_in: "jobs_ok st \<Longrightarrow> r \<in> set (jobs st) \<Longrightarrow> job_of st (j_id r) = Some r"
  unfolding job_of_def jobs_ok_def by (rule find_in_distinct) auto

lemma job_unique: "jobs_ok st \<Longrightarrow> r \<in> set (jobs st) \<Longrightarrow> r' \<in> set (jobs st) \<Longrightarrow> j_id r = j_id r' \<Longrightarrow> r = r'"
  by (metis job_of_in option.inject)

lemma job_of_None: "job_of st jid = None \<longleftrightarrow> \<not> list_ex (\<lambda>r. j_id r = jid) (jobs st)"
  by (auto simp: job_of_def find_None_iff list_ex_iff)

lemma lease_of_None: "lease_of st jid = None \<longleftrightarrow> \<not> list_ex (\<lambda>l. l_job l = jid) (leases st)"
  by (auto simp: lease_of_def find_None_iff list_ex_iff)

lemma lease_running:
  assumes "jobs_ok st" and "lease_of st jid = Some l"
  shows "\<exists>r. job_of st jid = Some r \<and> j_status r = ''running''"
proof -
  have l: "l \<in> set (leases st)" "l_job l = jid"
    using find_SomeD [OF assms(2) [unfolded lease_of_def]] by auto
  then obtain r where "r \<in> set (jobs st)" "j_id r = jid" "j_status r = ''running''"
    using assms(1) by (auto simp: jobs_ok_def list_all_iff list_ex_iff)
  then show ?thesis
    using job_of_in [OF assms(1)] by blast
qed

text \<open>Two stores with the same jobs and leases.\<close>

definition same_jobs :: "store \<Rightarrow> store \<Rightarrow> bool" where
  "same_jobs st st' = (jobs st' = jobs st \<and> leases st' = leases st)"

lemma same_jobs_refl [simp]: "same_jobs st st"
  by (simp add: same_jobs_def)

lemma same_jobs_ok: "same_jobs st st' \<Longrightarrow> jobs_ok st' = jobs_ok st"
  by (simp add: same_jobs_def jobs_ok_def)

lemma same_jobs_phase: "same_jobs st st' \<Longrightarrow> phase st' j = phase st j"
  by (simp only: same_jobs_def phase_def job_of_def lease_of_def)

lemma same_jobs_job_of: "same_jobs st st' \<Longrightarrow> job_of st' j = job_of st j"
  by (simp add: same_jobs_def job_of_def)

lemmas same_jobs_simps = same_jobs_ok same_jobs_phase same_jobs_job_of

section \<open>What each operation does to the jobs\<close>

lemma log_event_simps [simp]:
  "jobs (log_event j k a d st) = jobs st" "leases (log_event j k a d st) = leases st"
  by (simp_all add: log_event_def)

lemma set_jobs_simps [simp]:
  "jobs (set_jobs P f st) = map (\<lambda>r. if P r then f r else r) (jobs st)"
  "leases (set_jobs P f st) = leases st"
  by (simp_all add: set_jobs_def)

text \<open>An update of the rows of one job that keeps their identifier.\<close>

definition touched :: "string \<Rightarrow> (job_row \<Rightarrow> job_row) \<Rightarrow> store \<Rightarrow> store \<Rightarrow> bool" where
  "touched jid f st st' =
     (jobs st' = map (\<lambda>r. if j_id r = jid then f r else r) (jobs st) \<and> (\<forall>r. j_id (f r) = j_id r))"

lemma touched_job_of:
  "touched jid f st st' \<Longrightarrow> job_of st' j = map_option (\<lambda>r. if j = jid then f r else r) (job_of st j)"
proof -
  assume t: "touched jid f st st'"
  have "job_of st' j = map_option (\<lambda>r. if j_id r = jid then f r else r) (job_of st j)"
    using t unfolding job_of_def touched_def by (simp only:) (rule find_map_same, auto)
  then show ?thesis
    by (cases "job_of st j") (auto dest: job_of_SomeD)
qed

lemma touched_ids: "touched jid f st st' \<Longrightarrow> map j_id (jobs st') = map j_id (jobs st)"
  by (simp add: touched_def)

lemma touched_ok:
  assumes "jobs_ok st" and "touched jid f st st'"
    and "\<And>r. r \<in> set (jobs st) \<Longrightarrow> j_id r = jid \<Longrightarrow> j_result (f r) \<noteq> [] \<longrightarrow> \<not> active (f r)"
    and "distinct (map l_job (leases st'))"
    and "\<And>l. l \<in> set (leases st') \<Longrightarrow> l_job l \<noteq> jid \<Longrightarrow> l_job l \<in> l_job ` set (leases st)"
    and "\<And>l r. l \<in> set (leases st') \<Longrightarrow> l_job l = jid \<Longrightarrow>
      (\<exists>r \<in> set (jobs st). j_id r = jid) \<and> (j_id r = jid \<longrightarrow> j_status (f r) = ''running'')"
  shows "jobs_ok st'"
proof -
  have "list_all (\<lambda>r. j_result r \<noteq> [] \<longrightarrow> \<not> active r) (jobs st')"
    using assms(1,2,3) by (auto simp: touched_def jobs_ok_def list_all_iff)
  moreover have "list_ex (\<lambda>r. j_id r = l_job l \<and> j_status r = ''running'') (jobs st')" if l: "l \<in> set (leases st')" for l
  proof (cases "l_job l = jid")
    case True
    with assms(6) [OF l True] obtain r where "r \<in> set (jobs st)" "j_id r = jid" by blast
    then show ?thesis
      using assms(2) assms(6) [OF l True, of r] True
      by (auto simp: touched_def list_ex_iff intro!: bexI [of _ "f r"] image_eqI [of _ _ r])
  next
    case False
    with assms(5) [OF l] obtain l' where "l' \<in> set (leases st)" "l_job l' = l_job l" by auto
    then obtain r where r: "r \<in> set (jobs st)" "j_id r = l_job l" "j_status r = ''running''"
      using assms(1) by (auto simp: jobs_ok_def list_all_iff list_ex_iff)
    then show ?thesis
      using assms(2) False by (auto simp: touched_def list_ex_iff intro!: bexI [of _ r])
  qed
  ultimately show ?thesis
    using assms(1,4) touched_ids [OF assms(2)] by (simp add: jobs_ok_def list_all_iff)
qed

lemma quiet_ops:
  "create_project st name pid at' = Inr (out, st') \<Longrightarrow> same_jobs st st'"
  "record_derivation st t lineage = Inr st' \<Longrightarrow> same_jobs st st'"
  "cancel_job parse st project jid = Inr (answer, st') \<Longrightarrow> same_jobs st st'"
  by (auto simp: create_project_def record_derivation_def cancel_job_def same_jobs_def Let_def
      split: if_splits)

lemma import_quiet: "import_target st project source filename tid at' = Inr (rec, st') \<Longrightarrow> same_jobs st st'"
  by (auto simp: import_target_def same_jobs_def Let_def split: if_splits option.splits)

lemma start_jobs:
  assumes "start_job parse st t request jid revision at' = Inr (job, st')"
  shows "st' = st \<or>
    (job_of st jid = None \<and> leases st' = leases st \<and>
      (\<exists>r. jobs st' = jobs st @ [r] \<and> j_id r = jid \<and> j_status r = ''queued'' \<and> j_result r = []))"
  using assms
  by (auto simp: start_job_def Let_def job_of_None list_ex_iff split: if_splits option.splits)

lemma claim_jobs:
  assumes "claim_commit st project jid token now1 now2 at' = Inr st'"
  shows "\<exists>r \<in> set (jobs st). j_id r = jid \<and> active r"
    and "lease_of st jid = None"
    and "touched jid (\<lambda>r. r\<lparr>j_status := ''running''\<rparr>) st st'"
    and "leases st' = leases st @ [\<lparr>l_job = jid, l_token = token, l_deadline = now1 + 30000, l_heartbeat = now2\<rparr>]"
  using assms
  by (auto simp: claim_commit_def active_def lease_of_None touched_def Let_def
      split: option.splits if_splits dest!: find_SomeD)

lemma beat_jobs:
  assumes "heartbeat st jid token now1 now2 = Inr st'"
  shows "jobs st' = jobs st"
    and "leases st' = map (\<lambda>l. if l_job l = jid \<and> l_token l = token
       then l\<lparr>l_heartbeat := now1, l_deadline := now2 + 30000\<rparr> else l) (leases st)"
  using assms by (auto simp: heartbeat_def split: if_splits)

lemma recover_one_jobs:
  "touched jid (\<lambda>r. r\<lparr>j_status := ''interrupted'', j_finished := at'\<rparr>) st (recover_one at' jid st)"
  "leases (recover_one at' jid st) = filter (\<lambda>l. l_job l \<noteq> jid) (leases st)"
  by (simp_all add: recover_one_def Let_def touched_def)

lemma publish_function_quiet:
  "publish_function t backend ev fv st = Inr st' \<Longrightarrow> same_jobs st st'"
  by (cases fv) (auto simp: publish_function_def Let_def same_jobs_def split: if_splits option.splits)

lemma publish_functions_quiet:
  assumes "foldE (publish_function t backend ev) xs st = Inr st'"
  shows "same_jobs st st'"
  by (rule foldE_invariant [OF assms, where P = "same_jobs st"])
    (auto simp: same_jobs_def dest: publish_function_quiet)

lemma dump_jput_not_Nil: "dump (jput k v j) = Inr s \<Longrightarrow> s \<noteq> []"
  by (auto simp: dump_def jput_def split: if_splits)

lemma envelope_status:
  assumes "validate_contract other ''result'' (envelope_json t ev revision jid backend result raw native) = Inr ()"
  shows "r_status result \<in> set result_statuses"
  using result_contract(1) [OF assms] by (auto simp: envelope_json_def jat_jobj)

lemma publish_rows_jobs:
  assumes "publish_rows parse other persist st t job backend result ev fids at' = Inr (envelope, st')"
  shows "\<exists>jid out detail st2. jat ''id'' job = Inr (JStr jid) \<and> out \<noteq> [] \<and> same_jobs st st2 \<and>
    r_status result \<in> set result_statuses \<and>
    st' = finish_job jid (tr_project t) (r_status result) at' out detail at' st2"
proof -
  have start: "jobs st1 = jobs st \<Longrightarrow> leases st1 = leases st \<Longrightarrow>
      foldE (publish_function t backend ev) xs st1 = Inr st2 \<Longrightarrow> same_jobs st st2" for st1 st2 xs
    using publish_functions_quiet [of t backend ev xs st1 st2] by (simp add: same_jobs_def)
  show ?thesis
    using assms unfolding publish_rows_def Let_def
    by (elim bindE_InrE) (fastforce split: if_splits prod.splits elim!: bindE_InrE
        dest: envelope_status dump_jput_not_Nil start [rotated 2])
qed

text \<open>A publication is the return of the earlier result, or it closes a job it may close.\<close>

lemma publish_jobs:
  assumes "publish_result parse other persist st t job backend result ev fids now at' = Inr (envelope, st')"
  shows "st' = st \<or> (\<exists>jid out detail st2 row. row \<in> set (jobs st) \<and> j_id row = jid \<and> j_project row = tr_project t \<and>
    active row \<and> (\<forall>l. lease_of st jid = Some l \<longrightarrow> jvalue_str ''lease_token'' [] job = Inr (l_token l) \<and> now \<le> l_deadline l) \<and>
    out \<noteq> [] \<and> same_jobs st st2 \<and> r_status result \<in> set result_statuses \<and>
    st' = finish_job jid (tr_project t) (r_status result) at' out detail at' st2)"
proof -
  obtain prior where check: "publish_check parse st t job backend now = Inr prior"
    and rest: "(case prior of Some v \<Rightarrow> Inr (v, st)
      | None \<Rightarrow> publish_rows parse other persist st t job backend result ev fids at') = Inr (envelope, st')"
    using assms by (auto simp: publish_result_def)
  show ?thesis
  proof (cases prior)
    case (Some v)
    with rest show ?thesis by simp
  next
    case None
    from publish_rows_jobs [of parse other persist st t job backend result ev fids at' envelope st'] rest None
    obtain jid out detail st2 where p: "jat ''id'' job = Inr (JStr jid)" "out \<noteq> []" "same_jobs st st2"
      "r_status result \<in> set result_statuses"
      "st' = finish_job jid (tr_project t) (r_status result) at' out detail at' st2"
      by auto
    from check None p(1) obtain row where
      "find (\<lambda>r. j_id r = jid \<and> j_project r = tr_project t \<and> j_target r = tr_id t \<and>
         (\<exists>rv. jat ''revision'' job = Inr (JStr rv) \<and> j_revision r = rv)) (jobs st) = Some row \<or> row \<in> set (jobs st)"
      "row \<in> set (jobs st)" "j_id row = jid" "j_project row = tr_project t" "active row"
      "\<forall>l. lease_of st jid = Some l \<longrightarrow> jvalue_str ''lease_token'' [] job = Inr (l_token l) \<and> now \<le> l_deadline l"
      unfolding publish_check_def active_def lease_of_def
      by (auto split: option.splits if_splits dest!: find_SomeD)
    with p show ?thesis by blast
  qed
qed

section \<open>The invariant\<close>

lemma active_upd [simp]:
  "active (r\<lparr>j_status := ''running''\<rparr>)" "\<not> active (r\<lparr>j_status := ''interrupted'', j_finished := a\<rparr>)"
  by (simp_all add: active_def)

lemma closed_status: "s \<in> set result_statuses \<Longrightarrow> s \<noteq> ''queued'' \<and> s \<noteq> ''running''"
  by (auto simp: result_statuses_def)

lemma start_ok:
  assumes "jobs_ok st" and "job_of st jid = None" and "leases st' = leases st"
    and "jobs st' = jobs st @ [r]" and "j_id r = jid" and "j_result r = []"
  shows "jobs_ok st'"
  using assms by (auto simp: jobs_ok_def job_of_None list_ex_iff list_all_iff)

lemma claim_ok:
  assumes "jobs_ok st" and "claim_commit st project jid token now1 now2 at' = Inr st'"
  shows "jobs_ok st'"
proof -
  note c = claim_jobs [OF assms(2)]
  from c(1) obtain r0 where r0: "r0 \<in> set (jobs st)" "j_id r0 = jid" "active r0" by auto
  have only: "r = r0" if "r \<in> set (jobs st)" "j_id r = jid" for r
    using job_unique [OF assms(1) that(1) r0(1)] that(2) r0(2) by simp
  show ?thesis
  proof (rule touched_ok [OF assms(1) c(3)])
    show "j_result (r\<lparr>j_status := ''running''\<rparr>) \<noteq> [] \<longrightarrow> \<not> active (r\<lparr>j_status := ''running''\<rparr>)"
      if "r \<in> set (jobs st)" "j_id r = jid" for r
      using only [OF that] r0 assms(1) by (auto simp: jobs_ok_def list_all_iff)
    show "distinct (map l_job (leases st'))"
      using assms(1) c(2,4) by (auto simp: jobs_ok_def lease_of_None list_ex_iff)
  qed (use c(4) r0 in auto)
qed

lemma beat_ok:
  assumes "jobs_ok st" and "heartbeat st jid token now1 now2 = Inr st'"
  shows "jobs_ok st'"
proof -
  note b = beat_jobs [OF assms(2)]
  have "map l_job (leases st') = map l_job (leases st)"
    by (simp add: b(2))
  then have "distinct (map l_job (leases st'))"
    using assms(1) by (simp only: jobs_ok_def)
  moreover have "list_all (\<lambda>l. list_ex (\<lambda>r. j_id r = l_job l \<and> j_status r = ''running'') (jobs st)) (leases st')"
    using assms(1) by (auto simp: b jobs_ok_def list_all_iff)
  ultimately show ?thesis
    using assms(1) by (simp add: jobs_ok_def b(1))
qed

lemma recover_one_ok: "jobs_ok st \<Longrightarrow> jobs_ok (recover_one at' jid st)"
  by (rule touched_ok [OF _ recover_one_jobs(1)])
    (auto simp: recover_one_jobs(2) jobs_ok_def distinct_map_filter)

lemma recover_all_ok: "jobs_ok st \<Longrightarrow> jobs_ok (fold (recover_one at') ids st)"
  by (induction ids arbitrary: st) (auto intro: recover_one_ok)

lemma finish_touched:
  assumes "jobs_ok st" and "row \<in> set (jobs st)" and "j_id row = jid" and "j_project row = project"
  shows "touched jid (\<lambda>r. r\<lparr>j_status := s, j_finished := a, j_result := out\<rparr>) st (finish_job jid project s a out d b st)"
    and "leases (finish_job jid project s a out d b st) = filter (\<lambda>l. l_job l \<noteq> jid) (leases st)"
proof -
  have "r = row" if "r \<in> set (jobs st)" "j_id r = jid" for r
    using job_unique [OF assms(1) that(1) assms(2)] that(2) assms(3) by simp
  then show "touched jid (\<lambda>r. r\<lparr>j_status := s, j_finished := a, j_result := out\<rparr>) st
      (finish_job jid project s a out d b st)"
    using assms(4) by (auto simp: touched_def finish_job_def Let_def)
  show "leases (finish_job jid project s a out d b st) = filter (\<lambda>l. l_job l \<noteq> jid) (leases st)"
    by (simp add: finish_job_def Let_def)
qed

lemma finish_ok:
  assumes "jobs_ok st" and "row \<in> set (jobs st)" and "j_id row = jid" and "j_project row = project"
    and "s \<in> set result_statuses"
  shows "jobs_ok (finish_job jid project s a out d b st)"
  using finish_touched [OF assms(1-4), where s = s and a = a and out = out and d = d and b = b] closed_status [OF assms(5)] assms(1)
  by (intro touched_ok [OF assms(1) finish_touched(1) [OF assms(1-4)]])
    (auto simp: active_def jobs_ok_def distinct_map_filter)

lemma publish_ok:
  assumes "jobs_ok st"
    and "publish_result parse other persist st t job backend result ev fids now at' = Inr (envelope, st')"
  shows "jobs_ok st'"
proof -
  from publish_jobs [OF assms(2)] show ?thesis
  proof (elim disjE exE conjE)
    assume "st' = st" then show ?thesis using assms(1) by simp
  next
    fix jid out detail st2 row
    assume h: "row \<in> set (jobs st)" "j_id row = jid" "j_project row = tr_project t" "same_jobs st st2"
      "r_status result \<in> set result_statuses"
      "st' = finish_job jid (tr_project t) (r_status result) at' out detail at' st2"
    have "jobs_ok st2" "row \<in> set (jobs st2)"
      using h(1,4) assms(1) by (auto simp: same_jobs_ok) (simp add: same_jobs_def)
    then show ?thesis
      unfolding h(6) using h(2,3,5) by (rule finish_ok)
  qed
qed

lemma job_step_ok: "job_step parse other persist st st' \<Longrightarrow> jobs_ok st \<Longrightarrow> jobs_ok st'"
proof (induction rule: job_step.induct)
  case (start t request jid revision at' job)
  then show ?case
    using start_jobs [OF start.hyps] by (auto intro: start_ok)
next
  case (recover st project now at' report st')
  then show ?case
    by (auto simp: recover_jobs_def Let_def intro: recover_all_ok)
qed (auto simp: same_jobs_ok intro: claim_ok beat_ok publish_ok dest: quiet_ops import_quiet)

section \<open>Every step refines the phases\<close>

lemma phase_touched:
  assumes "touched jid f st st'" and "j \<noteq> jid" and "lease_of st' j = lease_of st j"
  shows "phase st' j = phase st j"
proof -
  have "job_of st' j = job_of st j"
    using touched_job_of [OF assms(1), of j] assms(2) by (cases "job_of st j") simp_all
  then show ?thesis
    by (simp only: phase_def assms(3))
qed

lemma phase_closed:
  "job_of st j = Some r \<Longrightarrow> j_status r \<noteq> ''queued'' \<Longrightarrow> j_status r \<noteq> ''running'' \<Longrightarrow> phase st j = Closed"
  by (simp add: phase_def)

lemma phase_Absent: "phase st j = Absent \<longleftrightarrow> job_of st j = None"
  by (auto simp: phase_def split: option.splits)

lemma recover_one_phase:
  "phase (recover_one at' jid st) j = (if j = jid \<and> phase st j \<noteq> Absent then Closed else phase st j)"
proof (cases "j = jid")
  case True
  show ?thesis
    using touched_job_of [OF recover_one_jobs(1) [of jid at' st], of j] True
    by (cases "job_of st j") (auto simp: phase_def split: option.splits)
next
  case False
  have "lease_of (recover_one at' jid st) j = lease_of st j"
    using False by (simp add: lease_of_def recover_one_jobs(2) find_filter_other)
  with False show ?thesis
    using phase_touched [OF recover_one_jobs(1)] by simp
qed

lemma recover_all_phase:
  "phase (fold (recover_one at') ids st) j = (if j \<in> set ids \<and> phase st j \<noteq> Absent then Closed else phase st j)"
  by (induction ids arbitrary: st) (auto simp: recover_one_phase)

lemma start_phase:
  assumes "job_of st jid = None" and "leases st' = leases st" and "jobs st' = jobs st @ [r]"
    and "j_id r = jid" and "j_status r = ''queued''"
  shows "phase st' j = (if j = jid then Queued else phase st j)"
proof -
  have "job_of st' j = (if j = jid then Some r else job_of st j)"
    using assms by (auto simp: job_of_def find_append split: option.splits)
  moreover have "lease_of st' j = lease_of st j"
    by (simp add: lease_of_def assms(2))
  ultimately show ?thesis
    using assms(5) by (simp add: phase_def split: option.splits)
qed

lemma claim_phase:
  assumes "claim_commit st project jid token now1 now2 at' = Inr st'"
  shows "phase st' j = (if j = jid then Owned token else phase st j)"
    and "phase st jid \<in> {Queued, Orphan} \<or> \<not> jobs_ok st"
proof -
  note c = claim_jobs [OF assms]
  from c(1) obtain r where r: "job_of st jid = Some r"
    by (cases "job_of st jid") (auto simp: job_of_None list_ex_iff)
  have lease: "lease_of st' j = (if j = jid then Some \<lparr>l_job = jid, l_token = token, l_deadline = now1 + 30000,
      l_heartbeat = now2\<rparr> else lease_of st j)"
    using c(2,4) by (auto simp: lease_of_def find_append split: option.splits)
  show "phase st' j = (if j = jid then Owned token else phase st j)"
  proof (cases "j = jid")
    case True
    then show ?thesis
      using touched_job_of [OF c(3), of j] r lease by (simp add: phase_def)
  next
    case False
    then show ?thesis
      using phase_touched [OF c(3) False] lease by simp
  qed
  show "phase st jid \<in> {Queued, Orphan} \<or> \<not> jobs_ok st"
    using c(1,2) job_of_in by (fastforce simp: phase_def active_def)
qed

lemma beat_phase:
  assumes "heartbeat st jid token now1 now2 = Inr st'"
  shows "phase st' j = phase st j"
proof -
  note b = beat_jobs [OF assms]
  have "lease_of st' j = map_option (\<lambda>l. if l_job l = jid \<and> l_token l = token
      then l\<lparr>l_heartbeat := now1, l_deadline := now2 + 30000\<rparr> else l) (lease_of st j)"
    unfolding lease_of_def b(2) by (rule find_map_same) auto
  moreover have "job_of st' j = job_of st j"
    by (simp add: job_of_def b(1))
  ultimately show ?thesis
    by (simp add: phase_def split: option.splits)
qed

lemma finish_phase:
  assumes "jobs_ok st" and "row \<in> set (jobs st)" and "j_id row = jid" and "j_project row = project"
    and "s \<in> set result_statuses"
  shows "phase (finish_job jid project s a out d b st) j = (if j = jid then Closed else phase st j)"
proof (cases "j = jid")
  case True
  have "job_of st jid = Some row"
    using job_of_in [OF assms(1,2)] assms(3) by simp
  then show ?thesis
    using touched_job_of [OF finish_touched(1) [OF assms(1-4), where s = s and a = a and out = out and d = d and b = b], of j] True closed_status [OF assms(5)]
    by (auto intro: phase_closed)
next
  case False
  have "lease_of (finish_job jid project s a out d b st) j = lease_of st j"
    using False finish_touched(2) [OF assms(1-4), where s = s and a = a and out = out and d = d and b = b] by (simp add: lease_of_def find_filter_other)
  with False show ?thesis
    using phase_touched [OF finish_touched(1) [OF assms(1-4)]] by simp
qed

lemma publish_phase:
  assumes "jobs_ok st"
    and "publish_result parse other persist st t job backend result ev fids now at' = Inr (envelope, st')"
  shows "phase_step (phase st j) (phase st' j)"
proof -
  from publish_jobs [OF assms(2)] show ?thesis
  proof (elim disjE exE conjE)
    assume "st' = st" then show ?thesis by (simp add: phase_step.stay)
  next
    fix jid out detail st2 row
    assume h: "row \<in> set (jobs st)" "j_id row = jid" "j_project row = tr_project t" "same_jobs st st2"
      "r_status result \<in> set result_statuses"
      "st' = finish_job jid (tr_project t) (r_status result) at' out detail at' st2"
    have st2: "jobs_ok st2" "row \<in> set (jobs st2)"
      using h(1,4) assms(1) by (auto simp: same_jobs_ok) (simp add: same_jobs_def)
    have "phase st' j = (if j = jid then Closed else phase st j)"
      unfolding h(6) finish_phase [OF st2 h(2,3,5)] by (simp add: same_jobs_phase [OF h(4)])
    moreover have "phase st jid \<noteq> Absent"
      using job_of_in [OF assms(1) h(1)] h(2) by (simp add: phase_Absent)
    ultimately show ?thesis
      by (auto intro: phase_step.intros)
  qed
qed

lemma quiet_phase: "same_jobs st st' \<Longrightarrow> phase_step (phase st j) (phase st' j)"
  by (simp add: same_jobs_phase phase_step.stay)

lemma job_step_phase:
  "job_step parse other persist st st' \<Longrightarrow> jobs_ok st \<Longrightarrow> phase_step (phase st j) (phase st' j)"
proof (induction rule: job_step.induct)
  case (start st t request jid revision at' job st')
  from start_jobs [OF start.hyps] show ?case
  proof (elim disjE exE conjE)
    assume "st' = st" then show ?thesis by (simp add: phase_step.stay)
  next
    fix r
    assume h: "job_of st jid = None" "leases st' = leases st" "jobs st' = jobs st @ [r]" "j_id r = jid"
      "j_status r = ''queued''"
    then have "phase st' j = (if j = jid then Queued else phase st j)"
      by (rule start_phase)
    moreover have "phase st jid = Absent"
      using h(1) by (simp add: phase_Absent)
    ultimately show ?thesis
      by (auto intro: phase_step.intros)
  qed
next
  case (claim st project jid token now1 now2 at' st')
  then show ?case
    using claim_phase(1) [OF claim.hyps, of j] claim_phase(2) [OF claim.hyps] by (auto intro: phase_step.intros)
next
  case (recover st project now at' report st')
  then show ?case
    by (auto simp: recover_jobs_def Let_def recover_all_phase intro: phase_step.intros)
next
  case (publish st t job backend result ev fids now at' envelope st')
  then show ?case by (rule publish_phase [rotated])
qed (auto simp: beat_phase intro: phase_step.stay quiet_phase quiet_ops import_quiet)

lemma closed_stays:
  assumes "(job_step parse other persist)\<^sup>*\<^sup>* st st'" and "jobs_ok st" and "phase st j = Closed"
  shows "phase st' j = Closed \<and> jobs_ok st'"
  using assms
proof (induction rule: rtranclp_induct)
  case (step y z)
  have "phase_step (phase y j) (phase z j)"
    using step job_step_phase by blast
  then show ?case
    using step job_step_ok by (auto simp: phase_step_Closed)
qed simp

section \<open>A closed job's row is final\<close>

lemma phase_Closed_iff: "phase st j = Closed \<longleftrightarrow> (\<exists>r. job_of st j = Some r \<and> \<not> active r)"
  by (auto simp: phase_def active_def split: option.splits)

lemma recover_all_row:
  "j \<notin> set ids \<Longrightarrow> job_of (fold (recover_one at') ids st) j = job_of st j"
proof (induction ids arbitrary: st)
  case (Cons i ids)
  have "job_of (recover_one at' i st) j = job_of st j"
    using touched_job_of [OF recover_one_jobs(1) [of i at' st], of j] Cons.prems
    by (cases "job_of st j") simp_all
  then show ?case
    using Cons by simp
qed simp

lemma quiet_row: "same_jobs st st' \<Longrightarrow> job_of st j = Some r \<Longrightarrow> job_of st' j = Some r"
  by (simp add: same_jobs_job_of)

lemma closed_row_step:
  assumes "job_step parse other persist st st'" and "jobs_ok st" and "job_of st j = Some r" and "\<not> active r"
  shows "job_of st' j = Some r"
  using assms
proof (induction rule: job_step.induct)
  case (start st t request jid revision at' job st')
  from start_jobs [OF start.hyps] start.prems show ?case
    by (auto simp: job_of_def find_append)
next
  case (claim st project jid token now1 now2 at' st')
  have "j \<noteq> jid"
    using claim_jobs(1) [OF claim.hyps] claim.prems job_of_in by fastforce
  then show ?case
    using touched_job_of [OF claim_jobs(3) [OF claim.hyps], of j] claim.prems by simp
next
  case (beat st jid token now1 now2 st')
  then show ?case
    by (simp add: job_of_def beat_jobs(1))
next
  case (recover st project now at' report st')
  have "j \<notin> set (map j_id (filter (expired st project now) (jobs st)))"
    using recover.prems job_of_in by (fastforce simp: expired_def active_def)
  then show ?case
    using recover by (auto simp: recover_jobs_def Let_def recover_all_row)
next
  case (publish st t job backend result ev fids now at' envelope st')
  from publish_jobs [OF publish.hyps] show ?case
  proof (elim disjE exE conjE)
    assume "st' = st" then show ?thesis using publish.prems by simp
  next
    fix jid out detail st2 row
    assume h: "row \<in> set (jobs st)" "j_id row = jid" "j_project row = tr_project t" "active row" "same_jobs st st2"
      "st' = finish_job jid (tr_project t) (r_status result) at' out detail at' st2"
    have "jobs_ok st2" "row \<in> set (jobs st2)"
      using h(1,5) publish.prems by (auto simp: same_jobs_ok) (simp add: same_jobs_def)
    note t = touched_job_of [OF finish_touched(1) [OF this h(2,3)], where j = j]
    have "j \<noteq> jid"
      using h(1,2,4) publish.prems job_of_in by fastforce
    then show ?thesis
      using t same_jobs_job_of [OF h(5)] publish.prems by (simp add: h(6))
  qed
qed (auto intro: quiet_row quiet_ops import_quiet)

lemma closed_row_steps:
  assumes "(job_step parse other persist)\<^sup>*\<^sup>* st st'" and "jobs_ok st" and "job_of st j = Some r" and "\<not> active r"
  shows "job_of st' j = Some r \<and> jobs_ok st'"
  using assms
proof (induction rule: rtranclp_induct)
  case (step y z)
  then show ?case using closed_row_step job_step_ok by blast
qed simp

lemma owned_stays:
  assumes "(job_step parse other persist)\<^sup>*\<^sup>* st st'" and "jobs_ok st" and "phase st j = Owned token"
  shows "phase st' j \<in> {Owned token, Closed} \<and> jobs_ok st'"
  using assms
proof (induction rule: rtranclp_induct)
  case (step y z)
  have "phase_step (phase y j) (phase z j)"
    using step job_step_phase by blast
  then show ?case
    using step job_step_ok by (auto simp: phase_step_Closed phase_step_Owned)
qed simp

text \<open>No operation ever moves a job back.\<close>

lemma phases_progress:
  assumes "(job_step parse other persist)\<^sup>*\<^sup>* st st'" and "jobs_ok st"
  shows "phase st j \<le> phase st' j \<and> jobs_ok st'"
  using assms
proof (induction rule: rtranclp_induct)
  case (step y z)
  have "phase_step (phase y j) (phase z j)"
    using step job_step_phase by blast
  then show ?case
    using step job_step_ok by (meson order_trans phase_step_progress)
qed simp

section \<open>Properties\<close>

text \<open>A workspace with one running job, for the concrete instances.\<close>

definition demo_target :: target_rec where
  "demo_target = \<lparr>tr_id = ''tgt_1'', tr_project = ''p'', tr_sha = ''s'', tr_name = ''a.exe'', tr_size = 1\<rparr>"

definition demo_job :: "string \<Rightarrow> string \<Rightarrow> string \<Rightarrow> job_row" where
  "demo_job jid status result = \<lparr>j_id = jid, j_project = ''p'', j_target = ''tgt_1'', j_revision = ''rev_'' @ jid,
     j_status = status, j_request = ''{}'', j_created = ''t0'', j_finished = [], j_result = result\<rparr>"

definition demo_store :: store where
  "demo_store = \<lparr>projects = [\<lparr>p_name = ''p'', p_id = ''prj_1'', p_created = ''t0''\<rparr>],
     targets = [\<lparr>t_id = ''tgt_1'', t_project = ''p'', t_sha = ''s'', t_name = ''a.exe'', t_size = 1, t_created = ''t0''\<rparr>],
     jobs = [demo_job ''job_1'' ''running'' [], demo_job ''job_2'' ''completed'' ''{}'', demo_job ''job_3'' ''queued'' []],
     idems = [\<lparr>i_project = ''p'', i_key = ''k'', i_request = ''{'' @ quoted ''idempotency_key'' @ '':'' @ quoted ''k'' @ ''}'',
       i_job = ''job_1''\<rparr>],
     leases = [\<lparr>l_job = ''job_1'', l_token = ''lease_1'', l_deadline = 100, l_heartbeat = 1\<rparr>],
     job_log = [], derivation_rows = [], evidence_rows = [], function_rows = [], view_rows = [], cancels = [],
     objects = (\<lambda>_. None)\<rparr>"

abbreviation no_persist :: "store \<Rightarrow> json \<Rightarrow> json res" where
  "no_persist \<equiv> (\<lambda>_ _. Inr JNull)"

lemma demo_ok: "jobs_ok demo_store" "phase demo_store ''job_1'' = Owned ''lease_1''"
  "job_of demo_store ''job_2'' = Some (demo_job ''job_2'' ''completed'' ''{}'')"
  "\<not> active (demo_job ''job_2'' ''completed'' ''{}'')"
  by code_simp+

definition demo_beat :: store where
  "demo_beat = (case heartbeat demo_store ''job_1'' ''lease_1'' 5 6 of Inr st \<Rightarrow> st | Inl _ \<Rightarrow> demo_store)"

lemma demo_step: "job_step no_parse (\<lambda>_. None) no_persist demo_store demo_beat"
  by (rule job_step.beat [of _ "''job_1''" "''lease_1''" 5 6]) (simp add: demo_beat_def demo_store_def heartbeat_def)

text \<open>
  C1. Every operation of the project store that writes its tables keeps the job tables
  consistent (identifiers unique, one lease per job and only for a running job, a result only
  in a finished job), and changes every job at most as the phase machine allows:
  absent, queued, owned by one lease, orphaned, closed.
\<close>

theorem job_step_refines_phases:
  assumes "job_step parse other persist st st'" and "jobs_ok st"
  shows "jobs_ok st' \<and> phase_step (phase st j) (phase st' j)"
  using job_step_ok [OF assms] job_step_phase [OF assms] by blast

theorem job_step_refines_phases_witness:
  "jobs_ok demo_beat \<and> phase_step (phase demo_store ''job_1'') (phase demo_beat ''job_1'')"
  by (rule job_step_refines_phases [OF demo_step demo_ok(1)])

text \<open>
  C3. The row of a finished job (its status, request and result) is final: no sequence of
  operations of any processes changes it.
\<close>

theorem finished_job_is_final:
  assumes "(job_step parse other persist)\<^sup>*\<^sup>* st st'" and "jobs_ok st" and "job_of st j = Some r" and "\<not> active r"
  shows "job_of st' j = Some r"
  using closed_row_steps [OF assms] by blast

theorem finished_job_is_final_witness:
  "job_of demo_beat ''job_2'' = Some (demo_job ''job_2'' ''completed'' ''{}'')"
  by (rule finished_job_is_final [OF r_into_rtranclp [of "job_step no_parse (\<lambda>_. None) no_persist", OF demo_step] demo_ok(1,3,4)])

text \<open>
  C2. A lease is exclusive: once a worker has claimed a job, whatever the store does next the
  job is either still owned under that token or closed; and another claim of it is refused
  while it is owned.
\<close>

theorem claimed_job_keeps_owner:
  assumes "jobs_ok st" and "claim_commit st project jid token now1 now2 at' = Inr st1"
    and "(job_step parse other persist)\<^sup>*\<^sup>* st1 st2"
  shows "phase st2 jid \<in> {Owned token, Closed} \<and>
    (\<forall>project' token' n1 n2 at2. \<not> is_ok (claim_commit st2 project' jid token' n1 n2 at2))"
proof -
  have "phase st1 jid = Owned token"
    using claim_phase(1) [OF assms(2), of jid] by simp
  from owned_stays [OF assms(3) claim_ok [OF assms(1,2)] this]
  have p: "phase st2 jid \<in> {Owned token, Closed}" "jobs_ok st2"
    by auto
  have "\<not> is_ok (claim_commit st2 project' jid token' n1 n2 at2)" for project' token' n1 n2 at2
  proof (cases "claim_commit st2 project' jid token' n1 n2 at2")
    case (Inr st3)
    then show ?thesis
      using claim_phase(2) [OF Inr] p by auto
  qed simp
  with p(1) show ?thesis by blast
qed

definition demo_claim :: store where
  "demo_claim = (case claim_commit demo_store ''p'' ''job_3'' ''lease_3'' 7 8 ''t1'' of Inr st \<Rightarrow> st | Inl _ \<Rightarrow> demo_store)"

lemma demo_claimed: "claim_commit demo_store ''p'' ''job_3'' ''lease_3'' 7 8 ''t1'' = Inr demo_claim"
  by (simp add: demo_claim_def demo_store_def demo_job_def claim_commit_def)

theorem claimed_job_keeps_owner_witness:
  "phase demo_claim ''job_3'' \<in> {Owned ''lease_3'', Closed}"
  by (rule claimed_job_keeps_owner [OF demo_ok(1) demo_claimed
      rtranclp.rtrancl_refl [of "job_step no_parse (\<lambda>_. None) no_persist"], THEN conjunct1])

text \<open>
  C5. Recovery closes exactly the running jobs of the project whose lease has expired or is
  missing: every other job, in particular one with a live lease, keeps its phase and its lease.
\<close>

theorem recover_only_expired:
  assumes "recover_jobs st project now at' = Inr (report, st')" and "jobs_ok st"
  shows "(\<forall>j. phase st' j = (case job_of st j of
        Some r \<Rightarrow> if expired st project now r then Closed else phase st j
      | None \<Rightarrow> Absent)) \<and>
    (\<forall>j l. lease_of st j = Some l \<and> now \<le> l_deadline l \<longrightarrow> phase st' j = Owned (l_token l))"
proof -
  let ?ids = "map j_id (filter (expired st project now) (jobs st))"
  have st': "st' = fold (recover_one at') ?ids st"
    using assms(1) by (auto simp: recover_jobs_def Let_def)
  have mem: "j \<in> set ?ids \<longleftrightarrow> expired st project now r" if "job_of st j = Some r" for j r
    using job_of_SomeD [OF that] job_unique [OF assms(2)] by auto
  have main: "phase st' j = (case job_of st j of Some r \<Rightarrow> if expired st project now r then Closed else phase st j
      | None \<Rightarrow> Absent)" for j
  proof (cases "job_of st j")
    case None
    then show ?thesis
      using phase_Absent [of st j] by (simp add: st' recover_all_phase)
  next
    case (Some r)
    then show ?thesis
      using phase_Absent [of st j] mem [OF Some] by (simp add: st' recover_all_phase)
  qed
  have "phase st' j = Owned (l_token l)" if l: "lease_of st j = Some l" "now \<le> l_deadline l" for j l
  proof -
    obtain r where r: "job_of st j = Some r" "j_status r = ''running''"
      using lease_running [OF assms(2) l(1)] by auto
    then have "\<not> expired st project now r"
      using l job_of_SomeD [OF r(1)] by (auto simp: expired_def lease_of_def)
    then show ?thesis
      using main [of j] r l(1) by (simp add: phase_def)
  qed
  with main show ?thesis by blast
qed

definition demo_recovered :: "json \<times> store" where
  "demo_recovered = (case recover_jobs demo_store ''p'' 50 ''t1'' of Inr x \<Rightarrow> x | Inl _ \<Rightarrow> (JNull, demo_store))"

lemma demo_recover: "recover_jobs demo_store ''p'' 50 ''t1'' = Inr (fst demo_recovered, snd demo_recovered)"
  by (simp add: demo_recovered_def demo_store_def recover_jobs_def require_project_def validate_name_def Let_def
      is_alnum_def is_lower_def)

theorem recover_only_expired_witness:
  "phase (snd demo_recovered) ''job_1'' = Owned ''lease_1''"
proof -
  have "lease_of demo_store ''job_1'' = Some \<lparr>l_job = ''job_1'', l_token = ''lease_1'', l_deadline = 100, l_heartbeat = 1\<rparr>"
    by (simp add: lease_of_def demo_store_def)
  then show ?thesis
    using recover_only_expired [OF demo_recover demo_ok(1), THEN conjunct2, rule_format, OF conjI] by fastforce
qed

text \<open>What a publication has checked of the job and its row, and what it writes.\<close>

lemma case_throwE:
  assumes "(case x of None \<Rightarrow> throw m | Some r \<Rightarrow> g r) = Inr y"
  obtains r where "x = Some r" and "g r = Inr y"
  using assms by (cases x) simp_all

lemma if_throwE:
  assumes "(if c then throw m else x) = Inr y"
  obtains "\<not> c" and "x = Inr y"
  using assms by (simp split: if_splits)

lemma publish_check_job:
  assumes "publish_check parse st t job backend now = Inr prior" and "jobs_ok st"
  obtains jid revision request stored r where "jat ''id'' job = Inr (JStr jid)" and "jat ''revision'' job = Inr (JStr revision)"
    and "jat ''request'' job = Inr request" and "jat ''backend'' request = Inr (JStr backend)"
    and "parse (j_request r) = Inr stored" and "jeq stored request"
    and "job_of st jid = Some r" and "j_project r = tr_project t" and "j_target r = tr_id t" and "j_revision r = revision"
    and "if j_result r \<noteq> [] then \<exists>v. prior = Some v \<and> parse (j_result r) = Inr v
      else prior = None \<and> active r \<and>
        (\<forall>l. lease_of st jid = Some l \<longrightarrow> jvalue_str ''lease_token'' [] job = Inr (l_token l) \<and> now \<le> l_deadline l)"
proof -
  obtain jid revision r stored request b sha where
    job: "jstr_at ''id'' job = Inr jid" "jstr_at ''revision'' job = Inr revision"
      "find (\<lambda>r. j_id r = jid \<and> j_project r = tr_project t \<and> j_target r = tr_id t \<and> j_revision r = revision) (jobs st) = Some r"
      "parse (j_request r) = Inr stored" "jat ''request'' job = Inr request" "\<not> \<not> jeq stored request"
      "jstr_at ''backend'' request = Inr b" "\<not> b \<noteq> backend"
    and rest: "(if j_result r \<noteq> [] then bindE (parse (j_result r)) (\<lambda>v. Inr (Some v))
      else if j_status r \<noteq> ''queued'' \<and> j_status r \<noteq> ''running'' then throw ''cannot publish into terminal job''
      else case find (\<lambda>l. l_job l = jid) (leases st) of
        None \<Rightarrow> Inr None
      | Some l \<Rightarrow> bindE (jvalue_str ''lease_token'' [] job) (\<lambda>token.
          if l_token l \<noteq> token \<or> l_deadline l < now then throw ''publication requires live owned lease'' else Inr None)) = Inr prior"
    using assms(1) unfolding publish_check_def
    by (elim bindE_elims case_throwE if_throwE) (rule that, assumption+)
  note row = find_SomeD [OF job(3)]
  have "if j_result r \<noteq> [] then \<exists>v. prior = Some v \<and> parse (j_result r) = Inr v
      else prior = None \<and> active r \<and>
        (\<forall>l. lease_of st jid = Some l \<longrightarrow> jvalue_str ''lease_token'' [] job = Inr (l_token l) \<and> now \<le> l_deadline l)"
    using rest by (auto simp: active_def lease_of_def split: option.splits if_splits)
  with job row job_of_in [OF assms(2), of r] show ?thesis by (intro that) simp_all
qed

lemma publish_function_evidence:
  "publish_function t backend ev fv st = Inr st' \<Longrightarrow> evidence_rows st' = evidence_rows st"
  by (cases fv) (auto simp: publish_function_def Let_def split: if_splits option.splits)

lemma publish_functions_evidence:
  assumes "foldE (publish_function t backend ev) xs st = Inr st'"
  shows "evidence_rows st' = evidence_rows st"
  by (rule foldE_invariant [OF assms, where P = "\<lambda>s. evidence_rows s = evidence_rows st"]) (auto dest: publish_function_evidence)

lemma if_constraintE:
  assumes "(if c then constraint else x) = Inr y"
  obtains "\<not> c" and "x = Inr y"
  using assms by (simp split: if_splits)

lemma publish_rows_written:
  assumes "publish_rows parse other persist st t job backend result ev fids at' = Inr (envelope, st')"
    and "jat ''id'' job = Inr (JStr jid)" and "jat ''revision'' job = Inr (JStr revision)"
  obtains native index etext out detail st2 where "parse (r_json result) = Inr native"
    and "envelope = jput ''index'' index
      (envelope_json t ev revision jid backend result (sha256_text (r_json result)) native)"
    and "dump envelope = Inr out" and "same_jobs st st2" and "r_status result \<in> set result_statuses"
    and "evidence_rows st2 = evidence_rows st @ [\<lparr>v_id = ev, v_project = tr_project t, v_job = jid, v_revision = revision,
      v_backend = backend, v_sha = sha256_text (r_json result), v_status = r_status result, v_record = etext, v_created = at'\<rparr>]"
    and "st' = finish_job jid (tr_project t) (r_status result) at' out detail at' st2"
proof -
  obtain native raw fs revision' jid' request lineage etext index st2 out u where p: "parse (r_json result) = Inr native"
    "publish_blob (objects st) (r_json result) = Inr (raw, fs)" "jstr_at ''revision'' job = Inr revision'" "jstr_at ''id'' job = Inr jid'"
    "validate_contract other ''result'' (envelope_json t ev revision' jid' backend result raw native) = Inr u"
    "foldE (publish_function t backend ev) (zip fids (collect_functions 0 native)) (st\<lparr>objects := fs, evidence_rows := evidence_rows st @
       [\<lparr>v_id = ev, v_project = tr_project t, v_job = jid', v_revision = revision', v_backend = backend, v_sha = raw,
         v_status = r_status result, v_record = etext, v_created = at'\<rparr>]\<rparr>) = Inr st2"
    "dump (jput ''index'' index (envelope_json t ev revision' jid' backend result raw native)) = Inr out"
    "Inr (jput ''index'' index (envelope_json t ev revision' jid' backend result raw native),
       finish_job jid' (tr_project t) (r_status result) at' out (''{'' @ quoted ''evidence_id'' @ '':'' @ quoted ev @ ''}'') at' st2)
     = (Inr (envelope, st') :: (json \<times> store) res)"
    using assms(1) unfolding publish_rows_def Let_def
    by (elim bindE_elims if_constraintE) (rule that, assumption+)
  have id: "revision' = revision" "jid' = jid" "raw = sha256_text (r_json result)"
    using assms(2,3) p(2-4) publish_blob_Inr [OF p(2)] by simp_all
  have status: "r_status result \<in> set result_statuses" using p(5) by (cases u) (auto dest: envelope_status)
  show ?thesis
    using p(1-8) publish_functions_quiet [OF p(6)] publish_functions_evidence [OF p(6)] status
    by (intro that [of native index out st2 etext "''{'' @ quoted ''evidence_id'' @ '':'' @ quoted ev @ ''}''"]) (simp_all add: id same_jobs_def)
qed

lemma finish_job_rows:
  assumes "jobs_ok st" and "row \<in> set (jobs st)" and "j_id row = jid" and "j_project row = project"
  shows "job_of (finish_job jid project s a out d b st) j =
      (if j = jid then Some (row\<lparr>j_status := s, j_finished := a, j_result := out\<rparr>) else job_of st j)"
    and "lease_of (finish_job jid project s a out d b st) jid = None"
    and "evidence_rows (finish_job jid project s a out d b st) = evidence_rows st"
proof -
  let ?f = "\<lambda>r. if j_id r = jid \<and> j_project r = project then r\<lparr>j_status := s, j_finished := a, j_result := out\<rparr> else r"
  have rows: "jobs (finish_job jid project s a out d b st) = map ?f (jobs st)"
    by (simp add: finish_job_def Let_def set_jobs_def)
  have "find (\<lambda>r. j_id r = j) (map ?f xs) = map_option ?f (find (\<lambda>r. j_id r = j) xs)" for xs
    by (induction xs) auto
  then have "job_of (finish_job jid project s a out d b st) j = map_option ?f (job_of st j)"
    by (simp add: job_of_def rows)
  then show "job_of (finish_job jid project s a out d b st) j =
      (if j = jid then Some (row\<lparr>j_status := s, j_finished := a, j_result := out\<rparr>) else job_of st j)"
    using job_of_in [OF assms(1,2)] assms(3,4) by (cases "job_of st j") (auto dest: job_of_SomeD)
  show "lease_of (finish_job jid project s a out d b st) jid = None"
    by (auto simp: finish_job_def Let_def lease_of_def find_None_iff)
  show "evidence_rows (finish_job jid project s a out d b st) = evidence_rows st"
    by (simp add: finish_job_def Let_def set_jobs_def log_event_def)
qed

text \<open>
  C4. A result is published once, by the live owner where there is one.  The job of the message names a row of the
  same project, target, revision and request.  If that row has a result already, the publication returns that
  result and changes nothing.  Otherwise the row is active; if the job is leased, the message carries the token of
  the lease and the lease has not expired (an active job that nobody has claimed has no owner, and its result is
  taken); the returned envelope is the report of this job, of these native bytes and of the evidence row that is
  appended for them; it is the envelope, written out, that closes the row and removes the lease; and no other job
  changes its row or its phase.
\<close>

theorem publication_needs_live_lease:
  assumes "publish_result parse other persist st t job backend result ev fids now at' = Inr (envelope, st')"
    and "jobs_ok st"
  shows "\<exists>jid revision request stored r.
    jat ''id'' job = Inr (JStr jid) \<and> jat ''revision'' job = Inr (JStr revision) \<and> jat ''request'' job = Inr request \<and>
    jat ''backend'' request = Inr (JStr backend) \<and> parse (j_request r) = Inr stored \<and> jeq stored request \<and>
    job_of st jid = Some r \<and> j_project r = tr_project t \<and> j_target r = tr_id t \<and> j_revision r = revision \<and>
    (if j_result r \<noteq> [] then parse (j_result r) = Inr envelope \<and> st' = st
     else active r \<and>
       (\<forall>l. lease_of st jid = Some l \<longrightarrow> jvalue_str ''lease_token'' [] job = Inr (l_token l) \<and> now \<le> l_deadline l) \<and>
       (\<exists>native out e. parse (r_json result) = Inr native \<and>
         jat ''request_id'' envelope = Inr (JStr jid) \<and> jat ''result_revision'' envelope = Inr (JStr revision) \<and>
         jat ''status'' envelope = Inr (JStr (r_status result)) \<and> jat ''backend'' envelope = Inr (JStr backend) \<and>
         jat ''artifact_sha256'' envelope = Inr (JStr (tr_sha t)) \<and> jat ''data'' envelope = Inr native \<and>
         jat ''evidence_ids'' envelope = Inr (JArr [JStr ev]) \<and>
         jat ''raw_sha256'' envelope = Inr (JStr (sha256_text (r_json result))) \<and>
         dump envelope = Inr out \<and>
         evidence_rows st' = evidence_rows st @ [e] \<and> v_id e = ev \<and> v_job e = jid \<and> v_revision e = revision \<and>
         v_project e = tr_project t \<and> v_backend e = backend \<and> v_sha e = sha256_text (r_json result) \<and>
         job_of st' jid = Some (r\<lparr>j_status := r_status result, j_finished := at', j_result := out\<rparr>) \<and>
         lease_of st' jid = None \<and> phase st' jid = Closed \<and>
         (\<forall>j. j \<noteq> jid \<longrightarrow> phase st' j = phase st j \<and> job_of st' j = job_of st j)))"
proof -
  obtain prior where check: "publish_check parse st t job backend now = Inr prior"
    and rest: "(case prior of Some v \<Rightarrow> Inr (v, st)
      | None \<Rightarrow> publish_rows parse other persist st t job backend result ev fids at') = Inr (envelope, st')"
    using assms(1) by (auto simp: publish_result_def)
  from publish_check_job [OF check assms(2)] obtain jid revision request stored r where
    job: "jat ''id'' job = Inr (JStr jid)" "jat ''revision'' job = Inr (JStr revision)" "jat ''request'' job = Inr request"
      "jat ''backend'' request = Inr (JStr backend)" "parse (j_request r) = Inr stored" "jeq stored request"
      "job_of st jid = Some r" "j_project r = tr_project t" "j_target r = tr_id t" "j_revision r = revision"
    and cases: "if j_result r \<noteq> [] then \<exists>v. prior = Some v \<and> parse (j_result r) = Inr v
      else prior = None \<and> active r \<and>
        (\<forall>l. lease_of st jid = Some l \<longrightarrow> jvalue_str ''lease_token'' [] job = Inr (l_token l) \<and> now \<le> l_deadline l)"
    by metis
  show ?thesis
  proof (cases "j_result r = []")
    case False
    then show ?thesis using job cases rest by auto
  next
    case True
    with cases rest have rows: "publish_rows parse other persist st t job backend result ev fids at' = Inr (envelope, st')" by simp
    from publish_rows_written [OF this job(1,2)] obtain native index etext out detail st2 where w: "parse (r_json result) = Inr native"
      "envelope = jput ''index'' index (envelope_json t ev revision jid backend result (sha256_text (r_json result)) native)"
      "dump envelope = Inr out" "same_jobs st st2" "r_status result \<in> set result_statuses"
      "evidence_rows st2 = evidence_rows st @ [\<lparr>v_id = ev, v_project = tr_project t, v_job = jid, v_revision = revision,
        v_backend = backend, v_sha = sha256_text (r_json result), v_status = r_status result, v_record = etext, v_created = at'\<rparr>]"
      "st' = finish_job jid (tr_project t) (r_status result) at' out detail at' st2" .
    have envelope: "jat ''request_id'' envelope = Inr (JStr jid)" "jat ''result_revision'' envelope = Inr (JStr revision)"
      "jat ''status'' envelope = Inr (JStr (r_status result))" "jat ''backend'' envelope = Inr (JStr backend)"
      "jat ''artifact_sha256'' envelope = Inr (JStr (tr_sha t))" "jat ''data'' envelope = Inr native"
      "jat ''evidence_ids'' envelope = Inr (JArr [JStr ev])" "jat ''raw_sha256'' envelope = Inr (JStr (sha256_text (r_json result)))"
      by (simp_all add: w(2) envelope_json_def json_simps jat_jput_obj del: jat_jput)
    have row: "r \<in> set (jobs st2)" "j_id r = jid" "jobs_ok st2"
      using job_of_SomeD [OF job(7)] w(4) assms(2) by (simp_all add: same_jobs_ok) (simp add: same_jobs_def)
    note phases = finish_phase [OF row(3,1,2) job(8) w(5)]
    note closed = finish_job_rows [OF row(3,1,2) job(8)]
    show ?thesis
      using job cases True w(1,3,6) envelope phases closed
      by (intro exI [of _ jid] exI [of _ revision] exI [of _ request] exI [of _ stored] exI [of _ r] conjI)
        (simp_all add: w(7) same_jobs_phase [OF w(4)] same_jobs_job_of [OF w(4)])
  qed
qed

text \<open>A publication on the running job, by the owner of its lease.\<close>

definition live_target :: target_rec where
  "live_target = demo_target\<lparr>tr_sha := replicate 64 (CHR ''a'')\<rparr>"

definition live_request :: json where
  "live_request = jobj [(''artifact_sha256'', JStr (replicate 64 (CHR ''a''))), (''backend'', JStr ''xair'')]"

definition live_job :: json where
  "live_job = jobj [(''id'', JStr ''job_1''), (''revision'', JStr ''rev_job_1''), (''request'', live_request), (''lease_token'', JStr ''lease_1'')]"

definition live_parse :: "string \<Rightarrow> json res" where
  "live_parse t = Inr (if t = ''{}'' then live_request else JObj [])"

lemma live_publish:
  "\<exists>envelope st'. publish_result live_parse (\<lambda>_. None) no_persist demo_store live_target live_job ''xair''
     \<lparr>r_status = ''completed'', r_json = ''{ }''\<rparr> ''ev_1'' [] 5 ''t1'' = Inr (envelope, st') \<and> evidence_rows st' \<noteq> []"
proof -
  let ?r = "\<lparr>r_status = ''completed'', r_json = ''{ }''\<rparr>" and ?raw = "sha256_text ''{ }''"
  have names: "well_named ''ev_1'' ''rev_job_1'' ''job_1''" unfolding well_named_def by code_simp
  have sha: "length (tr_sha live_target) = 64" "only_of hex_digits (tr_sha live_target)"
    by (simp_all add: live_target_def only_of_def list_all_iff)
  have raw: "length ?raw = 64" "only_of hex_digits ?raw" using sha256_text_shape by blast+
  have project: "tr_project live_target = ''p''" by (simp add: live_target_def demo_target_def)
  have job: "jstr_at ''id'' live_job = Inr ''job_1''" "jstr_at ''revision'' live_job = Inr ''rev_job_1''"
    "jat ''request'' live_job = Inr live_request" "jvalue_str ''lease_token'' [] live_job = Inr ''lease_1''"
    by (simp_all add: live_job_def json_simps jvalue_str_def)
  have request: "jstr_at ''backend'' live_request = Inr ''xair''"
    "jat ''artifact_sha256'' live_request = Inr (JStr (tr_sha live_target))" "is_object live_request"
    by (simp_all add: live_request_def json_simps live_target_def)
  have written: "dumpable live_request"
    unfolding live_request_def using utf8_hex[OF sha(2)] by (intro dumpable_jobj) (simp add: live_target_def utf8_ok_ascii)
  have check: "publish_check live_parse demo_store live_target live_job ''xair'' 5 = Inr None"
    by (simp add: publish_check_def job request live_parse_def demo_store_def demo_job_def live_target_def demo_target_def
        del: jstr_at_eq_Inr)
  have evidence: "validate_contract other ''evidence''
      (evidence_json live_target ''ev_1'' ''rev_job_1'' ''job_1'' ''xair'' ?r ?raw live_request ''t1'') = Inr ()" for other
    using evidence_accepted[OF names _ sha raw request(3)] by simp
  have envelope: "validate_contract other ''result''
      (envelope_json live_target ''ev_1'' ''rev_job_1'' ''job_1'' ''xair'' ?r ?raw (JObj [])) = Inr ()" for other
    by (rule envelope_accepted[OF names sha raw]) (simp_all add: result_statuses_def)
  have "dumpable (evidence_json live_target ''ev_1'' ''rev_job_1'' ''job_1'' ''xair'' ?r ?raw live_request ''t1'')"
    unfolding evidence_json_def using written utf8_hex[OF sha(2)] by (intro dumpable_jobj) (simp add: utf8_ok_ascii project)
  moreover have "dumpable (jput ''index'' x (envelope_json live_target ''ev_1'' ''rev_job_1'' ''job_1'' ''xair'' ?r ?raw (JObj [])))"
    if "dumpable x" for x
    unfolding envelope_json_def using that utf8_hex[OF sha(2)] by (intro dumpable_jput dumpable_jobj) (simp_all add: utf8_ok_ascii completeness_of_def)
  moreover have "publish_blob (objects demo_store) ''{ }'' = Inr (?raw,
      [[''objects'', ''sha256'', take 2 ?raw, drop 2 ?raw] \<mapsto> ''{ }''])"
    by (simp add: demo_store_def publish_blob_empty)
  moreover have "derivations live_parse demo_store (tr_project live_target) (tr_sha live_target) = Inr []"
    by (simp add: project derivations_def require_project_def validate_name_def is_alnum_def is_lower_def is_upper_def
        is_digit_def demo_store_def)
  moreover have "evidence_rows demo_store = []" by (simp add: demo_store_def)
  ultimately show ?thesis
    using evidence envelope
    by (simp add: publish_result_def check publish_rows_def job live_parse_def dump_dumpable Let_def
        finish_job_def log_event_def set_jobs_def del: jstr_at_eq_Inr)
qed

theorem publication_needs_live_lease_witness:
  "\<exists>envelope st' r out. publish_result live_parse (\<lambda>_. None) no_persist demo_store live_target live_job ''xair''
     \<lparr>r_status = ''completed'', r_json = ''{ }''\<rparr> ''ev_1'' [] 5 ''t1'' = Inr (envelope, st') \<and>
     jat ''request_id'' envelope = Inr (JStr ''job_1'') \<and> jat ''evidence_ids'' envelope = Inr (JArr [JStr ''ev_1'']) \<and>
     dump envelope = Inr out \<and> job_of st' ''job_1'' = Some r \<and> j_status r = ''completed'' \<and> j_result r = out \<and>
     lease_of st' ''job_1'' = None"
proof -
  obtain envelope st' where st': "publish_result live_parse (\<lambda>_. None) no_persist demo_store live_target live_job ''xair''
     \<lparr>r_status = ''completed'', r_json = ''{ }''\<rparr> ''ev_1'' [] 5 ''t1'' = Inr (envelope, st')"
    using live_publish by blast
  from publication_needs_live_lease [OF this demo_ok(1)] obtain jid r where
    id: "jat ''id'' live_job = Inr (JStr jid)" and r: "job_of demo_store jid = Some r"
    and cases: "if j_result r \<noteq> [] then live_parse (j_result r) = Inr envelope \<and> st' = demo_store
      else \<exists>out. jat ''request_id'' envelope = Inr (JStr jid) \<and> jat ''evidence_ids'' envelope = Inr (JArr [JStr ''ev_1'']) \<and>
        dump envelope = Inr out \<and> job_of st' jid = Some (r\<lparr>j_status := ''completed'', j_finished := ''t1'', j_result := out\<rparr>) \<and>
        lease_of st' jid = None"
    by (simp split: if_split_asm) metis+
  have "jid = ''job_1''" using id by (simp add: live_job_def json_simps)
  moreover have "j_result r = []" using r calculation by (auto simp: job_of_def demo_store_def demo_job_def)
  ultimately show ?thesis using cases st' by auto
qed

end
