(* ===== verification/Ind_Manifest.thy ===== *)
theory Ind_Manifest
  imports Ind_Revision
begin

text \<open>
  Target system manifests (\<^verbatim>\<open>src/system_manifest.cpp\<close>): the canonical form of an operator's
  declaration of components, launches, environment and limits, its publication as a knowledge
  record, and the preflight that checks the declared artifacts within a byte budget.
\<close>

section \<open>Fields and guest paths\<close>

definition field :: "json \<Rightarrow> string \<Rightarrow> nat \<Rightarrow> string res" where
  "field r key maximum =
     bindE (jstr_at key r) (\<lambda>s.
       throw_if (s = [] \<or> length s > maximum \<or> CHR 0x00 \<in> set s) (''invalid manifest field: '' @ key) (Inr s))"

definition check_array :: "json \<Rightarrow> nat \<Rightarrow> unit res" where
  "check_array r maximum = throw_if (\<not> is_array r \<or> jsize r > maximum) ''manifest list exceeds its bound'' (Inr ())"

definition bad_path_char :: "bool \<Rightarrow> char \<Rightarrow> bool" where
  "bad_path_char windows c =
     (ord c < 32 \<or> ord c = 127 \<or> (windows \<and> ord c \<ge> 128) \<or> c \<in> set '':<>\"|?*'')"

definition reserved_stem :: "string \<Rightarrow> bool" where
  "reserved_stem stem =
     (stem \<in> set [''CON'', ''PRN'', ''AUX'', ''NUL'', ''CONIN$'', ''CONOUT$''] \<or>
      (length stem = 4 \<and> (starts_with stem ''COM'' \<or> starts_with stem ''LPT'') \<and>
       CHR ''1'' \<le> stem ! 3 \<and> stem ! 3 \<le> CHR ''9''))"

definition check_segment :: "bool \<Rightarrow> string \<Rightarrow> unit res" where
  "check_segment windows part =
     throw_if (part = [] \<or> part = ''.'' \<or> part = ''..'' \<or> last part = CHR ''.'' \<or> last part = CHR '' '')
       ''guest path contains unsafe segment''
       (throw_if (windows \<and> reserved_stem (upper_string (takeWhile (\<lambda>c. c \<noteq> CHR ''.'') part)))
         ''guest path contains a reserved Windows device name'' (Inr ()))"

lemma length_after_slash: "length (drop 1 (dropWhile P (c # cs))) < Suc (length cs)"
  using length_dropWhile_le[of P "c # cs"] by simp

text \<open>The loop over the segments: each ends before the next slash or at the end of the path.\<close>

function check_segments :: "bool \<Rightarrow> string \<Rightarrow> unit res" where
  "check_segments windows [] = Inr ()"
| "check_segments windows (c # cs) =
     bindE (check_segment windows (takeWhile (\<lambda>c. c \<noteq> CHR ''/'') (c # cs))) (\<lambda>_.
       check_segments windows (drop 1 (dropWhile (\<lambda>c. c \<noteq> CHR ''/'') (c # cs))))"
  by pat_completeness auto

termination
proof (relation "measure (\<lambda>(windows, s). length s)")
  fix windows c cs
  show "((windows, drop 1 (dropWhile (\<lambda>c. c \<noteq> CHR ''/'') (c # cs))), windows, c # cs) \<in> measure (\<lambda>(windows, s). length s)"
    using length_after_slash[of "\<lambda>c. c \<noteq> CHR ''/''" c cs] by (simp only: in_measure prod.case list.size)
qed simp

definition forward_slashes :: "string \<Rightarrow> string" where
  "forward_slashes = map (\<lambda>c. if c = CHR 0x5C then CHR ''/'' else c)"

definition guest_path :: "string \<Rightarrow> bool \<Rightarrow> string res" where
  "guest_path raw windows =
     (let path = forward_slashes raw in
      throw_if (path = [] \<or> length path > 512 \<or> hd path = CHR ''/'' \<or> last path = CHR ''/'')
        ''guest path must be a bounded relative path'' (
      throw_if (list_ex (bad_path_char windows) path) ''invalid guest path character'' (
      bindE (check_segments windows path) (\<lambda>_. Inr path))))"

section \<open>Components\<close>

record manifest_state =
  m_names :: "string list"
  m_paths :: "string list"
  m_components :: "json list"

definition component_roles :: "string list" where
  "component_roles = [''program'', ''service'', ''library'', ''driver'', ''data'']"

definition overlaps :: "string \<Rightarrow> string \<Rightarrow> bool" where
  "overlaps key existing = (starts_with key (existing @ ''/'') \<or> starts_with existing (key @ ''/''))"

definition path_key :: "bool \<Rightarrow> string \<Rightarrow> string" where
  "path_key windows path = (if windows then lower_string path else path)"

definition add_component :: "store \<Rightarrow> string \<Rightarrow> bool \<Rightarrow> json \<Rightarrow> manifest_state \<Rightarrow> manifest_state res" where
  "add_component st p windows c s =
     bindE (check_keys c [''name'', ''target_id'', ''artifact_sha256'', ''role'', ''path'']) (\<lambda>_.
     bindE (field c ''name'' 64) (\<lambda>name.
     bindE (check_identifier name) (\<lambda>_.
     throw_if (name \<in> set (m_names s)) ''duplicate component name'' (
     bindE (field c ''target_id'' 128) (\<lambda>tid.
     bindE (target st p tid False) (\<lambda>t.
     throw_if (contains c ''artifact_sha256'' \<and> jat ''artifact_sha256'' c \<noteq> Inr (JStr (tr_sha t)))
       ''component target/hash mismatch'' (
     bindE (field c ''role'' 16) (\<lambda>role.
     throw_if (role \<notin> set component_roles) ''unsupported component role'' (
     bindE (field c ''path'' 512) (\<lambda>raw.
     bindE (guest_path raw windows) (\<lambda>path.
       let key = path_key windows path in
     throw_if (list_ex (overlaps key) (m_paths s)) ''guest component paths overlap a file and directory'' (
     throw_if (key \<in> set (m_paths s)) ''duplicate guest component path''
       (Inr \<lparr>m_names = m_names s @ [name], m_paths = m_paths s @ [key],
         m_components = m_components s @ [jobj [(''name'', JStr name), (''target_id'', JStr (tr_id t)),
           (''artifact_sha256'', JStr (tr_sha t)), (''bytes'', jnat (tr_size t)), (''role'', JStr role),
           (''path'', JStr path)]]\<rparr>)))))))))))))"

section \<open>Launches\<close>

definition launchable :: "string \<Rightarrow> json list \<Rightarrow> bool" where
  "launchable component cs =
     (\<not> list_ex (\<lambda>c. jat ''name'' c = Inr (JStr component) \<and>
        (jat ''role'' c = Inr (JStr ''library'') \<or> jat ''role'' c = Inr (JStr ''data''))) cs)"

definition good_argument :: "json \<Rightarrow> bool" where
  "good_argument arg = (case arg of JStr s \<Rightarrow> length s \<le> 1024 \<and> CHR 0x00 \<notin> set s | _ \<Rightarrow> False)"

definition add_depends :: "json \<Rightarrow> string list \<Rightarrow> string list res" where
  "add_depends d seen =
     (case d of JStr s \<Rightarrow> throw_if (s \<in> set seen) ''duplicate or invalid launch dependency'' (Inr (s # seen))
      | _ \<Rightarrow> throw ''duplicate or invalid launch dependency'')"

definition check_launch_lists :: "json \<Rightarrow> (json \<times> json) res" where
  "check_launch_lists launch =
     bindE (jvalue ''argv'' (JArr []) launch) (\<lambda>argv.
     bindE (check_array argv 32) (\<lambda>_.
     throw_if (\<not> list_all good_argument (elems argv)) ''invalid literal launch argument'' (
     bindE (jvalue ''depends_on'' (JArr []) launch) (\<lambda>depends.
     bindE (check_array depends 32) (\<lambda>_.
     bindE (foldE add_depends (elems depends) []) (\<lambda>_. Inr (argv, depends)))))))"

definition readiness_states :: "string list" where
  "readiness_states = [''process_started'', ''service_ready'', ''operator_signal'']"

type_synonym launches = "(string, json) smap"

definition add_launch ::
  "string list \<Rightarrow> json list \<Rightarrow> json \<Rightarrow> json list \<times> launches \<Rightarrow> (json list \<times> launches) res" where
  "add_launch names cs launch = (\<lambda>(done', by_name).
     bindE (check_keys launch [''name'', ''component'', ''argv'', ''depends_on'', ''readiness'', ''stdin_component'']) (\<lambda>_.
     bindE (field launch ''name'' 64) (\<lambda>name.
     bindE (check_identifier name) (\<lambda>_.
     bindE (field launch ''component'' 64) (\<lambda>component.
     throw_if (component \<notin> set names) ''launch references unknown component'' (
     throw_if (\<not> launchable component cs) ''launch requires a program, service or driver component'' (
     bindE (check_launch_lists launch) (\<lambda>(argv, depends).
     bindE (jvalue_str ''readiness'' ''process_started'' launch) (\<lambda>readiness.
     throw_if (readiness \<notin> set readiness_states) ''unsupported readiness obligation'' (
       let launch' = jput ''readiness'' (JStr readiness) (jput ''depends_on'' depends (jput ''argv'' argv launch)) in
     bindE (if contains launch' ''stdin_component'' then
         bindE (field launch' ''stdin_component'' 64) (\<lambda>input.
           throw_if (input \<notin> set names) ''stdin references unknown component'' (Inr ()))
       else Inr ()) (\<lambda>_.
     throw_if (smap_has by_name name) ''duplicate launch name''
       (Inr (done' @ [launch'], smap_put name launch' by_name)))))))))))))"

section \<open>The launch order\<close>

text \<open>
  \<open>scheduled\<close> of the code is the set of the names in \<open>order\<close>: both grow together.
  \<open>deps_ready\<close> looks at every dependency, \<open>schedule_pass\<close> is one pass of the \<open>while\<close>
  loop over the launches in the order of their names.
\<close>

fun deps_ready :: "launches \<Rightarrow> string list \<Rightarrow> json list \<Rightarrow> bool \<Rightarrow> bool res" where
  "deps_ready ls order [] ready = Inr ready"
| "deps_ready ls order (d # ds) ready =
     bindE (jstr d) (\<lambda>n. throw_if (\<not> smap_has ls n) ''unknown launch dependency''
       (deps_ready ls order ds (ready \<and> n \<in> set order)))"

fun schedule_pass :: "launches \<Rightarrow> (string \<times> json) list \<Rightarrow> string list \<Rightarrow> bool \<Rightarrow> (string list \<times> bool) res" where
  "schedule_pass ls [] order progress = Inr (order, progress)"
| "schedule_pass ls ((name, launch) # rest) order progress =
     (if name \<in> set order then schedule_pass ls rest order progress
      else
        bindE (jat ''depends_on'' launch) (\<lambda>ds.
        bindE (deps_ready ls order (jrange ds) True) (\<lambda>ready.
          if ready then schedule_pass ls rest (order @ [name]) True
          else schedule_pass ls rest order progress)))"

lemma schedule_pass_grows:
  "schedule_pass ls todo order progress = Inr (order', progress') \<Longrightarrow>
     (\<exists>new. order' = order @ new) \<and> (progress' \<longrightarrow> progress \<or> length order < length order')"
proof (induction ls todo order progress rule: schedule_pass.induct)
  case (2 ls name launch rest order progress)
  show ?case
  proof (cases "name \<in> set order")
    case True
    then show ?thesis using 2 by simp
  next
    case False
    with 2(4) obtain ds ready where r: "jat ''depends_on'' launch = Inr ds" "deps_ready ls order (jrange ds) True = Inr ready"
      "(if ready then schedule_pass ls rest (order @ [name]) True else schedule_pass ls rest order progress) =
         Inr (order', progress')"
      by auto
    show ?thesis
    proof (cases ready)
      case True
      then show ?thesis using 2(2)[OF False r(1,2) True] r(3) by fastforce
    next
      case nr: False
      then show ?thesis using 2(3)[OF False r(1,2) nr] r(3) by simp
    qed
  qed
qed simp

function schedule_launches :: "launches \<Rightarrow> string list \<Rightarrow> string list res" where
  "schedule_launches ls order =
     (if \<not> length order < length ls then Inr order
      else
        bindE (schedule_pass ls ls order False) (\<lambda>(order', progress).
          if \<not> progress then throw ''cyclic launch dependencies'' else schedule_launches ls order'))"
  by pat_completeness auto

termination
proof (relation "measure (\<lambda>(ls, order). length ls - length order)")
  fix ls :: launches and order x order' progress
  assume "\<not> \<not> length order < length ls" "schedule_pass ls ls order False = Inr x" "(order', progress) = x" "\<not> \<not> progress"
  then have "length order < length order'" using schedule_pass_grows[of ls ls order False order' progress] by auto
  then show "((ls, order'), ls, order) \<in> measure (\<lambda>(ls, order). length ls - length order)"
    using \<open>\<not> \<not> length order < length ls\<close> by auto
qed simp

declare schedule_launches.simps [simp del]

section \<open>Environment, requirements and limits\<close>

definition check_literal :: "json \<Rightarrow> unit res" where
  "check_literal v =
     bindE (jstr_at ''value'' v) (\<lambda>value.
       throw_if (length value > 1024 \<or> CHR 0x00 \<in> set value) ''invalid literal environment value'' (Inr ()))"

definition add_variable :: "bool \<Rightarrow> string \<times> json \<Rightarrow> string list \<Rightarrow> string list res" where
  "add_variable windows = (\<lambda>(k, v) seen.
     bindE (check_identifier k) (\<lambda>_.
       let name = (if windows then upper_string k else k) in
     throw_if (name \<in> set seen) ''duplicate case-folded environment variable'' (
     bindE (check_keys v [''value'', ''secret_ref'']) (\<lambda>_.
     throw_if (contains v ''value'' = contains v ''secret_ref'')
       ''environment requires exactly one literal value or unresolved secret_ref'' (
     bindE (if contains v ''value'' then check_literal v else bindE (field v ''secret_ref'' 1024) (\<lambda>_. Inr ())) (\<lambda>_.
       Inr (name # seen)))))))"

definition requirement_kinds :: "string list" where
  "requirement_kinds = [''runtime'', ''service'', ''device'', ''secret'', ''endpoint'', ''kernel_profile'']"

definition check_requirement :: "json \<Rightarrow> unit \<Rightarrow> unit res" where
  "check_requirement r = (\<lambda>_.
     bindE (check_keys r [''kind'', ''name'', ''version'']) (\<lambda>_.
     bindE (field r ''name'' 256) (\<lambda>_.
     bindE (field r ''kind'' 32) (\<lambda>kind.
     throw_if (kind \<notin> set requirement_kinds) ''unsupported environment requirement kind'' (
       if contains r ''version'' then bindE (field r ''version'' 128) (\<lambda>_. Inr ()) else Inr ())))))"

definition manifest_limits :: "json \<Rightarrow> json res" where
  "manifest_limits input =
     bindE (jvalue ''limits'' (jobj []) input) (\<lambda>limits.
     bindE (check_keys limits [''wall_ms'', ''capture_bytes'', ''events'', ''memory_bytes'']) (\<lambda>_.
     bindE (bound limits ''wall_ms'' 60000 600000) (\<lambda>wall.
     bindE (bound limits ''capture_bytes'' 16777216 536870912) (\<lambda>capture.
     bindE (bound limits ''events'' 10000 1000000) (\<lambda>events.
     bindE (bound limits ''memory_bytes'' 2147483648 8589934592) (\<lambda>memory.
     throw_if (wall = 0 \<or> capture = 0 \<or> events = 0 \<or> memory = 0) ''manifest limits must be positive''
       (Inr (jobj [(''wall_ms'', jnat wall), (''capture_bytes'', jnat capture), (''events'', jnat events),
         (''memory_bytes'', jnat memory)]))))))))"

section \<open>The canonical manifest\<close>

definition manifest_keys :: "string list" where
  "manifest_keys = [''os'', ''architecture'', ''components'', ''launches'', ''environment'', ''requirements'',
     ''isolation'', ''network'', ''reset'', ''limits'']"

definition manifest_platform :: "json \<Rightarrow> (string \<times> string) res" where
  "manifest_platform input =
     bindE (field input ''os'' 16) (\<lambda>os.
     bindE (field input ''architecture'' 16) (\<lambda>architecture.
       throw_if (os \<notin> set [''windows'', ''linux''] \<or> architecture \<notin> set [''x86'', ''x64'', ''mixed''])
         ''manifest supports Windows/Linux x86/x64 only'' (Inr (os, architecture))))"

text \<open>The second operand of \<open>||\<close> is read only when the first comparison is equal.\<close>

definition manifest_isolation :: "json \<Rightarrow> string res" where
  "manifest_isolation input =
     bindE (jvalue_str ''isolation'' ''vm'' input) (\<lambda>isolation.
     bindE (if isolation \<noteq> ''vm'' then Inr True
            else bindE (jvalue_str ''reset'' ''snapshot'' input) (\<lambda>reset. Inr (reset \<noteq> ''snapshot''))) (\<lambda>bad.
     throw_if bad ''manifest requires a disposable VM snapshot; host/WSL execution is not granted'' (
     bindE (jvalue_str ''network'' ''disconnected'' input) (\<lambda>network.
       throw_if (network \<noteq> ''disconnected'' \<and> network \<noteq> ''simulated'')
         ''manifest does not grant external networking'' (Inr network)))))"

definition manifest_components :: "store \<Rightarrow> string \<Rightarrow> bool \<Rightarrow> json \<Rightarrow> manifest_state res" where
  "manifest_components st p windows input =
     bindE (jat ''components'' input) (\<lambda>source.
     bindE (check_array source 32) (\<lambda>_.
     throw_if (jempty source) ''manifest needs at least one imported component''
       (foldE (add_component st p windows) (elems source) \<lparr>m_names = [], m_paths = [], m_components = []\<rparr>)))"

definition manifest_launches :: "manifest_state \<Rightarrow> json \<Rightarrow> (json list \<times> string list) res" where
  "manifest_launches s input =
     bindE (jvalue ''launches'' (JArr []) input) (\<lambda>source.
     bindE (check_array source 32) (\<lambda>_.
     bindE (foldE (add_launch (m_names s) (m_components s)) (elems source) ([], [])) (\<lambda>(launches, by_name).
     bindE (schedule_launches by_name []) (\<lambda>order. Inr (launches, order)))))"

definition manifest_environment :: "bool \<Rightarrow> json \<Rightarrow> json res" where
  "manifest_environment windows input =
     bindE (jvalue ''environment'' (jobj []) input) (\<lambda>environment.
     throw_if (\<not> is_object environment \<or> jsize environment > 32) ''environment exceeds 32 entries'' (
     bindE (foldE (add_variable windows) (entries environment) []) (\<lambda>_. Inr environment)))"

definition manifest_requirements :: "json \<Rightarrow> json res" where
  "manifest_requirements input =
     bindE (jvalue ''requirements'' (JArr []) input) (\<lambda>requirements.
     bindE (check_array requirements 64) (\<lambda>_.
     bindE (foldE check_requirement (elems requirements) ()) (\<lambda>_. Inr requirements)))"

definition canonical_manifest :: "store \<Rightarrow> string \<Rightarrow> json \<Rightarrow> json res" where
  "canonical_manifest st p input =
     bindE (check_keys input manifest_keys) (\<lambda>_.
     bindE (manifest_platform input) (\<lambda>(os, architecture).
     bindE (manifest_isolation input) (\<lambda>network.
     bindE (manifest_components st p (os = ''windows'') input) (\<lambda>s.
     bindE (manifest_launches s input) (\<lambda>(launches, order).
     bindE (manifest_environment (os = ''windows'') input) (\<lambda>environment.
     bindE (manifest_requirements input) (\<lambda>requirements.
     bindE (manifest_limits input) (\<lambda>limits.
       let manifest = jobj [(''schema'', JStr ''indago.system-manifest.v1''), (''os'', JStr os),
             (''architecture'', JStr architecture), (''components'', JArr (m_components s)),
             (''launches'', JArr launches), (''launch_order'', JArr (map JStr order)),
             (''environment'', environment), (''requirements'', requirements), (''isolation'', JStr ''vm''),
             (''network'', JStr network), (''reset'', JStr ''snapshot''), (''limits'', limits)]
       in bindE (dump manifest) (\<lambda>text. Inr (jput ''sha256'' (JStr (sha256_text text)) manifest))))))))))"

section \<open>Operations\<close>

definition component_dependency :: "json \<Rightarrow> json res" where
  "component_dependency c =
     bindE (jat ''artifact_sha256'' c) (\<lambda>sha. Inr (jobj [(''type'', JStr ''artifact''), (''id'', sha)]))"

definition manifest_request :: "string \<Rightarrow> json \<Rightarrow> json \<Rightarrow> json res" where
  "manifest_request p r manifest =
     bindE (jat ''components'' manifest) (\<lambda>cs.
     bindE (mapE component_dependency (jrange cs)) (\<lambda>ds.
     bindE (jvalue_str ''title'' ''Target system manifest'' r) (\<lambda>title.
     bindE (jnth 0 cs) (\<lambda>first. bindE (jat ''artifact_sha256'' first) (\<lambda>sha.
       Inr (jobj [(''project'', JStr p), (''kind'', JStr ''system_manifest''), (''title'', JStr title),
         (''state'', JStr ''derived''), (''scope'', jobj [(''artifact_sha256'', sha)]), (''body'', manifest),
         (''dependencies'', JArr ds),
         (''assumptions'', JArr [JStr ''Operator declarations; not lab attestation or execution authority''])]))))))"

definition system_create ::
  "(string \<Rightarrow> json res) \<Rightarrow> publication option \<Rightarrow> int \<Rightarrow> string \<Rightarrow> string \<Rightarrow> kb \<Rightarrow> json \<Rightarrow> (json \<times> kb) res" where
  "system_create parse ctx now fresh_id at' db r =
     bindE (wb_project (base db) r) (\<lambda>p.
     bindE (check_keys r [''project'', ''title'', ''manifest'']) (\<lambda>_.
     bindE (jat ''manifest'' r) (\<lambda>input. bindE (dump_size input) (\<lambda>size'.
     throw_if (size' > 65536) ''system manifest exceeds 64 KiB'' (
     bindE (canonical_manifest (base db) p input) (\<lambda>manifest.
     bindE (manifest_request p r manifest) (\<lambda>request.
       knowledge_put parse ctx now fresh_id at' db request True)))))))"

text \<open>
  One component of a preflight.  The budget is charged before the bytes are read, so a read that
  fails leaves it charged; every exception inside the \<^verbatim>\<open>try\<close> is the same status.
\<close>

record preflight_state =
  pf_remaining :: nat
  pf_integrity :: "(string, string) smap"
  pf_partial :: bool
  pf_artifacts :: "json list"

definition hash_status :: "store \<Rightarrow> target_rec \<Rightarrow> string res" where
  "hash_status st t =
     bindE (read_object (objects st) (tr_sha t) (tr_size t)) (\<lambda>bytes.
       Inr (if length bytes = tr_size t \<and> sha256_text bytes = tr_sha t then ''verified'' else ''integrity_mismatch''))"

definition same_identity :: "json \<Rightarrow> target_rec \<Rightarrow> unit res" where
  "same_identity c t =
     bindE (jat ''artifact_sha256'' c) (\<lambda>sha.
       if sha \<noteq> JStr (tr_sha t) then throw ''identity mismatch''
       else bindE (jat ''bytes'' c) (\<lambda>bytes.
         throw_if (\<not> jeq bytes (jnat (tr_size t))) ''identity mismatch'' (Inr ())))"

definition unavailable_status :: string where
  "unavailable_status = ''unavailable_or_identity_mismatch''"

definition component_status :: "store \<Rightarrow> string \<Rightarrow> json \<Rightarrow> preflight_state \<Rightarrow> string \<times> preflight_state" where
  "component_status st p c s =
     (case bindE (jstr_at ''target_id'' c) (\<lambda>tid. bindE (target st p tid False) (\<lambda>t.
             bindE (same_identity c t) (\<lambda>_. Inr t))) of
        Inl _ \<Rightarrow> (unavailable_status, s)
      | Inr t \<Rightarrow>
          (case smap_get (pf_integrity s) (tr_sha t) of
             Some status \<Rightarrow> (status, s)
           | None \<Rightarrow>
               if tr_size t > pf_remaining s then (''not_checked_byte_budget'', s\<lparr>pf_partial := True\<rparr>)
               else
                 let s = s\<lparr>pf_remaining := pf_remaining s - tr_size t\<rparr> in
                 (case hash_status st t of
                    Inl _ \<Rightarrow> (unavailable_status, s)
                  | Inr status \<Rightarrow> (status, s\<lparr>pf_integrity := smap_put (tr_sha t) status (pf_integrity s)\<rparr>))))"

definition preflight_component :: "store \<Rightarrow> string \<Rightarrow> json \<Rightarrow> preflight_state \<Rightarrow> preflight_state res" where
  "preflight_component st p c s0 =
     (case component_status st p c s0 of (status, s1) \<Rightarrow>
        let s = (if status \<noteq> ''verified'' then s1\<lparr>pf_partial := True\<rparr> else s1) in
        bindE (jat ''name'' c) (\<lambda>name. bindE (jat ''artifact_sha256'' c) (\<lambda>sha.
          Inr (s\<lparr>pf_artifacts := pf_artifacts s @ [jobj [(''component'', name), (''artifact_sha256'', sha),
            (''integrity'', JStr status)]]\<rparr>))))"

definition preflight_gaps :: "bool \<Rightarrow> bool \<Rightarrow> json" where
  "preflight_gaps no_launches partial = JArr (map JStr (
     [''No disposable lab provider allocation/attestation is bound to this manifest'',
      ''Guest snapshot identity and verified reset are unavailable'',
      ''Network isolation has not been enforced outside a guest'',
      ''Guest architecture, runtimes, privileges and declared requirements are not attested''] @
     (if no_launches then [''No launch entry points declared''] else []) @
     (if partial then [''One or more component integrity checks are incomplete or failed''] else [])))"

definition preflight :: "store \<Rightarrow> string \<Rightarrow> json \<Rightarrow> json \<Rightarrow> json \<Rightarrow> json \<Rightarrow> json res" where
  "preflight st p r record' manifest digest =
     bindE (bound r ''max_bytes'' 16777216 67108864) (\<lambda>budget.
     bindE (jat ''components'' manifest) (\<lambda>cs.
     bindE (foldE (preflight_component st p) (jrange cs)
         \<lparr>pf_remaining = budget, pf_integrity = [], pf_partial = False, pf_artifacts = []\<rparr>) (\<lambda>s.
     bindE (jat ''launches'' manifest) (\<lambda>launches.
     bindE (jat ''id'' record') (\<lambda>rid.
     bindE (jat ''launch_order'' manifest) (\<lambda>order.
       Inr (jobj [(''schema'', JStr ''indago.system-preflight.v1''), (''status'', JStr ''capability_blocked''),
         (''manifest_id'', rid), (''manifest_sha256'', digest), (''ready_for_execution'', JBool False),
         (''target_execution'', JBool False), (''partial'', JBool (pf_partial s)),
         (''hashed_bytes'', jnat (budget - pf_remaining s)), (''artifacts'', JArr (pf_artifacts s)),
         (''launch_order'', order), (''gaps'', preflight_gaps (jempty launches) (pf_partial s))])))))))"

definition checked_manifest :: "json \<Rightarrow> (json \<times> json) res" where
  "checked_manifest record' =
     bindE (jat ''kind'' record') (\<lambda>kind.
     throw_if (kind \<noteq> JStr ''system_manifest'') ''record is not a system manifest'' (
     bindE (jat ''body'' record') (\<lambda>body. bindE (jat ''sha256'' body) (\<lambda>digest.
     bindE (dump (jerase ''sha256'' body)) (\<lambda>text.
       throw_if (digest \<noteq> JStr (sha256_text text)) ''system manifest digest mismatch''
         (Inr (jerase ''sha256'' body, digest)))))))"

text \<open>\<^verbatim>\<open>knowledge(store, "show", ...)\<close> of the record that a manifest request names.\<close>

definition shown_record :: "(string \<Rightarrow> json res) \<Rightarrow> kb \<Rightarrow> string \<Rightarrow> string \<Rightarrow> json res" where
  "shown_record parse db p rid =
     (let q = jobj [(''project'', JStr p), (''id'', JStr rid)] in
      bindE (wb_project (base db) q) (\<lambda>p. show_record parse db p q))"

definition system_read :: "(string \<Rightarrow> json res) \<Rightarrow> kb \<Rightarrow> string \<Rightarrow> json \<Rightarrow> json res option" where
  "system_read parse db op r =
     (case wb_project (base db) r of
        Inl e \<Rightarrow> Some (Inl e)
      | Inr p \<Rightarrow>
          if op = ''list'' then
            (case check_keys r [''project'', ''limit'', ''offset''] of
               Inl e \<Rightarrow> Some (Inl e)
             | Inr _ \<Rightarrow> knowledge_read parse db ''list'' (jput ''kind'' (JStr ''system_manifest'') r))
          else
            Some (bindE (check_keys r [''project'', ''id'', ''max_bytes'']) (\<lambda>_.
              if op \<noteq> ''show'' \<and> op \<noteq> ''preflight'' then throw ''unknown system manifest operation''
              else bindE (field r ''id'' 128) (\<lambda>rid.
                bindE (shown_record parse db p rid) (\<lambda>record'.
                bindE (checked_manifest record') (\<lambda>(manifest, digest).
                  if op = ''show'' then Inr record'
                  else preflight (base db) p r record' manifest digest))))))"

end
