(* ===== verification/Ind_Launch.thy ===== *)
theory Ind_Launch
  imports Ind_Manifest
begin

text \<open>
  What the canonical form of a system manifest guarantees: guest paths stay inside the guest root,
  components do not shadow each other, the launch order order_ok the declared dependencies, and a
  preflight reads no more than its budget and verifies what it reports as verified.
\<close>

section \<open>Guest paths\<close>

fun split_on :: "'a \<Rightarrow> 'a list \<Rightarrow> 'a list list" where
  "split_on c [] = [[]]"
| "split_on c (x # xs) =
     (if x = c then [] # split_on c xs
      else case split_on c xs of [] \<Rightarrow> [[x]] | h # t \<Rightarrow> (x # h) # t)"

lemma split_on_not_Nil: "split_on c s \<noteq> []"
  by (cases s) (auto split: list.splits)

lemma split_on_take:
  "split_on c s = takeWhile (\<lambda>x. x \<noteq> c) s #
     (case dropWhile (\<lambda>x. x \<noteq> c) s of [] \<Rightarrow> [] | y # rest \<Rightarrow> split_on c rest)"
  by (induction s) (auto split: list.splits simp: split_on_not_Nil)

lemma check_segments_all:
  "check_segments windows s = Inr () \<Longrightarrow> s \<noteq> [] \<Longrightarrow> last s \<noteq> CHR ''/'' \<Longrightarrow> seg \<in> set (split_on (CHR ''/'') s) \<Longrightarrow>
     check_segment windows seg = Inr ()"
proof (induction windows s rule: check_segments.induct)
  case (2 windows c cs)
  let ?s = "c # cs" and ?p = "\<lambda>c. c \<noteq> CHR ''/''"
  have first: "check_segment windows (takeWhile ?p ?s) = Inr ()"
    and rest: "check_segments windows (drop 1 (dropWhile ?p ?s)) = Inr ()"
    using 2(2) by (auto simp del: takeWhile.simps dropWhile.simps)
  show ?case
  proof (cases "dropWhile ?p ?s")
    case Nil
    then have "split_on (CHR ''/'') ?s = [takeWhile ?p ?s]" by (subst split_on_take) simp
    then show ?thesis using 2(5) first by simp
  next
    case (Cons y t)
    then have split: "split_on (CHR ''/'') ?s = takeWhile ?p ?s # split_on (CHR ''/'') t" by (subst split_on_take) simp
    have "?s = takeWhile ?p ?s @ y # t" using Cons takeWhile_dropWhile_id[of ?p ?s] by simp
    then have l: "last ?s = last (y # t)" by (metis last_appendR list.distinct(1))
    have "y = CHR ''/''" using hd_dropWhile[of ?p ?s] Cons by simp
    then have t: "t \<noteq> []" "last t \<noteq> CHR ''/''" using l 2(4) by (auto split: if_splits)
    show ?thesis
    proof (cases "seg = takeWhile ?p ?s")
      case False
      then have "seg \<in> set (split_on (CHR ''/'') t)" using 2(5) split by simp
      then show ?thesis using 2(1)[of "()"] first rest t Cons by simp
    qed (use first in simp)
  qed
qed simp

lemma forward_slashes_no_back: "CHR 0x5C \<notin> set (forward_slashes s)"
  by (auto simp: forward_slashes_def)

lemma forward_slashes_id: "CHR 0x5C \<notin> set s \<Longrightarrow> forward_slashes s = s"
  unfolding forward_slashes_def by (induction s) auto

lemma guest_path_idem:
  assumes "guest_path raw windows = Inr path"
  shows "guest_path path windows = Inr path"
  using assms forward_slashes_id[OF forward_slashes_no_back[of raw]] by (auto simp: guest_path_def Let_def)

text \<open>
  C20. A guest path that is accepted is a relative path inside the guest root: it has no backslash,
  drive separator or control character, and no segment that is empty, a dot, two dots, ends in a dot
  or blank or, for Windows, names a device.  Accepting it again changes nothing.
\<close>

theorem guest_path_contained:
  assumes "guest_path raw windows = Inr path"
  shows "path \<noteq> [] \<and> length path \<le> 512 \<and> CHR 0x5C \<notin> set path \<and> CHR '':'' \<notin> set path \<and> (\<forall>c \<in> set path. 32 \<le> ord c) \<and>
    (\<forall>seg \<in> set (split_on (CHR ''/'') path). seg \<noteq> [] \<and> seg \<noteq> ''.'' \<and> seg \<noteq> ''..'' \<and>
       last seg \<noteq> CHR ''.'' \<and> last seg \<noteq> CHR '' '' \<and>
       (windows \<longrightarrow> \<not> reserved_stem (upper_string (takeWhile (\<lambda>c. c \<noteq> CHR ''.'') seg)))) \<and>
    guest_path path windows = Inr path"
proof -
  have p: "path = forward_slashes raw" "path \<noteq> []" "length path \<le> 512" "hd path \<noteq> CHR ''/''" "last path \<noteq> CHR ''/''"
    "\<not> list_ex (bad_path_char windows) path" "check_segments windows path = Inr ()"
    using assms by (auto simp: guest_path_def Let_def not_less)
  have nb: "CHR 0x5C \<notin> set path" using forward_slashes_no_back p(1) by simp
  have chars: "32 \<le> ord c \<and> c \<noteq> CHR '':''" if "c \<in> set path" for c
    using p(6) that unfolding list_ex_iff bad_path_char_def by fastforce
  have segs: "check_segment windows seg = Inr ()" if "seg \<in> set (split_on (CHR ''/'') path)" for seg
    using check_segments_all[OF p(7,2,5) that] .
  have "guest_path path windows = Inr path" using guest_path_idem[OF assms] .
  moreover have "seg \<noteq> [] \<and> seg \<noteq> ''.'' \<and> seg \<noteq> ''..'' \<and> last seg \<noteq> CHR ''.'' \<and> last seg \<noteq> CHR '' '' \<and>
     (windows \<longrightarrow> \<not> reserved_stem (upper_string (takeWhile (\<lambda>c. c \<noteq> CHR ''.'') seg)))"
    if "seg \<in> set (split_on (CHR ''/'') path)" for seg
    using segs[OF that] unfolding check_segment_def throw_if_eq_Inr by blast
  ultimately show ?thesis using p(2,3) nb chars by blast
qed

section \<open>The launch order\<close>

definition depends_on :: "launches \<Rightarrow> string \<Rightarrow> string \<Rightarrow> bool" where
  "depends_on ls n d = (\<exists>launch ds. smap_get ls n = Some launch \<and> jat ''depends_on'' launch = Inr ds \<and> JStr d \<in> set (jrange ds))"

text \<open>An order in which every launch comes after everything it depends on.\<close>

definition order_ok :: "launches \<Rightarrow> string list \<Rightarrow> bool" where
  "order_ok ls order \<longleftrightarrow> distinct order \<and> (\<forall>i < length order. \<forall>d. depends_on ls (order ! i) d \<longrightarrow> d \<in> set (take i order))"

lemma order_ok_snoc:
  "order_ok ls (order @ [n]) \<longleftrightarrow> order_ok ls order \<and> n \<notin> set order \<and> (\<forall>d. depends_on ls n d \<longrightarrow> d \<in> set order)"
  unfolding order_ok_def by (auto simp: nth_append less_Suc_eq)

lemma deps_ready_iff:
  "deps_ready ls order ds ready = Inr r \<Longrightarrow>
     r = (ready \<and> (\<forall>d. JStr d \<in> set ds \<longrightarrow> d \<in> set order)) \<and> (\<forall>d. JStr d \<in> set ds \<longrightarrow> smap_has ls d)"
  by (induction ls order ds ready rule: deps_ready.induct) auto

lemma schedule_pass_order_ok:
  assumes "schedule_pass ls todo order progress = Inr (order', progress')" "set todo \<subseteq> set ls" "distinct (map fst ls)"
    "order_ok ls order" "set order \<subseteq> fst ` set ls"
  shows "order_ok ls order' \<and> set order' \<subseteq> fst ` set ls"
  using assms
proof (induction ls todo order progress rule: schedule_pass.induct)
  case (2 ls name launch rest order progress)
  have in_ls: "smap_get ls name = Some launch" using 2(5,6) by simp
  show ?case
  proof (cases "name \<in> set order")
    case True
    then show ?thesis using 2 by simp
  next
    case False
    with 2(4) obtain ds ready where r: "jat ''depends_on'' launch = Inr ds" "deps_ready ls order (jrange ds) True = Inr ready"
      "(if ready then schedule_pass ls rest (order @ [name]) True else schedule_pass ls rest order progress) =
         Inr (order', progress')"
      by auto
    show ?thesis
    proof (cases ready)
      case True
      have "\<forall>d. depends_on ls name d \<longrightarrow> d \<in> set order"
        using deps_ready_iff[OF r(2)] True in_ls r(1) by (auto simp: depends_on_def)
      then have "order_ok ls (order @ [name])" using 2(7) False by (simp add: order_ok_snoc)
      moreover have "name \<in> fst ` set ls" using 2(5) by (intro image_eqI[of _ _ "(name, launch)"]) simp_all
      then have "set (order @ [name]) \<subseteq> fst ` set ls" using 2(8) by simp
      ultimately show ?thesis using 2(2)[OF False r(1,2) True] r(3) True 2(5,6) by simp
    next
      case nr: False
      then show ?thesis using 2(3)[OF False r(1,2) nr] r(3) 2(5-8) by simp
    qed
  qed
qed simp

text \<open>A pass without progress leaves launches that wait for each other.\<close>

lemma schedule_pass_stuck:
  assumes "schedule_pass ls todo order progress = Inr (order', progress')" "\<not> progress'" "set todo \<subseteq> set ls"
    "distinct (map fst ls)"
  shows "order' = order \<and> \<not> progress \<and>
    (\<forall>n \<in> fst ` set todo - set order. \<exists>d. depends_on ls n d \<and> smap_has ls d \<and> d \<notin> set order)"
  using assms
proof (induction ls todo order progress rule: schedule_pass.induct)
  case (2 ls name launch rest order progress)
  have in_ls: "smap_get ls name = Some launch" using 2(6,7) by simp
  show ?case
  proof (cases "name \<in> set order")
    case True
    then show ?thesis using 2 by auto
  next
    case False
    with 2(4) obtain ds ready where r: "jat ''depends_on'' launch = Inr ds" "deps_ready ls order (jrange ds) True = Inr ready"
      "(if ready then schedule_pass ls rest (order @ [name]) True else schedule_pass ls rest order progress) =
         Inr (order', progress')"
      by auto
    have nr: "\<not> ready"
      using 2(2)[OF False r(1,2)] r(3) 2(5-7) by auto
    then obtain d where "JStr d \<in> set (jrange ds)" "d \<notin> set order" "smap_has ls d"
      using deps_ready_iff[OF r(2)] by auto
    then have "\<exists>d. depends_on ls name d \<and> smap_has ls d \<and> d \<notin> set order"
      using in_ls r(1) by (auto simp: depends_on_def)
    then show ?thesis using 2(3)[OF False r(1,2) nr] r(3) nr 2(5-7) by auto
  qed
qed simp

lemma smap_has_iff: "smap_has m k \<longleftrightarrow> k \<in> fst ` set m"
  by (simp add: smap_has_def map_of_eq_None_iff)

lemma deps_ready_not_cyclic: "deps_ready ls order ds ready \<noteq> throw ''cyclic launch dependencies''"
  by (induction ls order ds ready rule: deps_ready.induct) (auto simp: bindE_eq_Inl jstr_def throw_if_def split: json.splits)

lemma schedule_pass_not_cyclic: "schedule_pass ls todo order progress \<noteq> throw ''cyclic launch dependencies''"
  by (induction ls todo order progress rule: schedule_pass.induct)
    (auto simp: bindE_eq_Inl jat_def deps_ready_not_cyclic split: json.splits option.splits)

lemma schedule_launches_ok:
  assumes "distinct (map fst ls)" "order_ok ls order" "set order \<subseteq> fst ` set ls"
  shows "(\<forall>order'. schedule_launches ls order = Inr order' \<longrightarrow> order_ok ls order' \<and> set order' = fst ` set ls) \<and>
    (schedule_launches ls order = throw ''cyclic launch dependencies'' \<longrightarrow>
       (\<exists>S. S \<noteq> {} \<and> S \<subseteq> fst ` set ls \<and> (\<forall>n \<in> S. \<exists>d \<in> S. depends_on ls n d)))"
  using assms
proof (induction ls order rule: schedule_launches.induct)
  case (1 ls order)
  show ?case
  proof (cases "length order < length ls")
    case False
    have d: "distinct order" using 1(3) by (simp add: order_ok_def)
    have "card (fst ` set ls) \<le> card (set order)"
      using False 1(2) distinct_card[OF d] distinct_card[OF 1(2)] by simp
    then have "set order = fst ` set ls" using 1(4) by (intro card_subset_eq) (auto intro: antisym card_mono)
    then show ?thesis using False 1(3) by (subst (1 2) schedule_launches.simps) simp
  next
    case True
    show ?thesis
    proof (cases "schedule_pass ls ls order False")
      case (Inl e)
      then show ?thesis using True schedule_pass_not_cyclic[of ls ls order False]
        by (subst (1 2) schedule_launches.simps) simp
    next
      case (Inr r)
      obtain order' progress where r: "r = (order', progress)" by (cases r)
      show ?thesis
      proof (cases progress)
        case p: True
        have "order_ok ls order' \<and> set order' \<subseteq> fst ` set ls"
          using schedule_pass_order_ok[OF Inr[unfolded r]] 1(2-4) by simp
        then show ?thesis using 1(1)[of r order' progress] True Inr r p 1(2)
          by (subst (1 2) schedule_launches.simps) simp
      next
        case p: False
        let ?S = "fst ` set ls - set order"
        have stuck: "\<forall>n \<in> ?S. \<exists>d. depends_on ls n d \<and> smap_has ls d \<and> d \<notin> set order"
          using schedule_pass_stuck[OF Inr[unfolded r] p _ 1(2)] by simp
        have "\<exists>d \<in> ?S. depends_on ls n d" if "n \<in> ?S" for n
        proof -
          obtain d where "depends_on ls n d" "smap_has ls d" "d \<notin> set order" using stuck \<open>n \<in> ?S\<close> by blast
          then show ?thesis unfolding smap_has_iff by blast
        qed
        moreover have "card (set order) < card (fst ` set ls)"
          using True 1(2,3) distinct_card[of order] distinct_card[of "map fst ls"] by (simp add: order_ok_def)
        then have "?S \<noteq> {}" using card_mono[of "set order" "fst ` set ls"] by fastforce
        ultimately show ?thesis using True Inr r p
          by (subst (1 2) schedule_launches.simps) (auto intro!: exI[of _ ?S])
      qed
    qed
  qed
qed

text \<open>
  C21. The computed launch order contains every launch exactly once and each after everything it
  depends on; launches are called cyclic only when some of them wait for each other.
\<close>

theorem launch_order_respects_dependencies:
  assumes "smap_ok ls"
  shows "case schedule_launches ls [] of
      Inr order \<Rightarrow> order_ok ls order \<and> set order = fst ` set ls
    | Inl e \<Rightarrow> e = Runtime ''cyclic launch dependencies'' \<longrightarrow>
        (\<exists>S. S \<noteq> {} \<and> S \<subseteq> fst ` set ls \<and> (\<forall>n \<in> S. \<exists>d \<in> S. depends_on ls n d))"
proof -
  have "order_ok ls []" by (simp add: order_ok_def)
  then show ?thesis
    using schedule_launches_ok[OF smap_ok_distinct[OF assms], of "[]"] by (cases "schedule_launches ls []") auto
qed

section \<open>Components\<close>

definition components_ok :: "store \<Rightarrow> string \<Rightarrow> bool \<Rightarrow> manifest_state \<Rightarrow> bool" where
  "components_ok st p windows s \<longleftrightarrow>
     distinct (m_names s) \<and> distinct (m_paths s) \<and>
     (\<forall>a \<in> set (m_paths s). \<forall>b \<in> set (m_paths s). \<not> overlaps a b) \<and>
     length (m_components s) = length (m_names s) \<and> length (m_paths s) = length (m_names s) \<and>
     (\<forall>i < length (m_names s). \<exists>path t. jat ''name'' (m_components s ! i) = Inr (JStr (m_names s ! i)) \<and>
        jat ''path'' (m_components s ! i) = Inr (JStr path) \<and> m_paths s ! i = path_key windows path \<and>
        guest_path path windows = Inr path \<and>
        jat ''artifact_sha256'' (m_components s ! i) = Inr (JStr (tr_sha t)) \<and> tr_project t = p \<and>
        (\<exists>tid. target st p tid False = Inr t))"

lemma overlaps_sym: "overlaps a b = overlaps b a"
  by (auto simp: overlaps_def)

lemma overlaps_refl: "\<not> overlaps a a"
  by (auto simp: overlaps_def starts_with_iff dest: arg_cong[of _ _ length])

lemma target_project: "target st p tid False = Inr t \<Longrightarrow> tr_project t = p"
  by (auto simp: target_def Let_def split: option.splits)

lemma add_component_ok:
  assumes "add_component st p windows c s = Inr s'" "components_ok st p windows s"
  shows "components_ok st p windows s' \<and> length (m_names s') = Suc (length (m_names s))"
proof -
  obtain name tid t role raw path where
    n: "name \<notin> set (m_names s)" and t: "target st p tid False = Inr t" and g: "guest_path raw windows = Inr path"
    and o: "\<not> list_ex (overlaps (path_key windows path)) (m_paths s)" "path_key windows path \<notin> set (m_paths s)"
    and s': "s' = \<lparr>m_names = m_names s @ [name], m_paths = m_paths s @ [path_key windows path],
         m_components = m_components s @ [jobj [(''name'', JStr name), (''target_id'', JStr (tr_id t)),
           (''artifact_sha256'', JStr (tr_sha t)), (''bytes'', jnat (tr_size t)), (''role'', JStr role),
           (''path'', JStr path)]]\<rparr>"
    using assms(1) unfolding add_component_def Let_def
    by (elim bindE_elims, unfold sum.inject)
      (rule that, assumption, assumption, assumption, assumption, assumption, erule sym)
  have "guest_path path windows = Inr path" using guest_path_idem[OF g] .
  then show ?thesis
    using assms(2) n t o target_project[OF t] overlaps_refl overlaps_sym unfolding components_ok_def s'
    by (auto simp: nth_append list_ex_iff json_simps less_Suc_eq)
qed

lemma add_components_ok:
  "foldE (add_component st p windows) cs s = Inr s' \<Longrightarrow> components_ok st p windows s \<Longrightarrow>
     components_ok st p windows s' \<and> length (m_names s') = length (m_names s) + length cs"
proof (induction cs arbitrary: s)
  case (Cons c cs)
  then obtain s1 where s1: "add_component st p windows c s = Inr s1" "foldE (add_component st p windows) cs s1 = Inr s'"
    by auto
  then show ?case using add_component_ok[OF s1(1) Cons.prems(2)] Cons.IH[OF s1(2)] by simp
qed simp

text \<open>
  C22. The components of an accepted manifest are 1 to 32 targets of its project, each with the hash
  that the project recorded, under distinct names and guest paths (up to case on Windows), and no
  component's path is a directory above another's.
\<close>

theorem manifest_components_distinct:
  assumes "manifest_components st p windows input = Inr s"
  shows "components_ok st p windows s \<and> 0 < length (m_components s) \<and> length (m_components s) \<le> 32"
proof -
  obtain source where src: "jat ''components'' input = Inr source" "is_array source" "jsize source \<le> 32" "\<not> jempty source"
    and f: "foldE (add_component st p windows) (elems source) \<lparr>m_names = [], m_paths = [], m_components = []\<rparr> = Inr s"
    using assms unfolding manifest_components_def check_array_def by (auto simp: not_less)
  have n: "length (elems source) = jsize source" "0 < jsize source"
    using src(2,4) by (cases source; simp add: jsize_def jempty_def jrange_def elems_def)+
  have "components_ok st p windows \<lparr>m_names = [], m_paths = [], m_components = []\<rparr>" by (simp add: components_ok_def)
  then show ?thesis using add_components_ok[OF f] n src(3) by (simp add: components_ok_def)
qed

section \<open>Preflight\<close>

text \<open>The object of a target was read in full, and has the size and the hash that the target declares.\<close>

definition really_hashes :: "store \<Rightarrow> target_rec \<Rightarrow> bool" where
  "really_hashes st t = (\<exists>bytes. read_object (objects st) (tr_sha t) (tr_size t) = Inr bytes \<and>
     length bytes = tr_size t \<and> sha256_text bytes = tr_sha t)"

definition component_target :: "store \<Rightarrow> string \<Rightarrow> json \<Rightarrow> target_rec \<Rightarrow> bool" where
  "component_target st p c t = (\<exists>tid. jat ''target_id'' c = Inr (JStr tid) \<and> target st p tid False = Inr t \<and>
     jat ''artifact_sha256'' c = Inr (JStr (tr_sha t)))"

text \<open>The targets whose bytes were charged, in order, and what is known of them.\<close>

definition preflight_ok :: "store \<Rightarrow> string \<Rightarrow> json list \<Rightarrow> nat \<Rightarrow> target_rec list \<Rightarrow> preflight_state \<Rightarrow> bool" where
  "preflight_ok st p cs budget charged s \<longleftrightarrow>
     pf_remaining s + sum_list (map tr_size charged) = budget \<and>
     (\<forall>t \<in> set charged. \<exists>c \<in> set cs. component_target st p c t) \<and>
     (\<forall>sha. smap_get (pf_integrity s) sha = Some ''verified'' \<longrightarrow> (\<exists>t \<in> set charged. tr_sha t = sha \<and> really_hashes st t)) \<and>
     (\<forall>a \<in> set (pf_artifacts s). jat ''integrity'' a = Inr (JStr ''verified'') \<longrightarrow>
        (\<exists>t \<in> set charged. jat ''artifact_sha256'' a = Inr (JStr (tr_sha t)) \<and> really_hashes st t)) \<and>
     (\<not> pf_partial s \<longrightarrow> (\<forall>a \<in> set (pf_artifacts s). jat ''integrity'' a = Inr (JStr ''verified'')))"

lemma hash_status_verified: "hash_status st t = Inr ''verified'' \<Longrightarrow> really_hashes st t"
  unfolding hash_status_def really_hashes_def by (auto split: if_splits)

lemma component_status_ok:
  assumes "component_status st p c s = (status, s')" and "preflight_ok st p cs budget charged s" and "c \<in> set cs"
  shows "\<exists>charged'. set charged \<subseteq> set charged' \<and> preflight_ok st p cs budget charged' s' \<and> pf_artifacts s' = pf_artifacts s \<and>
    (status = ''verified'' \<longrightarrow> (\<exists>t \<in> set charged'. jat ''artifact_sha256'' c = Inr (JStr (tr_sha t)) \<and> really_hashes st t))"
proof (cases "bindE (jstr_at ''target_id'' c) (\<lambda>tid. bindE (target st p tid False) (\<lambda>t.
             bindE (same_identity c t) (\<lambda>_. Inr t)))")
  case (Inl e)
  then show ?thesis using assms by (intro exI[of _ charged]) (auto simp: component_status_def unavailable_status_def)
next
  case (Inr t)
  then have t: "component_target st p c t" "jat ''artifact_sha256'' c = Inr (JStr (tr_sha t))"
    by (auto simp: same_identity_def component_target_def split: if_splits)
  show ?thesis
  proof (cases "smap_get (pf_integrity s) (tr_sha t)")
    case (Some st')
    then have s': "s' = s" "status = st'" using assms(1) Inr by (simp_all add: component_status_def)
    have "\<exists>t \<in> set charged. jat ''artifact_sha256'' c = Inr (JStr (tr_sha t)) \<and> really_hashes st t" if "st' = ''verified''"
    proof -
      from assms(2) Some that obtain u where "u \<in> set charged" "tr_sha u = tr_sha t" "really_hashes st u"
        unfolding preflight_ok_def by blast
      then show ?thesis using t(2) by (intro bexI[of _ u]) simp_all
    qed
    then show ?thesis using assms(2) s' by (intro exI[of _ charged]) simp
  next
    case None
    show ?thesis
    proof (cases "tr_size t > pf_remaining s")
      case True
      then show ?thesis using assms Inr None by (intro exI[of _ charged]) (auto simp: component_status_def preflight_ok_def)
    next
      case False
      let ?s1 = "s\<lparr>pf_remaining := pf_remaining s - tr_size t\<rparr>" and ?charged = "charged @ [t]"
      have charge: "preflight_ok st p cs budget ?charged ?s1"
        using assms(2,3) False t(1) unfolding preflight_ok_def by auto
      show ?thesis
      proof (cases "hash_status st t")
        case (Inl e)
        then have "s' = ?s1" "status = unavailable_status"
          using assms(1) \<open>_ = Inr t\<close> None False by (simp_all add: component_status_def Let_def)
        then show ?thesis using charge by (intro exI[of _ ?charged]) (auto simp: unavailable_status_def)
      next
        case (Inr st')
        then have s': "s' = ?s1\<lparr>pf_integrity := smap_put (tr_sha t) st' (pf_integrity s)\<rparr>" "status = st'"
          using assms(1) \<open>_ = Inr t\<close> None False by (auto simp: component_status_def Let_def)
        have "preflight_ok st p cs budget ?charged s'"
          using charge hash_status_verified[of st t] Inr unfolding s' preflight_ok_def by (auto simp: smap_get_put)
        then show ?thesis using t(2) hash_status_verified[of st t] Inr s' by (intro exI[of _ ?charged]) auto
      qed
    qed
  qed
qed

lemma preflight_component_ok:
  assumes "preflight_component st p c s = Inr s'" and "preflight_ok st p cs budget charged s" and "c \<in> set cs"
  shows "\<exists>charged'. preflight_ok st p cs budget charged' s'"
    and "\<exists>a. pf_artifacts s' = pf_artifacts s @ [a] \<and> jat ''component'' a = jat ''name'' c \<and>
      jat ''artifact_sha256'' a = jat ''artifact_sha256'' c"
proof -
  obtain status s1 where cs: "component_status st p c s = (status, s1)" by (cases "component_status st p c s")
  from component_status_ok[OF this assms(2,3)] obtain charged' where ok: "preflight_ok st p cs budget charged' s1"
    "pf_artifacts s1 = pf_artifacts s"
    "status = ''verified'' \<Longrightarrow> \<exists>t \<in> set charged'. jat ''artifact_sha256'' c = Inr (JStr (tr_sha t)) \<and> really_hashes st t" by blast
  obtain name sha where n: "jat ''name'' c = Inr name" "jat ''artifact_sha256'' c = Inr sha"
    and s': "s' = (let s2 = (if status \<noteq> ''verified'' then s1\<lparr>pf_partial := True\<rparr> else s1) in
       s2\<lparr>pf_artifacts := pf_artifacts s2 @ [jobj [(''component'', name), (''artifact_sha256'', sha), (''integrity'', JStr status)]]\<rparr>)"
    using assms(1) unfolding preflight_component_def cs by (auto simp: Let_def)
  show "\<exists>charged'. preflight_ok st p cs budget charged' s'"
    using ok n unfolding s' preflight_ok_def Let_def
    by (intro exI[of _ charged']) (cases "status = ''verified''"; auto simp: json_simps)
  show "\<exists>a. pf_artifacts s' = pf_artifacts s @ [a] \<and> jat ''component'' a = jat ''name'' c \<and>
      jat ''artifact_sha256'' a = jat ''artifact_sha256'' c"
    using ok(2) n by (auto simp: s' Let_def json_simps)
qed

lemma preflight_fold:
  assumes "foldE (preflight_component st p) cs s = Inr s'" and "preflight_ok st p all budget charged s" and "set cs \<subseteq> set all"
  shows "(\<exists>charged'. preflight_ok st p all budget charged' s') \<and>
    (\<exists>new. pf_artifacts s' = pf_artifacts s @ new \<and>
      list_all2 (\<lambda>c a. jat ''component'' a = jat ''name'' c \<and> jat ''artifact_sha256'' a = jat ''artifact_sha256'' c) cs new)"
  using assms
proof (induction cs arbitrary: s charged)
  case (Cons c cs)
  then obtain s1 where s1: "preflight_component st p c s = Inr s1" "foldE (preflight_component st p) cs s1 = Inr s'" by auto
  have "c \<in> set all" using Cons.prems(3) by simp
  note step = preflight_component_ok[OF s1(1) Cons.prems(2) this]
  from step(1) obtain charged' where "preflight_ok st p all budget charged' s1" by blast
  with Cons.IH[OF s1(2) this] Cons.prems(3) obtain charged2 new where IH: "preflight_ok st p all budget charged2 s'"
    "pf_artifacts s' = pf_artifacts s1 @ new"
    "list_all2 (\<lambda>c a. jat ''component'' a = jat ''name'' c \<and> jat ''artifact_sha256'' a = jat ''artifact_sha256'' c) cs new" by auto
  from step(2) obtain a where "pf_artifacts s1 = pf_artifacts s @ [a]" "jat ''component'' a = jat ''name'' c"
    "jat ''artifact_sha256'' a = jat ''artifact_sha256'' c" by blast
  with IH show ?case by (intro conjI exI[of _ charged2] exI[of _ "a # new"]) simp_all
qed auto

text \<open>
  C23. A preflight stays within its byte budget and reports only what it read.  It lists the components of the
  manifest in order, each with its name and declared hash.  The hashed bytes it reports are exactly the declared
  sizes of targets of those components that it charged, and their sum is at most the requested budget.  An
  artifact is verified only when its target was charged and its stored object, read in full, has the declared size
  and hash; the preflight is complete only when every artifact is verified; and it never grants execution.
\<close>

theorem preflight_verifies:
  assumes "preflight st p r record' manifest digest = Inr out"
  shows "\<exists>budget charged cs arts partial. bound r ''max_bytes'' 16777216 67108864 = Inr budget \<and>
    jat ''components'' manifest = Inr cs \<and>
    jat ''hashed_bytes'' out = Inr (jnat (sum_list (map tr_size charged))) \<and> sum_list (map tr_size charged) \<le> budget \<and>
    (\<forall>t \<in> set charged. \<exists>c \<in> set (jrange cs). component_target st p c t) \<and>
    jat ''artifacts'' out = Inr (JArr arts) \<and> jat ''partial'' out = Inr (JBool partial) \<and>
    list_all2 (\<lambda>c a. jat ''component'' a = jat ''name'' c \<and> jat ''artifact_sha256'' a = jat ''artifact_sha256'' c)
      (jrange cs) arts \<and>
    (\<forall>a \<in> set arts. jat ''integrity'' a = Inr (JStr ''verified'') \<longrightarrow>
       (\<exists>t \<in> set charged. jat ''artifact_sha256'' a = Inr (JStr (tr_sha t)) \<and> really_hashes st t)) \<and>
    (\<not> partial \<longrightarrow> (\<forall>a \<in> set arts. jat ''integrity'' a = Inr (JStr ''verified''))) \<and>
    jat ''ready_for_execution'' out = Inr (JBool False)"
proof -
  obtain budget cs s where b: "bound r ''max_bytes'' 16777216 67108864 = Inr budget" "jat ''components'' manifest = Inr cs"
    and f: "foldE (preflight_component st p) (jrange cs)
         \<lparr>pf_remaining = budget, pf_integrity = [], pf_partial = False, pf_artifacts = []\<rparr> = Inr s"
    and out: "jat ''hashed_bytes'' out = Inr (jnat (budget - pf_remaining s))" "jat ''ready_for_execution'' out = Inr (JBool False)"
      "jat ''artifacts'' out = Inr (JArr (pf_artifacts s))" "jat ''partial'' out = Inr (JBool (pf_partial s))"
    using assms unfolding preflight_def by (auto simp: json_simps elim!: bindE_elims)
  have "preflight_ok st p (jrange cs) budget [] \<lparr>pf_remaining = budget, pf_integrity = [], pf_partial = False, pf_artifacts = []\<rparr>"
    by (simp add: preflight_ok_def)
  from preflight_fold[OF f this] obtain charged where ok: "preflight_ok st p (jrange cs) budget charged s"
    and rows: "list_all2 (\<lambda>c a. jat ''component'' a = jat ''name'' c \<and> jat ''artifact_sha256'' a = jat ''artifact_sha256'' c)
      (jrange cs) (pf_artifacts s)" by auto
  then have "budget - pf_remaining s = sum_list (map tr_size charged)" "sum_list (map tr_size charged) \<le> budget"
    unfolding preflight_ok_def by auto
  then show ?thesis using b out rows ok unfolding preflight_ok_def
    by (intro exI[of _ budget] exI[of _ charged] exI[of _ cs] exI[of _ "pf_artifacts s"] exI[of _ "pf_partial s"]) auto
qed

section \<open>Concrete instances\<close>

lemmas check_keys_jobjI = check_keys_jobj[THEN iffD2]

theorem guest_path_contained_witness:
  "guest_path (''bin'' @ [CHR 0x5C] @ ''a.exe'') True = Inr ''bin/a.exe'' \<and> guest_path ''bin/a.exe'' True = Inr ''bin/a.exe''"
proof -
  have g: "guest_path (''bin'' @ [CHR 0x5C] @ ''a.exe'') True = Inr ''bin/a.exe''" by code_simp
  then show ?thesis using guest_path_contained[OF g] by blast
qed

definition demo_launches :: launches where
  "demo_launches = [(''a'', jobj [(''depends_on'', JArr [JStr ''b''])]), (''b'', jobj [(''depends_on'', JArr [])])]"

theorem launch_order_respects_dependencies_witness:
  "schedule_launches demo_launches [] = Inr [''b'', ''a''] \<and> order_ok demo_launches [''b'', ''a'']"
proof -
  have o: "schedule_launches demo_launches [] = Inr [''b'', ''a'']"
    by (simp add: demo_launches_def schedule_launches.simps json_simps smap_has_def)
  have "smap_ok demo_launches" by (simp add: demo_launches_def smap_ok_Cons)
  then show ?thesis using launch_order_respects_dependencies[of demo_launches] o by simp
qed

definition demo_guest :: store where
  "demo_guest = \<lparr>projects = [\<lparr>p_name = ''p'', p_id = ''prj_1'', p_created = ''t0''\<rparr>],
     targets = [\<lparr>t_id = ''tgt_1'', t_project = ''p'', t_sha = sha256_text ''MZ'', t_name = ''a.exe'', t_size = 2, t_created = ''t0''\<rparr>],
     jobs = [], idems = [], leases = [], job_log = [], derivation_rows = [], evidence_rows = [], function_rows = [],
     view_rows = [], cancels = [],
     objects = [[''objects'', ''sha256'', take 2 (sha256_text ''MZ''), drop 2 (sha256_text ''MZ'')] \<mapsto> ''MZ'']\<rparr>"

definition demo_components :: json where
  "demo_components = jobj [(''components'', JArr [jobj [(''name'', JStr ''main''), (''target_id'', JStr ''tgt_1''),
     (''role'', JStr ''program''), (''path'', JStr ''bin/a.exe'')]])]"

lemma demo_guest_target: "target demo_guest ''p'' ''tgt_1'' False =
    Inr \<lparr>tr_id = ''tgt_1'', tr_project = ''p'', tr_sha = sha256_text ''MZ'', tr_name = ''a.exe'', tr_size = 2\<rparr>"
  by (simp add: target_def require_project_def validate_name_def is_alnum_def is_lower_def demo_guest_def matching_def Let_def)

lemma demo_component_added:
  "manifest_components demo_guest ''p'' True demo_components = Inr \<lparr>m_names = [''main''], m_paths = [''bin/a.exe''],
     m_components = [jobj [(''name'', JStr ''main''), (''target_id'', JStr ''tgt_1''),
       (''artifact_sha256'', JStr (sha256_text ''MZ'')), (''bytes'', jnat 2), (''role'', JStr ''program''),
       (''path'', JStr ''bin/a.exe'')]]\<rparr>"
proof -
  have "guest_path ''bin/a.exe'' True = Inr ''bin/a.exe''" "path_key True ''bin/a.exe'' = ''bin/a.exe''"
    "check_identifier ''main'' = Inr ()"
    by code_simp+
  then show ?thesis
    using demo_guest_target
    by (simp add: manifest_components_def demo_components_def add_component_def field_def jstr_at_def json_simps
        check_array_def component_roles_def check_keys_jobjI jempty_def)
qed

theorem manifest_components_distinct_witness:
  "components_ok demo_guest ''p'' True \<lparr>m_names = [''main''], m_paths = [''bin/a.exe''],
     m_components = [jobj [(''name'', JStr ''main''), (''target_id'', JStr ''tgt_1''),
       (''artifact_sha256'', JStr (sha256_text ''MZ'')), (''bytes'', jnat 2), (''role'', JStr ''program''),
       (''path'', JStr ''bin/a.exe'')]]\<rparr>"
  using manifest_components_distinct[OF demo_component_added] by blast

definition demo_manifest :: json where
  "demo_manifest = jobj [(''components'', JArr [jobj [(''name'', JStr ''main''), (''target_id'', JStr ''tgt_1''),
       (''artifact_sha256'', JStr (sha256_text ''MZ'')), (''bytes'', jnat 2)]]),
     (''launches'', JArr []), (''launch_order'', JArr [])]"

lemma demo_hash_status: "hash_status demo_guest
    \<lparr>tr_id = ''tgt_1'', tr_project = ''p'', tr_sha = sha256_text ''MZ'', tr_name = ''a.exe'', tr_size = 2\<rparr> = Inr ''verified''"
  by (simp add: hash_status_def read_object_def read_file_def demo_guest_def)

theorem preflight_verifies_witness:
  "\<exists>out arts t. preflight demo_guest ''p'' (jobj [(''project'', JStr ''p'')]) (jobj [(''id'', JStr ''kn_1'')]) demo_manifest (JStr ''d'')
      = Inr out \<and> jat ''artifacts'' out = Inr (JArr arts) \<and> arts \<noteq> [] \<and>
     (\<forall>a \<in> set arts. jat ''integrity'' a = Inr (JStr ''verified'') \<and>
       jat ''artifact_sha256'' a = Inr (JStr (tr_sha t))) \<and> really_hashes demo_guest t \<and> jat ''hashed_bytes'' out = Inr (jnat 2)"
proof -
  obtain out where out: "preflight demo_guest ''p'' (jobj [(''project'', JStr ''p'')]) (jobj [(''id'', JStr ''kn_1'')])
      demo_manifest (JStr ''d'') = Inr out"
    and arts: "jat ''artifacts'' out = Inr (JArr [jobj [(''component'', JStr ''main''),
      (''artifact_sha256'', JStr (sha256_text ''MZ'')), (''integrity'', JStr ''verified'')]])"
      "jat ''hashed_bytes'' out = Inr (jnat 2)"
    using demo_guest_target demo_hash_status
    by (simp add: preflight_def demo_manifest_def json_simps bound_def preflight_component_def component_status_def
        same_identity_def jstr_at_def Let_def)
  then show ?thesis using preflight_verifies[OF out] by (auto simp: json_simps)
qed

end
