(* ===== verification/Ind_Receipts.thy ===== *)
theory Ind_Receipts
  imports Ind_Evaluation Ind_Weight
begin

text \<open>
  What the bodies of the research workflow guarantee: the discriminating inputs of a candidate, the
  verdict of a comparison, the shape of a service contract, the seal of a request, and the records of
  the evaluation ledger.
\<close>

section \<open>Discriminating inputs\<close>

lemma add_input_step:
  "add_input n x xs = xs \<or> (add_input n x xs = xs @ [x] \<and> length xs < n \<and> fst x \<notin> fst ` set xs)"
  by (cases x) (simp add: add_input_def)

text \<open>The loop only appends, keeps the inputs distinct and bounded, and stops short only when all are in.\<close>

lemma fold_add_input:
  assumes "distinct (map fst acc)" and "length acc \<le> n"
  shows "distinct (map fst (fold (add_input n) xs acc)) \<and> length (fold (add_input n) xs acc) \<le> n \<and>
    set (fold (add_input n) xs acc) \<subseteq> set acc \<union> set xs \<and> (\<exists>zs. fold (add_input n) xs acc = acc @ zs) \<and>
    (length (fold (add_input n) xs acc) < n \<longrightarrow> fst ` set xs \<subseteq> fst ` set (fold (add_input n) xs acc))"
  using assms
proof (induction xs arbitrary: acc)
  case Nil
  then show ?case by simp
next
  case (Cons x xs)
  let ?a = "add_input n x acc"
  have a: "distinct (map fst ?a)" "length ?a \<le> n" "set ?a \<subseteq> insert x (set acc)" "\<exists>zs. ?a = acc @ zs"
    using Cons.prems add_input_step[of n x acc] by (auto simp: image_iff)
  have x: "length ?a < n \<Longrightarrow> fst x \<in> fst ` set ?a"
    by (cases x) (auto simp: add_input_def)
  note ih = Cons.IH[OF a(1,2)]
  obtain ys zs where ys: "?a = acc @ ys" and zs: "fold (add_input n) xs ?a = ?a @ zs"
    using a(4) ih by auto
  have "fst ` set (x # xs) \<subseteq> fst ` set (fold (add_input n) xs ?a)"
    if less: "length (fold (add_input n) xs ?a) < n"
  proof -
    have "fst x \<in> fst ` set ?a" by (rule x) (use less in \<open>simp add: zs\<close>)
    then have "fst x \<in> fst ` set (fold (add_input n) xs ?a)" by (auto simp: zs)
    then show ?thesis using ih less by auto
  qed
  then show ?case using ih a(3) ys zs by auto
qed

lemma digit_char_inj: "a < 16 \<Longrightarrow> b < 16 \<Longrightarrow> digit_char a = digit_char b \<Longrightarrow> a = b"
  using hexval_digit_char by metis

lemma set_byte_sweep:
  "set byte_sweep = (\<lambda>v. ([digit_char (v div 16), digit_char (v mod 16)], ''byte boundary sweep'')) ` {0..<256}"
  unfolding byte_sweep_def set_map set_upt ..

lemma byte_sweep_count: "card (fst ` set byte_sweep) = 256"
proof -
  have "inj_on (\<lambda>v. [digit_char (v div 16), digit_char (v mod 16)]) {0..<256::nat}"
  proof (rule inj_onI)
    fix a b :: nat
    assume "a \<in> {0..<256}" "b \<in> {0..<256}"
      and eq: "[digit_char (a div 16), digit_char (a mod 16)] = [digit_char (b div 16), digit_char (b mod 16)]"
    then have "a div 16 = b div 16" "a mod 16 = b mod 16"
      by (auto intro!: digit_char_inj)
    then show "a = b" by (metis div_mult_mod_eq)
  qed
  then show ?thesis
    by (simp add: set_byte_sweep image_image card_image)
qed

lemma xor_byte: "x < 256 \<Longrightarrow> b < 8 \<Longrightarrow> x XOR 2 ^ b < (256::nat)"
proof -
  assume x: "x < 256" and b: "b < 8"
  have "(2::nat) ^ b < 2 ^ 8" using b by (intro power_strict_increasing) simp_all
  then have "take_bit 8 x = x" "take_bit 8 ((2::nat) ^ b) = 2 ^ b"
    using x by (simp_all only: take_bit_nat_eq_self_iff) simp
  then have "x XOR 2 ^ b = take_bit 8 (x XOR 2 ^ b)"
    by (simp only: take_bit_xor)
  also have "\<dots> < 2 ^ 8" by (rule take_bit_nat_less_exp)
  finally show ?thesis by simp
qed

lemma hexval_less: "c \<in> set hex_digits \<Longrightarrow> hexval c < 16"
  using hex_digit_cases by blast

lemma only_of_update: "only_of cs s \<Longrightarrow> c \<in> set cs \<Longrightarrow> only_of cs (s[i := c])"
  using set_update_subset_insert[of s i c] by (auto simp: only_of_iff)

lemma even_hex_flip:
  assumes "even_hex seed" and "i < length seed div 2" and "b < 8"
  shows "even_hex (flip_bit seed i b)"
proof -
  let ?v = "(16 * hexval (seed ! (2 * i)) + hexval (seed ! (2 * i + 1))) XOR 2 ^ b"
  have i: "2 * i < length seed" "2 * i + 1 < length seed" using assms(1,2) unfolding even_hex_def by presburger+
  have set: "set seed \<subseteq> set hex_digits" using assms(1) unfolding even_hex_def only_of_iff by (rule conjunct2)
  have "hexval (seed ! (2 * i)) < 16" "hexval (seed ! (2 * i + 1)) < 16"
    by (rule hexval_less[OF subsetD[OF set nth_mem[OF i(1)]]], rule hexval_less[OF subsetD[OF set nth_mem[OF i(2)]]])
  then have "?v < 256" by (intro xor_byte assms(3)) linarith
  then have "digit_char (?v div 16) \<in> set hex_digits" "digit_char (?v mod 16) \<in> set hex_digits"
    by (auto intro!: digit_char_hex simp del: list.set)
  moreover have "only_of hex_digits seed" "even (length seed)"
    using assms(1) unfolding even_hex_def by (rule conjunct2, rule conjunct1)
  ultimately show ?thesis
    unfolding even_hex_def flip_bit_def Let_def by (intro conjI only_of_update) (assumption | simp only: length_list_update)+
qed

lemma even_hex_take:
  assumes "even_hex s"
  shows "even_hex (take (length s - 2) s)"
proof -
  have "even (length s)" and s: "set s \<subseteq> set hex_digits"
    using assms unfolding even_hex_def only_of_iff by (rule conjunct1, rule conjunct2)
  then have "even (length (take (length s - 2) s))" by simp
  moreover have "set (take (length s - 2) s) \<subseteq> set hex_digits"
    by (rule order_trans[OF set_take_subset s])
  ultimately show ?thesis
    unfolding even_hex_def only_of_iff by (rule conjI)
qed

lemma hex_pair:
  assumes "v < 256"
  shows "even_hex [digit_char (v div 16), digit_char (v mod 16)]"
proof -
  have "digit_char (v div 16) \<in> set hex_digits" "digit_char (v mod 16) \<in> set hex_digits"
    using assms by (intro digit_char_hex; simp)+
  then show ?thesis
    unfolding even_hex_def by (simp only: only_of_simps list.size) simp
qed

lemma sweep_hex: "x \<in> set byte_sweep \<Longrightarrow> even_hex (fst x)"
  by (auto simp: set_byte_sweep intro!: hex_pair)

lemma flips_hex: "even_hex seed \<Longrightarrow> x \<in> set (bit_flips seed) \<Longrightarrow> even_hex (fst x)"
  unfolding bit_flips_def set_concat set_map set_upt by (auto intro: even_hex_flip)

lemma stimuli_hex: "even_hex seed \<Longrightarrow> x \<in> set (stimuli seed) \<Longrightarrow> even_hex (fst x)"
proof -
  assume seed: "even_hex seed" and x: "x \<in> set (stimuli seed)"
  have "even_hex (seed @ ''00'')" "even_hex []"
    using seed by (simp_all add: even_hex_def)
  then show ?thesis
    using x seed even_hex_take[OF seed] sweep_hex[of x] flips_hex[OF seed, of x]
    by (auto simp: stimuli_def split: if_splits)
qed

lemma hex_limit_ok: "hex_limit n (JStr s) = Inr () \<longleftrightarrow> even_hex s \<and> length s \<le> n * 2"
proof -
  have "hex_limit n (JStr s) = Inr () \<longleftrightarrow> \<not> (length s > n * 2 \<or> odd (length s) \<or> \<not> only_of hex_digits s)"
    by (simp only: hex_limit_def json.case throw_if_eq_Inr simp_thms)
  then show ?thesis unfolding even_hex_def by linarith
qed

text \<open>
  C25. The suggested inputs of a candidate are exactly as many as requested, between 2 and 16, all
  different, all lowercase hex byte strings, and the first of them is the seed.
\<close>

theorem suggested_inputs_discriminate:
  assumes "candidates spec = Inr inputs"
  shows "\<exists>seed hs. jstr_at ''seed_hex'' spec = Inr seed \<and> bound spec ''count'' 8 16 = Inr (length inputs) \<and>
    2 \<le> length inputs \<and> length inputs \<le> 16 \<and> map (jat ''input_hex'') inputs = map (Inr \<circ> JStr) hs \<and>
    hd hs = seed \<and> distinct hs \<and> (\<forall>h \<in> set hs. even_hex h)"
proof -
  obtain seed n where seed: "jstr_at ''seed_hex'' spec = Inr seed" and hex: "hex_limit 64 (JStr seed) = Inr ()"
    and n: "bound spec ''count'' 8 16 = Inr n" "2 \<le> n"
    and inputs: "inputs = map stimulus_json (fold (add_input n) (stimuli seed) [])"
    using assms by (auto simp: candidates_def throw_if_def split: if_splits)
  define xs where "xs = fold (add_input n) (stimuli seed) []"
  have le: "n \<le> 16" using bound_le[OF n(1)] by simp
  note F = fold_add_input[of "[]" n "stimuli seed", folded xs_def, simplified]
  have len: "length xs = n"
  proof (rule ccontr)
    assume "length xs \<noteq> n"
    then have "fst ` set byte_sweep \<subseteq> fst ` set xs" using F by (auto simp: stimuli_def)
    then have "256 \<le> card (fst ` set xs)" by (metis byte_sweep_count card_mono finite_imageI finite_set)
    also have "\<dots> \<le> length xs" using card_image_le[of "set xs" fst] card_length[of xs] by simp
    finally show False using F le by simp
  qed
  define a where "a = add_input n (seed, ''baseline'') []"
  have a: "distinct (map fst a)" "length a \<le> n"
    using n(2) by (simp_all add: a_def add_input_def)
  have "stimuli seed = (seed, ''baseline'') # tl (stimuli seed)" by (simp add: stimuli_def)
  then have "xs = fold (add_input n) (tl (stimuli seed)) a" unfolding xs_def a_def by (metis fold_simps(2))
  then obtain zs where zs: "xs = a @ zs" using fold_add_input[OF a] by metis
  have "map (jat ''input_hex'') inputs = map (Inr \<circ> JStr) (map fst xs)"
    by (simp add: inputs flip: xs_def) (auto simp: stimulus_json_def jat_jobj)
  moreover have "hd (map fst xs) = seed" using n(2) by (simp add: zs a_def add_input_def)
  moreover have "\<forall>h \<in> set (map fst xs). even_hex h"
    using F stimuli_hex[of seed] hex by (auto simp: hex_limit_ok)
  moreover have "length inputs = n" by (simp add: inputs len flip: xs_def)
  ultimately show ?thesis using seed n le F by (intro exI[of _ seed] exI[of _ "map fst xs"]) simp
qed

theorem suggested_inputs_discriminate_witness:
  "\<exists>inputs. candidates (jobj [(''seed_hex'', JStr ''00''), (''count'', jnat 3)]) = Inr inputs \<and> length inputs = 3"
proof -
  let ?spec = "jobj [(''seed_hex'', JStr ''00''), (''count'', jnat 3)]"
  have "hex_limit 64 (JStr ''00'') = Inr ()"
    by (simp add: hex_limit_ok even_hex_def)
  moreover have three: "bound ?spec ''count'' 8 16 = Inr 3"
    by (simp add: bound_def json_simps ji64_def ju64_def jword_def)
  ultimately have "candidates ?spec = Inr (map stimulus_json (fold (add_input 3) (stimuli ''00'') []))"
    by (simp add: candidates_def jstr_at_def json_simps)
  from suggested_inputs_discriminate[OF this] this three show ?thesis by auto
qed

section \<open>Bodies claim no proof\<close>

definition modest :: "json \<Rightarrow> bool" where
  "modest b = (is_object b \<and> jat ''verified_solve'' b = Inr (JBool False) \<and>
     jat ''universal_equivalence'' b = Inr (JBool False))"

lemma modest_jput: "modest b \<Longrightarrow> k \<noteq> ''verified_solve'' \<Longrightarrow> k \<noteq> ''universal_equivalence'' \<Longrightarrow> modest (jput k v b)"
  by (simp add: modest_def jat_jput_obj del: jat_jput)

lemma modest_copy:
  assumes "foldE (copy_field s) ks b = Inr b'" and "modest b"
    and "''verified_solve'' \<notin> set ks" "''universal_equivalence'' \<notin> set ks"
  shows "modest b'"
  by (rule foldE_invariant[where P = modest, OF assms(1,2)]) (use assms(3,4) in \<open>auto simp: copy_field_def intro!: modest_jput\<close>)

lemma modest_header: "body_header args kind = Inr b \<Longrightarrow> modest b"
  by (auto simp: body_header_def modest_def json_simps)

lemma modest_candidate: "candidate_body parse db args s b = Inr r \<Longrightarrow> modest b \<Longrightarrow> modest r"
  unfolding candidate_body_def
  apply (elim bindE_elims)
  apply (drule modest_copy, assumption, simp, simp)
  apply (auto simp: revise_candidate_def intro!: modest_jput split: if_splits)
  done

lemma modest_comparison: "comparison_body parse db args s b = Inr r \<Longrightarrow> modest b \<Longrightarrow> modest r"
  unfolding comparison_body_def copy_field_def[of s] finish_comparison_def
  apply (elim bindE_elims)
  apply (drule modest_copy)
  apply (auto intro!: modest_jput)
  done

lemma modest_contract: "contract_body xair parse db args s b = Inr r \<Longrightarrow> modest b \<Longrightarrow> modest r"
  unfolding contract_body_def prior_contract_def
  apply (elim bindE_elims)
  apply (drule modest_copy, assumption, simp, simp)
  apply (auto intro!: modest_jput split: if_splits)
  done

lemma modest_observation: "observation_body xair parse db args s b = Inr r \<Longrightarrow> modest b \<Longrightarrow> modest r"
  unfolding observation_body_def copy_field_def observation_json_def Let_def
  by (elim bindE_elims) (auto intro!: modest_jput)

lemma checked_body_modest: "checked_body xair parse db args = Inr b \<Longrightarrow> modest b"
  unfolding checked_body_def
  by (elim bindE_elims) (auto split: if_splits dest!: modest_header
    intro: modest_candidate modest_comparison modest_contract modest_observation)

section \<open>The verdict of a comparison\<close>

definition row_complete :: "json \<Rightarrow> bool" where
  "row_complete row = (jat ''complete'' row = Inr (JBool True))"

definition row_agrees :: "json \<Rightarrow> bool" where
  "row_agrees row = (jat ''agreement'' row = Inr (JBool True))"

definition row_verdict :: "json \<Rightarrow> bool option" where
  "row_verdict row = (if row_complete row then Some (row_agrees row) else None)"

text \<open>
  What a row says of its pair, independently of how it is built.  \<open>run_observed h trial ob\<close>: the helper's receipt
  is repeatable and was current when it was published, and the trial is a stdin/stdout trial with the complete
  observation \<open>ob\<close> of the target.  \<open>row_reports\<close>: the row names the two receipts of its pair, which are committed
  records of a native helper run and a native experiment; the helper ran the candidate's source, on the bytes that
  the trial fed the target; and the row is complete exactly when the run was observed, in which case the actual
  output is the helper's, the expected output is the one observed of the target, and the row agrees exactly when
  these are equal.
\<close>

definition run_observed :: "json \<Rightarrow> json \<Rightarrow> json \<Rightarrow> bool" where
  "run_observed h trial ob \<longleftrightarrow>
     jat ''repeatable_observed'' h = Inr (JBool True) \<and> jat ''source_current_at_publication'' h = Inr (JBool True) \<and>
     (\<exists>state observation i. jat ''state'' trial = Inr state \<and> jat ''observation'' state = Inr observation \<and>
        jat ''data'' observation = Inr ob \<and> jat ''complete'' ob = Inr (JBool True) \<and>
        jat ''input'' trial = Inr i \<and> jat ''engine'' i = Inr (JStr ''io''))"

definition pair_trial :: "(string \<Rightarrow> json res) \<Rightarrow> kb \<Rightarrow> json \<Rightarrow> json \<Rightarrow> json \<Rightarrow> json \<Rightarrow> json \<Rightarrow> bool" where
  "pair_trial parse db args c pair h trial \<longleftrightarrow>
     (\<exists>href eref helper experiment e cases index source language source' language'.
        jat ''helper'' pair = Inr href \<and> exact_record parse db args href = Inr helper \<and>
        native_record ''indago.helper-run.v1'' ''native-helper'' helper = Inr () \<and> jat ''body'' helper = Inr h \<and>
        jat ''experiment'' pair = Inr eref \<and> exact_record parse db args eref = Inr experiment \<and>
        native_record ''indago.experiment.v1'' ''native-experiment'' experiment = Inr () \<and> jat ''body'' experiment = Inr e \<and>
        bound pair ''case'' 0 1 = Inr index \<and> jat ''cases'' e = Inr cases \<and> jnth index cases = Inr trial \<and>
        jat ''source_sha256'' h = Inr source \<and> jat ''source_sha256'' c = Inr source' \<and> jeq source source' \<and>
        jat ''language'' h = Inr language \<and> jat ''language'' c = Inr language' \<and> jeq language language')"

definition row_reports :: "(string \<Rightarrow> json res) \<Rightarrow> kb \<Rightarrow> json \<Rightarrow> json \<Rightarrow> json \<Rightarrow> json \<Rightarrow> bool" where
  "row_reports parse db args c pair row \<longleftrightarrow>
     (\<exists>h trial i input raw hi. pair_trial parse db args c pair h trial \<and>
        jat ''helper'' row = jat ''helper'' pair \<and> jat ''experiment'' row = jat ''experiment'' pair \<and>
        jat ''input'' trial = Inr i \<and> jat ''input_hex'' i = Inr (JStr input) \<and> raw_hex input = Inr raw \<and>
        jat ''input'' h = Inr hi \<and> jat ''slice_sha256'' hi = Inr (JStr (sha256_text raw)) \<and>
        jat ''input_hex'' row = Inr (JStr input) \<and>
        (row_complete row \<longleftrightarrow> (\<exists>ob. run_observed h trial ob)) \<and> (row_agrees row \<longrightarrow> row_complete row) \<and>
        (\<forall>ob. run_observed h trial ob \<longrightarrow>
          (\<exists>actual expected. jat ''output_hex'' h = Inr actual \<and> jat ''output_hex'' ob = Inr expected \<and>
             jat ''actual_hex'' row = Inr actual \<and> jat ''expected_hex'' row = Inr expected \<and>
             (row_agrees row \<longleftrightarrow> jeq actual expected))))"

lemma comparison_row_fields:
  assumes "comparison_row pair index h trial input = Inr row"
  shows "is_object row" "jat ''input_hex'' row = Inr (JStr input)" "\<not> row_complete row" "\<not> row_agrees row"
    "jat ''helper'' row = jat ''helper'' pair" "jat ''experiment'' row = jat ''experiment'' pair"
  using assms by (auto simp: comparison_row_def row_complete_def row_agrees_def json_simps elim!: bindE_elims)

lemma complete_row_fields:
  assumes "complete_row h trial ob row = Inr (row', same)" and "is_object row"
  shows "\<forall>k \<in> {''input_hex'', ''helper'', ''experiment''}. jat k row' = jat k row" "row_complete row'" "row_agrees row' = same"
    "\<exists>actual expected. jat ''output_hex'' h = Inr actual \<and> jat ''output_hex'' ob = Inr expected \<and>
       jat ''actual_hex'' row' = Inr actual \<and> jat ''expected_hex'' row' = Inr expected \<and> same = jeq actual expected"
  using assms by (auto simp: complete_row_def row_complete_def row_agrees_def
      jat_jput_obj simp del: jat_jput elim!: bindE_elims)

lemma jvalue_bool_True: "jvalue_bool k False j = Inr b \<Longrightarrow> (jat k j = Inr (JBool True)) = b"
  by (auto simp: jvalue_bool_def jvalue_def jat_def entries_def jbool_def split: json.splits option.splits)

lemma jvalue_str_io: "jvalue_str k [] j = Inr t \<Longrightarrow> (jat k j = Inr (JStr ''io'')) = (t = ''io'')"
  by (auto simp: jvalue_str_def jvalue_def jat_def entries_def split: json.splits option.splits)

lemma observed_data_run:
  assumes "observed_data h trial = Inr x"
  shows "run_observed h trial ob \<longleftrightarrow> x = Some ob"
  using assms unfolding observed_data_def
  by (auto simp: run_observed_def contains_iff dest!: jvalue_bool_True jvalue_str_io
      split: if_splits elim!: bindE_InrE)

lemma field_same: "field_differs k j v = Inr False \<Longrightarrow> \<exists>w. jat k j = Inr w \<and> jeq w v"
  by (auto simp: field_differs_def)

lemma matches_candidate_same:
  assumes "matches_candidate c h = Inr u"
  shows "\<exists>source language source' language'. jat ''source_sha256'' h = Inr source \<and> jat ''source_sha256'' c = Inr source' \<and>
    jeq source source' \<and> jat ''language'' h = Inr language \<and> jat ''language'' c = Inr language' \<and> jeq language language'"
proof -
  have "any_differs [bindE (jat ''source_sha256'' c) (field_differs ''source_sha256'' h),
      bindE (jat ''language'' c) (field_differs ''language'' h)] = Inr False"
    using assms unfolding matches_candidate_def by auto
  then have "bindE (jat ''source_sha256'' c) (field_differs ''source_sha256'' h) = Inr False"
    "bindE (jat ''language'' c) (field_differs ''language'' h) = Inr False" by (simp_all add: any_differs_False del: any_differs.simps)
  then show ?thesis by (auto dest!: field_same)
qed

lemma add_pair_row:
  assumes "add_pair parse db args c pair s = Inr s'"
  shows "\<exists>row input. input \<notin> set (c_tested s) \<and> jat ''input_hex'' row = Inr (JStr input) \<and>
    row_reports parse db args c pair row \<and> count_row row (row_verdict row) (s\<lparr>c_tested := input # c_tested s\<rparr>) = Inr s'"
proof -
  obtain h e u index cases trial input row0 observed row verdict where receipts: "pair_receipts parse db args pair = Inr (h, e)"
    and source: "matches_candidate c h = Inr u" and trial: "bound pair ''case'' 0 1 = Inr index" "jat ''cases'' e = Inr cases"
      "jnth index cases = Inr trial"
    and input: "pair_input h trial = Inr input" and new: "input \<notin> set (c_tested s)"
    and row0: "comparison_row pair index h trial input = Inr row0" and observed: "observed_data h trial = Inr observed"
    and row: "(case observed of None \<Rightarrow> Inr (row0, None)
      | Some ob \<Rightarrow> bindE (complete_row h trial ob row0) (\<lambda>(row, same). Inr (row, Some same))) = Inr (row, verdict)"
    and s': "count_row row verdict (s\<lparr>c_tested := input # c_tested s\<rparr>) = Inr s'"
    using assms unfolding add_pair_def by (elim bindE_elims) (rule that, assumption+)
  have pt: "pair_trial parse db args c pair h trial"
    using receipts matches_candidate_same[OF source] trial unfolding pair_trial_def pair_receipts_def
    by (auto elim!: bindE_InrE)
  have inp: "\<exists>i raw hi. jat ''input'' trial = Inr i \<and> jat ''input_hex'' i = Inr (JStr input) \<and> raw_hex input = Inr raw \<and>
      jat ''input'' h = Inr hi \<and> jat ''slice_sha256'' hi = Inr (JStr (sha256_text raw))"
    using input unfolding pair_input_def by (auto elim!: bindE_InrE)
  note f = comparison_row_fields[OF row0]
  note run = observed_data_run[OF observed]
  have "jat ''input_hex'' row = Inr (JStr input) \<and> jat ''helper'' row = jat ''helper'' pair \<and>
      jat ''experiment'' row = jat ''experiment'' pair \<and> verdict = row_verdict row \<and>
      (row_complete row \<longleftrightarrow> (\<exists>ob. run_observed h trial ob)) \<and> (row_agrees row \<longrightarrow> row_complete row) \<and>
      (\<forall>ob. run_observed h trial ob \<longrightarrow>
          (\<exists>actual expected. jat ''output_hex'' h = Inr actual \<and> jat ''output_hex'' ob = Inr expected \<and>
             jat ''actual_hex'' row = Inr actual \<and> jat ''expected_hex'' row = Inr expected \<and>
             (row_agrees row \<longleftrightarrow> jeq actual expected)))"
  proof (cases observed)
    case None
    then show ?thesis using row f run by (auto simp: row_verdict_def)
  next
    case (Some ob)
    with row obtain same where r: "complete_row h trial ob row0 = Inr (row, same)" "verdict = Some same" by (auto elim!: bindE_elims)
    from complete_row_fields[OF r(1) f(1)] r(2) f run Some show ?thesis by (auto simp: row_verdict_def)
  qed
  then show ?thesis using new s' pt inp unfolding row_reports_def by blast
qed

definition new_counterexamples :: "json list \<Rightarrow> json list" where
  "new_counterexamples rs = filter (\<lambda>row. row_verdict row = Some False) rs"

definition comparison_inv :: "json \<Rightarrow> compare_state \<Rightarrow> bool" where
  "comparison_inv old s =
     (distinct (c_tested s) \<and> map (jat ''input_hex'') (c_rows s) = map (Inr \<circ> JStr) (rev (c_tested s)) \<and>
      c_incomplete s = length (filter (\<lambda>row. row_verdict row = None) (c_rows s)) \<and>
      c_mismatches s = length (new_counterexamples (c_rows s)) \<and>
      foldE push_back (new_counterexamples (c_rows s)) old = Inr (c_counterexamples s))"

lemma add_pair_inv:
  assumes "add_pair parse db args c pair s = Inr s'" and "comparison_inv old s"
  shows "comparison_inv old s'"
proof -
  obtain row input where "input \<notin> set (c_tested s)" "jat ''input_hex'' row = Inr (JStr input)"
    "count_row row (row_verdict row) (s\<lparr>c_tested := input # c_tested s\<rparr>) = Inr s'"
    using add_pair_row[OF assms(1)] by blast
  then show ?thesis
    using assms(2)
    by (auto simp: comparison_inv_def count_row_def new_counterexamples_def foldE_append split: option.splits bool.splits)
qed

lemma add_pair_rows:
  assumes "add_pair parse db args c pair s = Inr s'"
  shows "\<exists>row. c_rows s' = c_rows s @ [row] \<and> row_reports parse db args c pair row"
  using add_pair_row[OF assms] by (auto simp: count_row_def split: option.splits bool.splits)

lemma foldE_rows:
  assumes "foldE f xs s = Inr t" and "\<And>x s s'. f x s = Inr s' \<Longrightarrow> \<exists>row. m s' = m s @ [row] \<and> R x row"
  shows "\<exists>new. m t = m s @ new \<and> list_all2 R xs new"
  using assms(1)
proof (induction xs arbitrary: s)
  case (Cons x xs)
  then obtain s1 where s1: "f x s = Inr s1" "foldE f xs s1 = Inr t" by auto
  from assms(2)[OF s1(1)] obtain row where row: "m s1 = m s @ [row]" "R x row" by blast
  from Cons.IH[OF s1(2)] obtain new where "m t = m s1 @ new" "list_all2 R xs new" by blast
  with row have "m t = m s @ row # new \<and> list_all2 R (x # xs) (row # new)" by simp
  then show ?case by blast
qed simp

lemma pending_inputs:
  assumes "foldE (pending_input tested) xs acc = Inr pending"
  shows "(\<forall>x \<in> set xs. \<exists>h. jstr_at ''input_hex'' x = Inr h \<and> (h \<in> set tested \<or> JStr h \<in> set pending)) \<and>
    set acc \<subseteq> set pending \<and> (\<forall>v \<in> set pending - set acc. \<exists>h. v = JStr h \<and> h \<notin> set tested)"
  using assms
proof (induction xs arbitrary: acc)
  case Nil
  then show ?case by simp
next
  case (Cons x xs)
  then obtain acc' where step: "pending_input tested x acc = Inr acc'"
    and rest: "foldE (pending_input tested) xs acc' = Inr pending" by auto
  then obtain h where h: "jat ''input_hex'' x = Inr (JStr h)"
    and acc': "acc' = (if h \<in> set tested then acc else acc @ [JStr h])"
    by (auto simp: pending_input_def)
  from Cons.IH[OF rest] h acc' show ?case by (auto split: if_splits)
qed

text \<open>
  C26. A comparison lists one row per receipt pair, in order and on pairwise distinct inputs, and every row
  reports its pair: it is complete exactly when the helper's receipt and the trial carry an observed run, and then
  it agrees exactly when the output of the helper's receipt is the output observed of the target.  Every old
  counterexample is kept and every row whose complete run disagrees is appended.  The status is the verdict of
  exactly these rows: agreement is reported only when every run is complete, every helper output is the target's,
  and every retained counterexample of the candidate was replayed.
\<close>

theorem comparison_verdict:
  assumes "comparison_body parse db args s body = Inr b"
  shows "\<exists>c old pairs rows hs ces pending. comparison_candidate parse db args s = Inr c \<and>
    jat ''counterexamples'' c = Inr old \<and> jat ''pairs'' s = Inr pairs \<and>
    jat ''tested_domain'' b = Inr (JArr rows) \<and> rows \<noteq> [] \<and>
    list_all2 (row_reports parse db args c) (jrange pairs) rows \<and>
    map (jat ''input_hex'') rows = map (Inr \<circ> JStr) hs \<and> distinct hs \<and>
    foldE push_back (new_counterexamples rows) old = Inr ces \<and> jat ''counterexamples'' b = Inr ces \<and>
    (\<forall>x \<in> set (jrange old). \<exists>h. jstr_at ''input_hex'' x = Inr h \<and> (h \<in> set hs \<or> JStr h \<in> set pending)) \<and>
    jat ''unreplayed_counterexamples'' b = Inr (JArr pending) \<and>
    jat ''status'' b = Inr (JStr (if \<exists>row \<in> set rows. row_verdict row = Some False then ''counterexample''
      else if pending \<noteq> [] \<or> (\<exists>row \<in> set rows. row_verdict row = None) then ''incomplete''
      else ''agreement_on_tested_inputs''))"
proof -
  obtain c pairs b1 b2 old t where c: "comparison_candidate parse db args s = Inr c"
    and pairs: "sized_array ''pairs'' 1 16 ''comparison allows 1..16 receipt pairs'' s = Inr pairs"
    and old: "jat ''counterexamples'' c = Inr old"
    and t: "foldE (add_pair parse db args c) (elems pairs)
      \<lparr>c_tested = [], c_mismatches = 0, c_incomplete = 0, c_counterexamples = old, c_rows = []\<rparr> = Inr t"
    and b: "finish_comparison c t b2 = Inr b"
    using assms unfolding comparison_body_def by (elim bindE_elims) (rule that, assumption+)
  obtain pending where pending: "foldE (pending_input (c_tested t)) (jrange old) [] = Inr pending"
    and b: "b = jput ''next_action'' (JStr (comparison_next t pending))
         (jput ''failure_category'' (JStr (snd (comparison_status t pending)))
         (jput ''scope_limit'' (JStr comparison_limit)
         (jput ''status'' (JStr (fst (comparison_status t pending)))
         (jput ''unreplayed_counterexamples'' (JArr pending)
         (jput ''tested_domain'' (JArr (c_rows t)) (jput ''counterexamples'' (c_counterexamples t) b2))))))"
    using b old by (auto simp: finish_comparison_def)
  have inv: "comparison_inv old t"
  proof (rule foldE_invariant[where P = "comparison_inv old", OF t])
    show "comparison_inv old \<lparr>c_tested = [], c_mismatches = 0, c_incomplete = 0, c_counterexamples = old, c_rows = []\<rparr>"
      by (simp add: comparison_inv_def new_counterexamples_def)
  qed (rule add_pair_inv)
  have pairs': "jat ''pairs'' s = Inr pairs" "elems pairs = jrange pairs" "1 \<le> jsize pairs"
    using pairs by (auto simp: sized_array_def jrange_def elems_def is_array_def not_less split: json.splits)
  have all: "list_all2 (row_reports parse db args c) (jrange pairs) (c_rows t)"
    using foldE_rows[where m = c_rows and R = "row_reports parse db args c", OF t add_pair_rows] pairs'(2) by simp
  then have len: "length (c_rows t) = jsize pairs" by (simp add: jsize_def list_all2_lengthD[symmetric])
  have zero: "c_incomplete t = 0 \<longleftrightarrow> (\<forall>row \<in> set (c_rows t). row_verdict row \<noteq> None)"
    "c_mismatches t = 0 \<longleftrightarrow> (\<forall>row \<in> set (c_rows t). row_verdict row \<noteq> Some False)"
    using inv by (simp_all add: comparison_inv_def new_counterexamples_def filter_empty_conv)
  have "jat ''status'' b = Inr (JStr (if \<exists>row \<in> set (c_rows t). row_verdict row = Some False then ''counterexample''
      else if pending \<noteq> [] \<or> (\<exists>row \<in> set (c_rows t). row_verdict row = None) then ''incomplete''
      else ''agreement_on_tested_inputs''))"
    using zero by (auto simp: b comparison_status_def smap_get_jput)
  moreover have "jat ''tested_domain'' b = Inr (JArr (c_rows t))" "jat ''counterexamples'' b = Inr (c_counterexamples t)"
    "jat ''unreplayed_counterexamples'' b = Inr (JArr pending)"
    by (simp_all add: b smap_get_jput)
  moreover have "c_rows t \<noteq> []" using len pairs'(3) by auto
  moreover have "distinct (rev (c_tested t))"
    "map (jat ''input_hex'') (c_rows t) = map (Inr \<circ> JStr) (rev (c_tested t))"
    "foldE push_back (new_counterexamples (c_rows t)) old = Inr (c_counterexamples t)"
    using inv by (simp_all add: comparison_inv_def)
  moreover have "\<forall>x \<in> set (jrange old). \<exists>h. jstr_at ''input_hex'' x = Inr h \<and>
      (h \<in> set (rev (c_tested t)) \<or> JStr h \<in> set pending)"
    using pending_inputs[OF pending] by simp
  ultimately show ?thesis
    using c old pairs'(1) all by blast
qed

text \<open>A committed candidate, a helper run and an experiment on the same input.\<close>

definition trial_record :: "string \<Rightarrow> string \<Rightarrow> json \<Rightarrow> json" where
  "trial_record rid author b = jobj [(''id'', JStr rid), (''revision'', jnat 1), (''kind'', JStr ''product''),
     (''scope'', JNull), (''author'', JStr author), (''harness_origin'', jobj [(''action'', JStr rid)]), (''body'', b)]"

definition trial_origin :: "string \<Rightarrow> string \<Rightarrow> json" where
  "trial_origin rid operation = jobj [(''request'', jobj [(''operation'', JStr operation)]),
     (''publication'', jobj [(''sha256'', JStr (sha256_text rid)), (''knowledge_id'', JStr rid), (''revision'', jnat 1)])]"

definition trial_candidate :: json where
  "trial_candidate = trial_record ''c'' ''native-research'' (jobj [(''schema'', JStr ''indago.research.v1''),
     (''kind'', JStr ''algorithm_candidate''), (''source_sha256'', JStr ''s''), (''language'', JStr ''c17''),
     (''domain'', JStr ''d''), (''assumptions'', JArr []), (''counterexamples'', JArr [])])"

definition trial_helper :: json where
  "trial_helper = trial_record ''h'' ''native-helper'' (jobj [(''schema'', JStr ''indago.helper-run.v1''),
     (''source_sha256'', JStr ''s''), (''language'', JStr ''c17''), (''status'', JStr ''ok''),
     (''input'', jobj [(''slice_sha256'', JStr (sha256_text (unhex ''00'')))]),
     (''repeatable_observed'', JBool True), (''source_current_at_publication'', JBool True), (''output_hex'', JStr ''61'')])"

definition trial_experiment :: json where
  "trial_experiment = trial_record ''e'' ''native-experiment'' (jobj [(''schema'', JStr ''indago.experiment.v1''),
     (''cases'', JArr [jobj [(''input'', jobj [(''input_hex'', JStr ''00''), (''engine'', JStr ''io'')]),
        (''state'', jobj [(''observation'', jobj [(''data'', jobj [(''complete'', JBool True), (''output_hex'', JStr ''61'')])])])]])])"

definition trial_parse :: "string \<Rightarrow> json res" where
  "trial_parse t = (if t = ''c'' then Inr trial_candidate else if t = ''h'' then Inr trial_helper
     else if t = ''e'' then Inr trial_experiment
     else if t = ''C'' then Inr (trial_origin ''c'' ''research.run'') else if t = ''H'' then Inr (trial_origin ''h'' ''helper.run'')
     else if t = ''E'' then Inr (trial_origin ''e'' ''experiment.run'') else Inl Json_Parse)"

definition trial_row :: "string \<Rightarrow> record_row" where
  "trial_row rid = \<lparr>k_project = ''p'', k_id = rid, k_revision = 1, k_kind = ''product'', k_record = rid, k_sha = sha256_text rid\<rparr>"

definition trial_action :: "string \<Rightarrow> string \<Rightarrow> action_row" where
  "trial_action rid t = \<lparr>a_project = ''p'', a_investigation = ''i'', a_id = rid, a_key = [], a_request_hash = [],
     a_record = t, a_runner = [], a_deadline = 0\<rparr>"

definition trial_kb :: kb where
  "trial_kb = demo_kb\<lparr>records := [trial_row ''c'', trial_row ''h'', trial_row ''e''],
     actions := [trial_action ''c'' ''C'', trial_action ''h'' ''H'', trial_action ''e'' ''E'']\<rparr>"

definition trial_ref :: "string \<Rightarrow> json" where
  "trial_ref rid = jobj [(''id'', JStr rid), (''revision'', jnat 1)]"

definition trial_args :: json where "trial_args = jobj [(''project'', JStr ''p''), (''scope'', JNull)]"

definition trial_request :: json where
  "trial_request = jobj [(''kind'', JStr ''algorithm_comparison''), (''candidate'', trial_ref ''c''),
     (''pairs'', JArr [jobj [(''helper'', trial_ref ''h''), (''experiment'', trial_ref ''e'')]])]"

lemmas trial_simps = json_simps jstr_at_def jvalue_str_def jvalue_bool_def field_differs_def ji64_def ju64_def jword_def
  check_keys_jobj[THEN iffD2] bound_def jnth_def jbool_def

lemma trial_receipts:
  "exact_record trial_parse trial_kb trial_args (trial_ref ''c'') = Inr trial_candidate"
  "exact_record trial_parse trial_kb trial_args (trial_ref ''h'') = Inr trial_helper"
  "exact_record trial_parse trial_kb trial_args (trial_ref ''e'') = Inr trial_experiment"
  by (simp_all add: exact_record_def exact_row_def row_of_def check_publication_def native_authors_def native_operation_def
      trial_ref_def trial_args_def trial_kb_def trial_row_def trial_action_def trial_parse_def trial_origin_def
      trial_record_def trial_candidate_def trial_helper_def trial_experiment_def trial_simps)

definition trial_body :: json where
  "trial_body = (case jat ''body'' trial_candidate of Inr b \<Rightarrow> b | Inl _ \<Rightarrow> JNull)"

lemma raw_hex_even: "even_hex h \<Longrightarrow> length h \<le> 8192 \<Longrightarrow> raw_hex h = Inr (unhex h)"
  by (simp add: raw_hex_def hex_limit_ok[THEN iffD2])

lemma trial_raw: "raw_hex ''00'' = Inr (unhex ''00'')"
  by (rule raw_hex_even) (simp_all add: even_hex_def)

lemma trial_pair:
  "\<exists>t. foldE (add_pair trial_parse trial_kb trial_args trial_body)
     [jobj [(''helper'', trial_ref ''h''), (''experiment'', trial_ref ''e'')]]
     \<lparr>c_tested = [], c_mismatches = 0, c_incomplete = 0, c_counterexamples = old, c_rows = []\<rparr> = Inr t"
  by (simp add: add_pair_def pair_receipts_def trial_receipts native_record_def matches_candidate_def pair_input_def
      trial_raw comparison_row_def observed_data_def complete_row_def count_row_def
      trial_body_def trial_record_def trial_candidate_def trial_helper_def trial_experiment_def trial_simps)

lemma trial_comparison:
  "\<exists>b. comparison_body trial_parse trial_kb trial_args trial_request (jobj []) = Inr b"
proof -
  have c: "comparison_candidate trial_parse trial_kb trial_args trial_request = Inr trial_body"
    by (simp add: comparison_candidate_def trial_request_def trial_receipts native_record_def
        trial_body_def trial_record_def trial_candidate_def trial_simps)
  obtain t where t: "foldE (add_pair trial_parse trial_kb trial_args trial_body)
     [jobj [(''helper'', trial_ref ''h''), (''experiment'', trial_ref ''e'')]]
     \<lparr>c_tested = [], c_mismatches = 0, c_incomplete = 0, c_counterexamples = JArr [], c_rows = []\<rparr> = Inr t"
    using trial_pair by blast
  have old: "jat ''counterexamples'' trial_body = Inr (JArr [])" "jat ''domain'' trial_body = Inr (JStr ''d'')"
      "jat ''assumptions'' trial_body = Inr (JArr [])"
    by (simp_all add: trial_body_def trial_record_def trial_candidate_def trial_simps)
  show ?thesis
    using c t old
    by (simp del: foldE.simps(2) add: comparison_body_def)
      (simp add: trial_request_def sized_array_def copy_field_def finish_comparison_def trial_simps
       del: foldE.simps(2) add: foldE.simps(2)[of "copy_field _"])
qed

lemma trial_run: "pair_trial trial_parse trial_kb trial_args trial_body
     (jobj [(''helper'', trial_ref ''h''), (''experiment'', trial_ref ''e'')]) h trial \<Longrightarrow>
   \<exists>ob. run_observed h trial ob \<and> jat ''output_hex'' h = Inr (JStr ''61'') \<and> jat ''output_hex'' ob = Inr (JStr ''61'')"
  by (auto simp: pair_trial_def run_observed_def trial_receipts trial_record_def trial_helper_def trial_experiment_def trial_simps)

theorem comparison_verdict_witness:
  "\<exists>b row. comparison_body trial_parse trial_kb trial_args trial_request (jobj []) = Inr b \<and>
     jat ''tested_domain'' b = Inr (JArr [row]) \<and> row_verdict row = Some True \<and>
     jat ''expected_hex'' row = Inr (JStr ''61'')"
proof -
  obtain b where b: "comparison_body trial_parse trial_kb trial_args trial_request (jobj []) = Inr b"
    using trial_comparison by blast
  have c: "comparison_candidate trial_parse trial_kb trial_args trial_request = Inr trial_body"
    by (simp add: comparison_candidate_def trial_request_def trial_receipts native_record_def
        trial_body_def trial_record_def trial_candidate_def trial_simps)
  have p: "jat ''pairs'' trial_request = Inr (JArr [jobj [(''helper'', trial_ref ''h''), (''experiment'', trial_ref ''e'')]])"
    by (simp add: trial_request_def json_simps)
  from comparison_verdict[OF b] c p obtain rows where rows: "jat ''tested_domain'' b = Inr (JArr rows)"
    "list_all2 (row_reports trial_parse trial_kb trial_args trial_body)
       [jobj [(''helper'', trial_ref ''h''), (''experiment'', trial_ref ''e'')]] rows"
    by (auto simp: jrange_def)
  then obtain row where row: "rows = [row]" "row_reports trial_parse trial_kb trial_args trial_body
      (jobj [(''helper'', trial_ref ''h''), (''experiment'', trial_ref ''e'')]) row"
    by (auto simp: list_all2_Cons1)
  then have "row_verdict row = Some True" "jat ''expected_hex'' row = Inr (JStr ''61'')"
    unfolding row_reports_def row_verdict_def by (fastforce dest!: trial_run)+
  then show ?thesis using b rows(1) row(1) by blast
qed

section \<open>Service contracts\<close>

definition range_bounds :: "json \<Rightarrow> (nat \<times> nat) res" where
  "range_bounds rg = bindE (bound rg ''offset'' 0 4096) (\<lambda>a. bindE (bound rg ''length'' 0 4096) (\<lambda>n. Inr (a, n)))"

lemma check_ranges:
  assumes "foldE (check_range bytes) xs past = Inr e"
  shows "\<exists>ivs. mapE range_bounds xs = Inr ivs \<and> sorted_wrt (\<lambda>(a, n) (b, m). a + n \<le> b) ivs \<and>
    (\<forall>(a, n) \<in> set ivs. past \<le> a \<and> 0 < n \<and> a + n \<le> bytes)"
  using assms
proof (induction xs arbitrary: past)
  case Nil
  then show ?case by simp
next
  case (Cons x xs)
  from Cons.prems obtain q where step: "check_range bytes x past = Inr q" and more: "foldE (check_range bytes) xs q = Inr e"
    unfolding foldE.simps by (elim bindE_InrE) (rule that)
  from step obtain a n where b: "bound x ''offset'' 0 4096 = Inr a" "bound x ''length'' 0 4096 = Inr n"
    and c: "\<not> (n = 0 \<or> a < past \<or> a + n > bytes)" "(Inr (a + n) :: nat res) = Inr q"
    unfolding check_range_def by (elim bindE_elims) (rule that, assumption+)
  then have x: "range_bounds x = Inr (a, n)" "0 < n" "past \<le> a" "a + n \<le> bytes" "q = a + n"
    by (simp_all add: range_bounds_def)
  note rest = more[unfolded x(5)]
  obtain ivs where ivs: "mapE range_bounds xs = Inr ivs" "sorted_wrt (\<lambda>(a, n) (b, m). a + n \<le> b) ivs"
    "\<forall>(b, m) \<in> set ivs. a + n \<le> b \<and> 0 < m \<and> b + m \<le> bytes"
    using Cons.IH[OF rest] by blast
  then show ?case
    using x(1-4) by (intro exI[of _ "(a, n) # ivs"]) (auto simp del: foldE.simps)
qed

lemma jat_is_object: "jat k j = Inr v \<Longrightarrow> is_object j"
  by (auto simp: jat_eq_Inr)

lemma pin_capture_fields:
  assumes "pin_capture xair st args origin r0 = Inr r" and "jat ''hex'' r0 = Inr (JStr hex)"
  shows "jat ''hex'' r = Inr (JStr hex)" "jat ''variable_ranges'' r = jat ''variable_ranges'' r0"
    "origin = ''captured'' \<longrightarrow> (\<exists>ref page. jat ''capture'' r0 = Inr ref \<and> capture_page xair st args ref = Inr page \<and>
       jat ''hex'' page = Inr (JStr hex))"
    "origin \<noteq> ''captured'' \<longrightarrow> \<not> contains r0 ''capture''"
  using assms jat_is_object[OF assms(2)]
  by (auto simp: pin_capture_def field_differs_def jat_jput_obj simp del: jat_jput split: if_splits elim!: bindE_elims)

text \<open>
  C27. The variable ranges of an accepted service response are in order, do not overlap, are not empty
  and lie inside its bytes, which are lowercase hex; a captured response carries the exact bytes of
  the artifact page it names, any other carries no capture; and the response never claims to prove
  the service's acceptance.
\<close>

theorem service_response_pinned:
  assumes "service_response xair st args r0 = Inr r"
  shows "\<exists>ranges hex ivs origin. jat ''variable_ranges'' r = Inr (JArr ranges) \<and> jstr_at ''hex'' r = Inr hex \<and>
    even_hex hex \<and> mapE range_bounds ranges = Inr ivs \<and> sorted_wrt (\<lambda>(a, n) (b, m). a + n \<le> b) ivs \<and>
    (\<forall>(a, n) \<in> set ivs. 0 < n \<and> a + n \<le> length hex div 2) \<and> jstr_at ''origin'' r0 = Inr origin \<and>
    (if origin = ''captured''
     then \<exists>ref page. jat ''capture'' r0 = Inr ref \<and> capture_page xair st args ref = Inr page \<and> jat ''hex'' page = Inr (JStr hex)
     else \<not> contains r0 ''capture'') \<and>
    jat ''can_prove_original_service_acceptance'' r = Inr (JBool False)"
proof -
  obtain v u origin r1 ranges hex e where v: "jat ''hex'' r0 = Inr v" "hex_limit 4096 v = Inr u"
    and origin: "jstr_at ''origin'' r0 = Inr origin" and r1: "pin_capture xair st args origin r0 = Inr r1"
    and ranges: "jat ''variable_ranges'' r1 = Inr ranges" "\<not> (\<not> is_array ranges \<or> jsize ranges > 16)"
    and hex: "jstr_at ''hex'' r1 = Inr hex" and e: "foldE (check_range (length hex div 2)) (elems ranges) 0 = Inr e"
    and r: "Inr (jput ''can_prove_original_service_acceptance'' (JBool False) r1) = (Inr r :: json res)"
    using assms unfolding service_response_def by (elim bindE_elims) (rule that, assumption+)
  obtain h where h: "v = JStr h" using v(2) by (cases v) (auto simp: hex_limit_def)
  note p = pin_capture_fields[OF r1 v(1)[unfolded h]]
  have h': "hex = h" using p(1) hex by simp
  have even: "even_hex hex" using v(2) h h' by (simp add: hex_limit_ok)
  obtain rs where rs: "ranges = JArr rs" using ranges(2) by (cases ranges) auto
  have keep: "jat k r = jat k r1" if "k \<noteq> ''can_prove_original_service_acceptance''" for k
    using that jat_is_object[OF p(1)] using r by (auto simp: jat_jput_obj simp del: jat_jput)
  have fields: "jat ''variable_ranges'' r = Inr (JArr rs)" "jstr_at ''hex'' r = Inr hex"
    "jat ''can_prove_original_service_acceptance'' r = Inr (JBool False)"
    using keep[of "''variable_ranges''"] keep[of "''hex''"] ranges(1) rs p(1) h' r by auto
  have ivs: "\<exists>ivs. mapE range_bounds rs = Inr ivs \<and> sorted_wrt (\<lambda>(a, n) (b, m). a + n \<le> b) ivs \<and>
    (\<forall>(a, n) \<in> set ivs. 0 < n \<and> a + n \<le> length hex div 2)"
    using check_ranges[OF e] by (auto simp: rs elems_def)
  have capture: "if origin = ''captured''
     then \<exists>ref page. jat ''capture'' r0 = Inr ref \<and> capture_page xair st args ref = Inr page \<and> jat ''hex'' page = Inr (JStr hex)
     else \<not> contains r0 ''capture''"
    using p(3,4) h' by simp
  show ?thesis
    using fields even ivs origin capture by blast
qed

definition demo_range :: "nat \<Rightarrow> nat \<Rightarrow> json" where
  "demo_range a n = jobj [(''offset'', jnat a), (''length'', jnat n), (''reason'', JStr ''nonce'')]"

definition demo_response :: json where
  "demo_response = jobj [(''origin'', JStr ''inferred''), (''hex'', JStr ''00112233''), (''rationale'', JStr ''r''),
     (''variable_ranges'', JArr [demo_range 0 1, demo_range 2 2]),
     (''timing'', jobj [(''origin'', JStr ''unknown'')])]"

lemma demo_response_hex: "hex_limit 4096 (JStr ''00112233'') = Inr ()"
  by (simp add: hex_limit_ok even_hex_def)

lemma demo_response_accepted:
  "service_response xair st args demo_response =
     Inr (jput ''can_prove_original_service_acceptance'' (JBool False) demo_response)"
  by (simp add: service_response_def demo_response_def demo_range_def demo_response_hex text_limit_def response_origins_def
      pin_capture_def check_range_def check_timing_def timing_origins_def trial_simps)

theorem service_response_pinned_witness:
  "\<exists>r. service_response (\<lambda>_. None) (base demo_kb) (jobj []) demo_response = Inr r \<and>
     jat ''can_prove_original_service_acceptance'' r = Inr (JBool False)"
proof -
  obtain r where "service_response (\<lambda>_. None) (base demo_kb) (jobj []) demo_response = Inr r"
    using demo_response_accepted by blast
  then show ?thesis using service_response_pinned by blast
qed

section \<open>Seals\<close>

lemma smap_del_put: "smap_ok m \<Longrightarrow> smap_del k (smap_put k v m) = smap_del k m"
  by (rule smap_ok_eqI) (auto simp: smap_get_del smap_get_put intro: smap_ok_put smap_ok_del)

lemma jerase_jput: "wf_json j \<Longrightarrow> is_object j \<Longrightarrow> jerase k (jput k v j) = jerase k j"
  by (cases j) (simp_all add: jerase_def jput_def entries_def smap_del_put)

text \<open>The body that a request stands for: the checked body of the request without its seal.\<close>

definition request_body :: "loader \<Rightarrow> (string \<Rightarrow> json res) \<Rightarrow> kb \<Rightarrow> json \<Rightarrow> json res" where
  "request_body xair parse db args = checked_body xair parse db (jerase ''sealed'' args)"

lemma normalize_research_seal:
  assumes "normalize_research xair parse db iv args = Inr a"
  shows "\<exists>b t. request_body xair parse db args = Inr b \<and> modest b \<and> dump b = Inr t \<and> is_object args \<and>
    a = jput ''sealed'' (jobj [(''body_sha256'', JStr (sha256_text t))]) args"
proof -
  obtain b seal where b: "checked_body xair parse db (jerase ''sealed'' args) = Inr b" and seal: "research_seal b = Inr seal"
    and a: "a = jput ''sealed'' seal args" and keys: "check_keys args [''project'', ''scope'', ''body'', ''sealed''] = Inr ()"
    using assms unfolding normalize_research_def by (auto elim!: bindE_elims)
  then show ?thesis
    using checked_body_modest[OF b] by (auto simp: research_seal_def request_body_def check_keys_ok)
qed

text \<open>The record that a publication appends, and what it takes from the request.\<close>

lemma wb_project_request: "wb_project st request = Inr p \<Longrightarrow> jat ''project'' request = Inr (JStr p)"
  by (auto simp: wb_project_def elim!: bindE_InrE)

definition publishes :: "json \<Rightarrow> kb \<Rightarrow> string \<Rightarrow> json \<Rightarrow> kb \<Rightarrow> bool" where
  "publishes request db p r db' \<longleftrightarrow>
     (\<exists>rid row. jat ''project'' request = Inr (JStr p) \<and> jat ''id'' r = Inr (JStr rid) \<and>
        jat ''kind'' r = jat ''kind'' request \<and> jat ''title'' r = jat ''title'' request \<and>
        jat ''scope'' r = jat ''scope'' request \<and> jat ''body'' r = jat ''body'' request \<and>
        records db' = records db @ [row] \<and> k_project row = p \<and> k_id row = rid \<and>
        dump r = Inr (k_record row) \<and> k_sha row = sha256_text (k_record row))"

lemma record_json_fields:
  assumes "record_json p rid rv ks ts body ds internal request at' = Inr r"
  shows "is_object r" "jat ''id'' r = Inr (JStr rid)" "jat ''kind'' r = Inr (JStr (fst ks))" "jat ''title'' r = Inr (JStr (fst ts))"
    "jat ''scope'' r = Inr (snd ts)" "jat ''body'' r = Inr body"
  using assms unfolding record_json_def by (auto simp: json_simps elim!: bindE_elims)

lemma put_commit_publishes:
  assumes "put_commit parse ctx now fid at' db request internal = Inr (p, r, db')"
  shows "publishes request db p r db' \<and> is_object r"
proof -
  let ?actual = "\<lambda>p rid. case head_of db p rid of Some h \<Rightarrow> h | None \<Rightarrow> 0"
  let ?linked = "\<lambda>r0. case ctx of Some c \<Rightarrow> jput ''harness_origin'' (publication_origin c) r0 | None \<Rightarrow> r0"
  obtain p1 rid ks ts body ds r0 t db1 db2 where c: "wb_project (base db) request = Inr p1"
    "check_kind request internal = Inr ks" "check_title_scope request = Inr ts" "check_body request (fst ks) = Inr body"
    "record_json p1 rid (?actual p1 rid + 1) ks ts body ds internal request at' = Inr r0"
    "dump (?linked r0) = Inr t" "insert_revision p1 rid (?actual p1 rid + 1) (fst ks) t ds at' db = Inr db1"
    "link_publication parse ctx now (?linked r0) (sha256_text t) db1 = Inr db2"
    "(Inr (p1, ?linked r0, db2) :: (string \<times> json \<times> kb) res) = Inr (p, r, db')"
    using assms unfolding put_commit_def Let_def by (elim bindE_elims) (rule that, assumption+)
  have same: "p1 = p" "?linked r0 = r" "db2 = db'" using c(9) by simp_all
  note f = record_json_fields[OF c(5)]
  have k: "jat ''kind'' request = Inr (JStr (fst ks))" using c(2) by (auto simp: check_kind_def elim!: bindE_elims)
  have ts: "jat ''title'' request = Inr (JStr (fst ts))" "jat ''scope'' request = Inr (snd ts)"
    using c(3) by (auto simp: check_title_scope_def elim!: bindE_elims)
  have b: "jat ''body'' request = Inr body" using c(4) unfolding check_body_def by (auto elim!: bindE_elims)
  have r: "is_object r" "jat ''id'' r = Inr (JStr rid)" "jat ''kind'' r = jat ''kind'' request" "jat ''title'' r = jat ''title'' request"
    "jat ''scope'' r = jat ''scope'' request" "jat ''body'' r = jat ''body'' request"
    using f k ts b unfolding same(2)[symmetric] by (auto simp: jat_jput_obj split: option.splits simp del: jat_jput)
  show ?thesis
    using r c(6) insert_revision_eq(1)[OF c(7)] link_publication_same[OF c(8)] wb_project_request[OF c(1)]
    unfolding publishes_def same by auto
qed

lemma decorated_same: "decorated parse db p r = Inr answer \<Longrightarrow> is_object r \<Longrightarrow>
    k \<notin> {''stale_reasons'', ''freshness'', ''freshness_complete''} \<Longrightarrow> jat k answer = jat k r"
  unfolding decorated_def Let_def by (auto simp: jat_jput_obj simp del: jat_jput elim!: bindE_elims)

lemma knowledge_put_publishes:
  assumes "knowledge_put parse ctx now fid at' db request internal = Inr (answer, db')"
  shows "\<exists>p r. publishes request db p r db' \<and> (\<forall>k. k \<notin> {''stale_reasons'', ''freshness'', ''freshness_complete''} \<longrightarrow> jat k answer = jat k r)"
proof -
  obtain p r where c: "put_commit parse ctx now fid at' db request internal = Inr (p, r, db')" "decorated parse db' p r = Inr answer"
    using assms unfolding knowledge_put_def by (auto elim!: bindE_elims)
  from put_commit_publishes[OF c(1)] decorated_same[OF c(2)] show ?thesis by blast
qed

lemma execute_research_seal:
  assumes "execute_research xair parse ctx now fid at' db a = Inr (answer, db')"
  shows "\<exists>b t seal q p r. request_body xair parse db a = Inr b \<and> dump b = Inr t \<and> jat ''sealed'' a = Inr seal \<and>
    jat ''body_sha256'' seal = Inr (JStr (sha256_text t)) \<and> dump a = Inr q \<and>
    jat ''project'' a = Inr (JStr p) \<and> jat ''kind'' r = Inr (JStr ''product'') \<and> jat ''scope'' r = jat ''scope'' a \<and>
    jat ''body'' r = Inr (jput ''request_sha256'' (JStr (sha256_text q)) b) \<and> jat ''body'' answer = jat ''body'' r \<and>
    (\<exists>rid row. jat ''id'' r = Inr (JStr rid) \<and> jat ''id'' answer = jat ''id'' r \<and> records db' = records db @ [row] \<and>
       k_project row = p \<and> k_id row = rid \<and> dump r = Inr (k_record row) \<and> k_sha row = sha256_text (k_record row))"
proof -
  obtain b t seal pinned q s ds pj scope where c: "checked_body xair parse db (jerase ''sealed'' a) = Inr b" "dump b = Inr t"
    "jat ''sealed'' a = Inr seal" "jstr_at ''body_sha256'' seal = Inr pinned" "\<not> sha256_text t \<noteq> pinned" "dump a = Inr q"
    "jat ''project'' a = Inr pj" "jat ''scope'' a = Inr scope"
    and put: "knowledge_put parse ctx now fid at' db
         (jobj [(''project'', pj), (''kind'', JStr ''product''), (''title'', JStr ''Bounded research workflow''),
           (''state'', JStr ''unknown''), (''scope'', scope),
           (''body'', jput ''request_sha256'' (JStr (sha256_text q)) b),
           (''dependencies'', JArr ds), (''author'', JStr ''native-research'')]) True = Inr (answer, db')"
    using assms unfolding execute_research_def by (elim bindE_elims) (rule that, assumption+)
  from knowledge_put_publishes[OF put] obtain p r where "publishes
         (jobj [(''project'', pj), (''kind'', JStr ''product''), (''title'', JStr ''Bounded research workflow''),
           (''state'', JStr ''unknown''), (''scope'', scope),
           (''body'', jput ''request_sha256'' (JStr (sha256_text q)) b),
           (''dependencies'', JArr ds), (''author'', JStr ''native-research'')]) db p r db'"
    and answer: "jat ''body'' answer = jat ''body'' r" "jat ''id'' answer = jat ''id'' r" by auto
  then have "pj = JStr p" "jat ''kind'' r = Inr (JStr ''product'')" "jat ''scope'' r = Inr scope"
    "jat ''body'' r = Inr (jput ''request_sha256'' (JStr (sha256_text q)) b)"
    "\<exists>rid row. jat ''id'' r = Inr (JStr rid) \<and> records db' = records db @ [row] \<and>
       k_project row = p \<and> k_id row = rid \<and> dump r = Inr (k_record row) \<and> k_sha row = sha256_text (k_record row)"
    unfolding publishes_def by (auto simp: json_simps)
  then show ?thesis using c answer unfolding request_body_def by auto
qed

text \<open>
  C28. A sealed request publishes exactly what it was sealed for.  When normalization sealed a request against one
  state of the store and a later execution of it succeeds against another, then the bodies computed from the two
  states have the same SHA-256, both deny a verified solve and universal equivalence, and the record that the
  execution appends to the store, a product of the request's project and scope, carries that body with the hash of
  the executed request, as does the answer; its stored text is the record and its stored hash is that of the text.
\<close>

theorem execution_respects_seal:
  assumes "normalize_research xair parse db iv args = Inr a" and "wf_json args"
  shows "\<exists>b t. request_body xair parse db args = Inr b \<and> dump b = Inr t \<and> modest b \<and>
    (case execute_research xair parse ctx now fid at' db' a of Inl _ \<Rightarrow> True
     | Inr (answer, db'') \<Rightarrow> \<exists>b' t' q p r rid row. request_body xair parse db' args = Inr b' \<and> dump b' = Inr t' \<and>
         sha256_text t' = sha256_text t \<and> modest b' \<and> dump a = Inr q \<and>
         jat ''project'' args = Inr (JStr p) \<and> jat ''kind'' r = Inr (JStr ''product'') \<and> jat ''scope'' r = jat ''scope'' args \<and>
         jat ''body'' r = Inr (jput ''request_sha256'' (JStr (sha256_text q)) b') \<and> jat ''body'' answer = jat ''body'' r \<and>
         jat ''id'' r = Inr (JStr rid) \<and> jat ''id'' answer = Inr (JStr rid) \<and> records db'' = records db' @ [row] \<and>
         k_project row = p \<and> k_id row = rid \<and> dump r = Inr (k_record row) \<and> k_sha row = sha256_text (k_record row))"
proof -
  obtain b t where b: "request_body xair parse db args = Inr b" "modest b" "dump b = Inr t" "is_object args"
    and a: "a = jput ''sealed'' (jobj [(''body_sha256'', JStr (sha256_text t))]) args"
    using normalize_research_seal[OF assms(1)] by blast
  have same: "request_body xair parse d a = request_body xair parse d args" for d
    by (simp add: request_body_def a jerase_jput[OF assms(2) b(4)])
  have sealed: "jat ''sealed'' a = Inr (jobj [(''body_sha256'', JStr (sha256_text t))])" by (simp add: a)
  have other: "jat ''project'' a = jat ''project'' args" "jat ''scope'' a = jat ''scope'' args"
    by (simp_all add: a jat_jput_obj b(4) del: jat_jput)
  show ?thesis
  proof (cases "execute_research xair parse ctx now fid at' db' a")
    case (Inr out)
    obtain answer db'' where out: "out = (answer, db'')" by (cases out)
    from execute_research_seal[OF Inr[unfolded out]] obtain b' t' q p r rid row where b': "request_body xair parse db' args = Inr b'"
      "dump b' = Inr t'" "sha256_text t' = sha256_text t" "dump a = Inr q" "jat ''project'' args = Inr (JStr p)"
      "jat ''kind'' r = Inr (JStr ''product'')" "jat ''scope'' r = jat ''scope'' args"
      "jat ''body'' r = Inr (jput ''request_sha256'' (JStr (sha256_text q)) b')" "jat ''body'' answer = jat ''body'' r"
      "jat ''id'' r = Inr (JStr rid)" "jat ''id'' answer = jat ''id'' r" "records db'' = records db' @ [row]"
      "k_project row = p" "k_id row = rid" "dump r = Inr (k_record row)" "k_sha row = sha256_text (k_record row)"
      unfolding same sealed other by (auto simp: json_simps)
    note m = checked_body_modest[OF b'(1)[unfolded request_body_def]]
    have i: "jat ''id'' answer = Inr (JStr rid)" using b'(10,11) by simp
    show ?thesis
      unfolding Inr out prod.case sum.case
      by (rule exI[of _ b], rule exI[of _ t], intro conjI b, rule exI[of _ b'], rule exI[of _ t'], rule exI[of _ q],
          rule exI[of _ p], rule exI[of _ r], rule exI[of _ rid], rule exI[of _ row]) (intro conjI b' m i)
  qed (use b in auto)
qed

definition demo_contract :: json where
  "demo_contract = jobj [(''project'', JStr ''p''), (''scope'', jobj [(''area'', JStr ''x'')]), (''body'', jobj [(''kind'', JStr ''service_contract''),
     (''hypothesis'', JStr ''h''), (''reject_if'', JArr [JStr ''x'']), (''responses'', JArr [demo_response])])]"

lemmas demo_contract_simps = demo_contract_def demo_response_def demo_range_def

lemma demo_contract_ok: "dumpable demo_contract" "wf_json demo_contract"
  unfolding demo_contract_simps
  by (auto intro!: dumpable_jobj wf_jobj simp: utf8_ok_ascii)

text \<open>Values that name no record and no component, nested at most so deep.\<close>

fun plain :: "nat \<Rightarrow> json \<Rightarrow> bool" where
  "plain 0 j = False"
| "plain (Suc n) j = (case j of
      JObj m \<Rightarrow> \<forall>(k, v) \<in> set m. k \<noteq> ''id'' \<and> k \<noteq> ''target_id'' \<and> plain n v
    | JArr xs \<Rightarrow> \<forall>x \<in> set xs. plain n x
    | _ \<Rightarrow> True)"

lemma plain_simps:
  "plain (Suc n) (JArr xs) \<longleftrightarrow> (\<forall>x \<in> set xs. plain n x)" "plain (Suc n) (JStr t)" "plain (Suc n) (JUInt w)"
  by simp_all

lemma plain_jobj:
  "\<forall>(k, v) \<in> set kvs. k \<noteq> ''id'' \<and> k \<noteq> ''target_id'' \<and> plain n v \<Longrightarrow> plain (Suc n) (jobj kvs)"
  using set_emplaces[of kvs "[]"] by (auto simp: jobj_def)

lemma scope_values_ok:
  "\<forall>v \<in> set vs. scope_value parse db iv args depth v = Inr () \<Longrightarrow> scope_values parse db iv args depth vs = Inr ()"
  by (induction vs) (simp_all del: scope_value.simps)

lemma scope_value_plain: "plain n v \<Longrightarrow> depth + n \<le> 17 \<Longrightarrow> scope_value parse db iv args depth v = Inr ()"
proof (induction n arbitrary: depth v)
  case 0
  then show ?case by simp
next
  case (Suc n)
  show ?case
  proof (cases v)
    case (JObj m)
    have "scope_values parse db iv args (Suc depth) (map snd m) = Inr ()"
      by (rule scope_values_ok) (use Suc.prems JObj in \<open>auto intro!: Suc.IH simp del: scope_value.simps\<close>)
    moreover have "scope_references parse db iv args v = Inr ()"
      using Suc.prems JObj by (auto simp: scope_references_def dest!: map_of_SomeD)
    ultimately show ?thesis using Suc.prems(2) JObj by simp
  next
    case (JArr xs)
    have "scope_values parse db iv args (Suc depth) xs = Inr ()"
      by (rule scope_values_ok) (use Suc.prems JArr in \<open>auto intro!: Suc.IH simp del: scope_value.simps\<close>)
    then show ?thesis using Suc.prems(2) JArr by simp
  qed (use Suc.prems in auto)
qed

lemma jerase_absent: "\<not> contains j k \<Longrightarrow> jerase k j = j"
proof -
  have "k \<notin> fst ` set m \<Longrightarrow> smap_del k m = m" for m :: "(string \<times> json) list"
    by (induction k m rule: smap_del.induct) auto
  then show "\<not> contains j k \<Longrightarrow> jerase k j = j"
    by (cases j) (simp_all add: jerase_def map_of_eq_None_iff)
qed

lemma weight_puts:
  "is_object j \<Longrightarrow> json_weight j \<le> n \<Longrightarrow> json_weight v \<le> w \<Longrightarrow> 6 * length k + 4 + w + n \<le> m \<Longrightarrow> json_weight (jput k v j) \<le> m"
  using weight_jput_le[of j n k v] by linarith

lemma demo_contract_body: "\<exists>b. checked_body xair parse db demo_contract = Inr b \<and> dumpable b \<and> is_object b \<and> json_weight b \<le> 20000"
proof -
  obtain s where s: "jat ''body'' demo_contract = Inr s"
    and s_def: "s = jobj [(''kind'', JStr ''service_contract''), (''hypothesis'', JStr ''h''),
      (''reject_if'', JArr [JStr ''x'']), (''responses'', JArr [demo_response])]"
    by (simp add: demo_contract_def json_simps)
  obtain t where t: "dump demo_contract = Inr t" using demo_contract_ok by (simp add: dump_def)
  have r: "dumpable demo_response" "is_object demo_response" "json_weight demo_response \<le> 4000"
    unfolding demo_response_def demo_range_def by (auto intro!: dumpable_jobj simp: utf8_ok_ascii json_simps)
  let ?h = "jobj [(''schema'', JStr ''indago.research.v1''), (''kind'', JStr ''service_contract''),
       (''request_sha256'', JStr (sha256_text t)), (''verified_solve'', JBool False), (''universal_equivalence'', JBool False)]"
  let ?b = "jput ''scope_limit'' (JStr contract_limit) (jput ''simulated_service'' (JBool True)
         (jput ''status'' (JStr ''hypothesis_contract'') (jput ''responses''
           (JArr [jput ''can_prove_original_service_acceptance'' (JBool False) demo_response])
           (jput ''reject_if'' (JArr [JStr ''x'']) (jput ''hypothesis'' (JStr ''h'') ?h)))))"
  have b: "checked_body xair parse db demo_contract = Inr ?b"
    using t
    by (simp add: checked_body_def s body_header_def)
      (simp add: s_def contract_body_def text_limit_def sized_array_def check_all_def copy_field_def prior_contract_def
        demo_response_accepted trial_simps)
  have "dumpable ?b" using r(1) by (auto simp: utf8_ok_ascii contract_limit_def intro!: dumpable_jput dumpable_jobj)
  moreover have "json_weight ?b \<le> 20000"
  proof -
    let ?b1 = "jput ''hypothesis'' (JStr ''h'') ?h"
    let ?b2 = "jput ''reject_if'' (JArr [JStr ''x'']) ?b1"
    let ?r = "jput ''can_prove_original_service_acceptance'' (JBool False) demo_response"
    let ?b3 = "jput ''responses'' (JArr [?r]) ?b2"
    let ?b4 = "jput ''status'' (JStr ''hypothesis_contract'') ?b3"
    let ?b5 = "jput ''simulated_service'' (JBool True) ?b4"
    have "json_weight ?r \<le> 5000" by (rule weight_puts[OF r(2,3) order_refl]) simp
    then have rs: "json_weight (JArr [?r]) \<le> 5003" by simp
    have h: "json_weight ?h \<le> 1000" by (simp add: json_simps)
    have 1: "json_weight ?b1 \<le> 1200" by (rule weight_puts[OF _ h order_refl]) simp_all
    have 2: "json_weight ?b2 \<le> 1400" by (rule weight_puts[OF _ 1 order_refl]) simp_all
    have 3: "json_weight ?b3 \<le> 7000" by (rule weight_puts[OF _ 2 rs]) simp_all
    have 4: "json_weight ?b4 \<le> 8000" by (rule weight_puts[OF _ 3 order_refl]) simp_all
    have 5: "json_weight ?b5 \<le> 9000" by (rule weight_puts[OF _ 4 order_refl]) simp_all
    show ?thesis by (rule weight_puts[OF _ 5 order_refl]) (simp_all add: contract_limit_def)
  qed
  ultimately show ?thesis using b by (intro exI[of _ ?b]) simp
qed

lemma demo_contract_sealed: "\<exists>a. normalize_research xair parse db iv demo_contract = Inr a"
proof -
  obtain s where s: "jat ''body'' demo_contract = Inr s"
    and s_def: "s = jobj [(''kind'', JStr ''service_contract''), (''hypothesis'', JStr ''h''),
      (''reject_if'', JArr [JStr ''x'']), (''responses'', JArr [demo_response])]"
    by (simp add: demo_contract_def json_simps)
  have "dumpable s" "json_weight s \<le> 24576"
    unfolding s_def demo_response_def demo_range_def
    by (auto intro!: dumpable_jobj simp: utf8_ok_ascii json_simps)
  then obtain n where n: "dump_size s = Inr n" "n \<le> 24576" using dump_size_le by blast
  have "plain (Suc (Suc (Suc (Suc (Suc (Suc 0)))))) s"
    unfolding s_def demo_response_def demo_range_def
    by (auto intro!: plain_jobj simp: plain_simps simp del: plain.simps)
  then have scope: "scope_value parse db iv demo_contract 0 s = Inr ()" by (rule scope_value_plain) simp
  obtain b where b: "checked_body xair parse db demo_contract = Inr b" "dumpable b" using demo_contract_body by metis
  have e: "\<not> contains demo_contract ''sealed''" by (simp add: demo_contract_def json_simps)
  have k: "check_keys demo_contract [''project'', ''scope'', ''body'', ''sealed''] = Inr ()"
    by (simp add: demo_contract_def json_simps)
  show ?thesis
    using n(2) by (simp add: normalize_research_def k s n(1) scope e jerase_absent b dump_def research_seal_def del: scope_value.simps)
qed

text \<open>The execution of that request on the store it was sealed against.\<close>

definition product_request :: "json \<Rightarrow> json" where
  "product_request b = jobj [(''project'', JStr ''p''), (''kind'', JStr ''product''), (''title'', JStr ''Bounded research workflow''),
     (''state'', JStr ''unknown''), (''scope'', jobj [(''area'', JStr ''x'')]), (''body'', b),
     (''dependencies'', JArr []), (''author'', JStr ''native-research'')]"

definition product_record :: "json \<Rightarrow> json" where
  "product_record b = jobj [(''schema'', JStr ''indago.knowledge-record.v1''), (''project'', JStr ''p''), (''id'', JStr ''f''),
     (''revision'', jint 1), (''kind'', JStr ''product''), (''title'', JStr ''Bounded research workflow''), (''state'', JStr ''unknown''),
     (''scope'', jobj [(''area'', JStr ''x'')]), (''body'', b), (''assumptions'', JArr []),
     (''dependencies'', JArr []), (''support'', JArr []), (''counterevidence'', JArr []),
     (''author'', JStr ''native-research''), (''created_at'', JStr ''t1''), (''assertion_origin'', JStr ''deterministic_operation''),
     (''semantic_entailment_checked'', JBool False)]"

lemma product_checks:
  assumes "is_object b"
  shows "check_keys (product_request b) put_keys = Inr ()" "jvalue_str ''id'' ''f'' (product_request b) = Inr ''f''"
    "bound (product_request b) ''expected_revision'' 0 100000000 = Inr 0"
    "check_kind (product_request b) True = Inr (''product'', ''unknown'')"
    "check_title_scope (product_request b) = Inr (''Bounded research workflow'', jobj [(''area'', JStr ''x'')])"
    "check_body (product_request b) ''product'' = Inr b"
    "jat ''project'' (product_request b) = Inr (JStr ''p'')"
    "gather_dependencies parse db p ''f'' (product_request b) (jobj [(''area'', JStr ''x'')]) = Inr []"
    "record_json ''p'' ''f'' 1 (''product'', ''unknown'') (''Bounded research workflow'', jobj [(''area'', JStr ''x'')]) b [] True
       (product_request b) ''t1'' = Inr (product_record b)"
  using assms
  by (simp_all add: product_request_def json_simps jvalue_str_def jstr_at_def put_keys_def bound_def
    check_kind_def knowledge_kinds_def knowledge_states_def computed_kinds_def check_title_scope_def check_body_def
    gather_dependencies_def reference_list_def evidence_refs_def scope_refs_def record_json_def product_record_def)

lemma product_record_text:
  assumes "dumpable b" and "json_weight b \<le> 30000"
  shows "\<exists>t. dump (product_record b) = Inr t \<and> length t \<le> 256 * 1024"
proof -
  have "dumpable (product_record b)"
    using assms(1) unfolding product_record_def by (intro dumpable_jobj) (auto simp: utf8_ok_ascii intro!: dumpable_jobj)
  moreover have "json_weight (product_record b) \<le> 256 * 1024"
    using assms(2) by (simp add: product_record_def json_simps)
  ultimately show ?thesis using length_dump_text[of "product_record b"] by (auto simp: dump_def)
qed

lemma product_published:
  assumes "is_object b" and "dumpable b" and "json_weight b \<le> 30000"
  shows "\<exists>out. knowledge_put parse None 0 ''f'' ''t1'' demo_kb (product_request b) True = Inr out"
proof -
  note c = product_checks[OF assms(1)]
  obtain t where t: "dump (product_record b) = Inr t" "length t \<le> 256 * 1024" using product_record_text[OF assms(2,3)] by blast
  have "dumpable (jobj [(''revision'', jint 1), (''sha256'', JStr (sha256_text t))])"
    by (rule dumpable_jobj) (simp add: utf8_ok_ascii)
  then obtain db' where i: "insert_revision ''p'' ''f'' 1 ''product'' t [] ''t1'' demo_kb = Inr db'"
    "head_of db' ''p'' ''f'' = Some 1"
    by (auto simp: insert_revision_def dump_dumpable row_of_def demo_kb_def head_of_def put_head_def)
  have p: "wb_project (base demo_kb) (product_request b) = Inr ''p''"
    using c(7) by (simp add: wb_project_def project_info_def check_identifier_def identifier_chars_def demo_kb_def
        require_project_def validate_name_def is_alnum_def is_lower_def)
  have head: "head_of demo_kb ''p'' ''f'' = None" by (simp add: head_of_def demo_kb_def)
  have put: "put_commit parse None 0 ''f'' ''t1'' demo_kb (product_request b) True = Inr (''p'', product_record b, db')"
    using c head t i(1) p
    by (simp add: put_commit_def Let_def check_publication_dependencies_def link_publication_def check_identifier_def
        identifier_chars_def is_lower_def is_alnum_def)
  have f: "jat ''id'' (product_record b) = Inr (JStr ''f'')" "jat ''revision'' (product_record b) = Inr (jint 1)"
    "jat ''dependencies'' (product_record b) = Inr (JArr [])"
    by (simp_all add: product_record_def json_simps)
  have fresh: "fresh parse db' ''p'' 0 (product_record b) \<lparr>visited = 0, bounded = False, on_path = []\<rparr> =
      Inr ([], \<lparr>visited = 1, bounded = False, on_path = []\<rparr>)"
    by (simp add: fresh.simps fresh_deps.simps f jstr_at_def int32_text_def jword_def jrange_def Let_def)
  show ?thesis
    using put fresh i(2) by (simp add: knowledge_put_def decorated_def head_moved_def f jstr_at_def ji64_def jword_def Let_def)
qed

lemma visit_plain: "plain n v \<Longrightarrow> visit_value st args v s = Inr s"
proof (induction n arbitrary: v s)
  case (Suc n)
  have each: "foldE g xs s = Inr s" if "\<forall>x \<in> set xs. g x s = Inr s" for g :: "'x \<Rightarrow> _" and xs
    using that by (induction xs) simp_all
  show ?case
  proof (cases v)
    case (JObj m)
    then have "visit_references st args v s = Inr s"
      using Suc.prems by (auto simp: visit_references_def dest!: map_of_SomeD)
    moreover have "foldE (\<lambda>kv s. visit_value st args (snd kv) s) m s = Inr s"
      using Suc.prems JObj by (intro each) (fastforce intro: Suc.IH)
    ultimately show ?thesis using JObj by simp
  next
    case (JArr xs)
    have "foldE (\<lambda>x s. visit_value st args x s) xs s = Inr s"
      using Suc.prems JArr by (intro each) (auto intro: Suc.IH)
    then show ?thesis using JArr by simp
  qed simp_all
qed simp

lemma demo_contract_executed:
  assumes "normalize_research xair parse demo_kb iv demo_contract = Inr a"
  shows "\<exists>out. execute_research xair parse None 0 ''f'' ''t1'' demo_kb a = Inr out"
proof -
  obtain b t where b: "request_body xair parse demo_kb demo_contract = Inr b" "dump b = Inr t"
    and a: "a = jput ''sealed'' (jobj [(''body_sha256'', JStr (sha256_text t))]) demo_contract"
    using normalize_research_seal[OF assms] by blast
  have e: "\<not> contains demo_contract ''sealed''" "is_object demo_contract" by (simp_all add: demo_contract_def json_simps)
  have erased: "jerase ''sealed'' a = demo_contract" unfolding a jerase_jput[OF demo_contract_ok(2) e(2)] by (rule jerase_absent[OF e(1)])
  from b(1) have body: "checked_body xair parse demo_kb demo_contract = Inr b" by (simp add: request_body_def jerase_absent[OF e(1)])
  have size: "dumpable b" "is_object b" "json_weight b \<le> 20000"
    using demo_contract_body[of xair parse demo_kb] body by auto
  have "dumpable a" unfolding a by (auto intro!: dumpable_jput dumpable_jobj demo_contract_ok simp: utf8_ok_ascii)
  then obtain q where q: "dump a = Inr q" by (simp add: dump_def)
  have f: "jat ''sealed'' a = Inr (jobj [(''body_sha256'', JStr (sha256_text t))])" "jat ''project'' a = Inr (JStr ''p'')"
    "jat ''scope'' a = Inr (jobj [(''area'', JStr ''x'')])"
    by (simp_all add: a jat_jput_obj e(2) demo_contract_def json_simps del: jat_jput)
  obtain s where s: "jat ''body'' a = Inr s"
    and s_def: "s = jobj [(''kind'', JStr ''service_contract''), (''hypothesis'', JStr ''h''),
      (''reject_if'', JArr [JStr ''x'']), (''responses'', JArr [demo_response])]"
    by (simp add: a jat_jput_obj e(2) demo_contract_def json_simps del: jat_jput)
  have "plain (Suc (Suc (Suc (Suc (Suc (Suc 0)))))) s"
    unfolding s_def demo_response_def demo_range_def
    by (auto intro!: plain_jobj simp: plain_simps simp del: plain.simps)
  then have visit: "visit_value (base demo_kb) a s ([], []) = Inr ([], [])" by (rule visit_plain)
  have "is_object (jput ''request_sha256'' (JStr (sha256_text q)) b)" "dumpable (jput ''request_sha256'' (JStr (sha256_text q)) b)"
    "json_weight (jput ''request_sha256'' (JStr (sha256_text q)) b) \<le> 30000"
    using size by (auto simp: utf8_ok_ascii intro!: dumpable_jput weight_puts[OF _ size(3) order_refl])
  from product_published[OF this] show ?thesis
    unfolding execute_research_def erased
    by (simp add: body b(2) f q s visit jstr_at_def json_simps flip: product_request_def)
qed

theorem execution_respects_seal_witness:
  "\<exists>a answer db' b r row. normalize_research (\<lambda>_. None) no_parse demo_kb JNull demo_contract = Inr a \<and>
     execute_research (\<lambda>_. None) no_parse None 0 ''f'' ''t1'' demo_kb a = Inr (answer, db') \<and>
     request_body (\<lambda>_. None) no_parse demo_kb demo_contract = Inr b \<and> modest b \<and>
     records db' = [row] \<and> dump r = Inr (k_record row) \<and>
     (\<exists>h. jat ''body'' r = Inr (jput ''request_sha256'' (JStr h) b)) \<and> jat ''body'' answer = jat ''body'' r"
proof -
  obtain a where a: "normalize_research (\<lambda>_. None) no_parse demo_kb JNull demo_contract = Inr a"
    using demo_contract_sealed by blast
  obtain answer db' where e: "execute_research (\<lambda>_. None) no_parse None 0 ''f'' ''t1'' demo_kb a = Inr (answer, db')"
    using demo_contract_executed[OF a] by auto
  have "records demo_kb = []" by (simp add: demo_kb_def)
  with execution_respects_seal[OF a demo_contract_ok(2), where ctx = None and now = 0 and fid = "''f''" and at' = "''t1''" and db' = demo_kb] a e
  show ?thesis by auto
qed

end
