(* ===== verification/Ind_Ledger.thy ===== *)
theory Ind_Ledger
  imports Ind_Receipts
begin

text \<open>
  What the evaluation ledger guarantees: a saved record is read back unchanged, and a saved comparison is
  a matched pair that differs in exactly the feature it names.
\<close>

section \<open>The evaluation ledger\<close>

text \<open>A record with its hash, stored under its identifier, is what a load returns.\<close>

definition signed_entry :: "json \<Rightarrow> string \<Rightarrow> json" where
  "signed_entry named t = jput ''record_sha256'' (JStr (sha256_text t)) named"

lemma evaluation_load_signed:
  assumes "wf_json named" "is_object named" "\<not> contains named ''record_sha256''" "jat ''id'' named = Inr (JStr rid)"
    and "dump named = Inr t" and "check_identifier rid = Inr ()"
    and "files (rid @ ''.json'') = Some bytes" "length bytes \<le> record_limit" "parse bytes = Inr (signed_entry named t)"
  shows "evaluation_load parse files (JStr rid) = Inr (signed_entry named t)"
proof -
  have "jerase ''record_sha256'' (signed_entry named t) = named"
    using assms(1-3) by (simp add: signed_entry_def jerase_jput jerase_absent)
  moreover have "jat ''id'' (signed_entry named t) = Inr (JStr rid)"
    using assms(2,4) by (simp add: signed_entry_def jat_jput_obj del: jat_jput)
  moreover have "jat ''record_sha256'' (signed_entry named t) = Inr (JStr (sha256_text t))"
    by (simp add: signed_entry_def)
  ultimately show ?thesis
    using assms(5-9) by (simp add: evaluation_load_def read_file_def jstr_at_def)
qed

text \<open>
  C29. A record that the ledger saved is loaded back unchanged under its identifier, whatever else the
  directory holds, given that the stored text parses as the value it was written from and
  that the value did not come with a hash; the record never exceeds the limit of a read.
\<close>

theorem evaluation_roundtrip:
  assumes "evaluation_save rid body files = Inr (r, files')" and "wf_json body" "is_object body"
    and "\<not> contains body ''record_sha256''" and "check_identifier rid = Inr ()"
    and "\<And>t. dump r = Inr t \<Longrightarrow> parse t = Inr r"
  shows "evaluation_load parse files' (JStr rid) = Inr r \<and>
    (\<exists>t. files' = files(rid @ ''.json'' \<mapsto> t) \<and> length t \<le> record_limit)"
proof -
  let ?named = "jput ''id'' (JStr rid) body"
  obtain hashed out where hashed: "dump ?named = Inr hashed" and r: "r = signed_entry ?named hashed"
    and out: "dump r = Inr out" "length out \<le> record_limit" and files': "files' = files(rid @ ''.json'' \<mapsto> out)"
    using assms(1) by (auto simp: evaluation_save_def Let_def signed_entry_def)
  have "evaluation_load parse files' (JStr rid) = Inr (signed_entry ?named hashed)"
    by (rule evaluation_load_signed[OF _ _ _ _ hashed assms(5), of _ out])
      (use assms(2-4) out assms(6)[OF out(1)] r in \<open>auto simp: files' intro: wf_jput\<close>)
  then show ?thesis using r out files' by auto
qed

definition demo_attempt :: "string \<Rightarrow> bool \<Rightarrow> json" where
  "demo_attempt rid b = jobj [(''id'', JStr rid), (''schema'', JStr ''s''), (''challenge'', JStr ''c''), (''split'', JStr ''development''),
     (''artifact_sha256'', JStr ''a''), (''model'', JStr ''m''), (''settings'', JNull), (''seed'', jnat 1), (''budget'', JNull),
     (''features'', jobj [(''x'', JBool b)]), (''outcome'', JStr ''failed''), (''metrics'', JNull)]"

lemma demo_attempt_ok: "wf_json (demo_attempt rid b)" "is_object (demo_attempt rid b)" "\<not> contains (demo_attempt rid b) ''record_sha256''"
  "jat ''id'' (demo_attempt rid b) = Inr (JStr rid)" "utf8_ok rid \<Longrightarrow> dump (demo_attempt rid b) = Inr (dump_text (demo_attempt rid b))"
  unfolding demo_attempt_def
  by (auto simp: json_simps utf8_ok_ascii intro!: wf_jobj dump_dumpable dumpable_jobj)

lemma demo_ledger_save:
  assumes "j = jobj kvs" "dumpable j" "json_weight j \<le> 10000" "utf8_ok rid" "length rid \<le> 128"
  shows "\<exists>r f'. evaluation_save rid j files = Inr (r, f')"
proof -
  let ?n = "jput ''id'' (JStr rid) j"
  let ?r = "jput ''record_sha256'' (JStr (sha256_text (dump_text ?n))) ?n"
  have "dumpable ?n" using assms by (auto intro!: dumpable_jput simp: utf8_ok_ascii)
  moreover have "dumpable ?r" using \<open>dumpable ?n\<close> by (auto intro!: dumpable_jput simp: utf8_ok_ascii)
  moreover have "json_weight ?r \<le> record_limit"
    using weight_jput[of ?n "''record_sha256''" "JStr (sha256_text (dump_text ?n))"] weight_jput[of j "''id''" "JStr rid"]
      sha256_text_shape[of "dump_text ?n"] assms
    by (simp add: record_limit_def)
  ultimately show ?thesis
    using length_dump_text[of ?r] by (auto simp: evaluation_save_def Let_def dump_dumpable)
qed

theorem evaluation_roundtrip_witness:
  "\<exists>r files parse. evaluation_load parse files (JStr ''e1'') = Inr r \<and> files ''e1.json'' \<noteq> None"
proof -
  let ?j = "jobj [(''schema'', JStr ''x'')]"
  have "dumpable ?j" by (rule dumpable_jobj) (simp add: utf8_ok_ascii)
  then obtain r f' where save: "evaluation_save ''e1'' ?j Map.empty = Inr (r, f')"
    using demo_ledger_save[OF refl, of "[(''schema'', JStr ''x'')]" "''e1''" Map.empty] by (auto simp: utf8_ok_ascii json_simps)
  have "check_identifier ''e1'' = Inr ()" by (simp add: check_identifier_def identifier_chars_def)
  moreover have "wf_json ?j" by (rule wf_jobj) simp
  ultimately have "evaluation_load (\<lambda>_. Inr r) f' (JStr ''e1'') = Inr r \<and> f' ''e1.json'' \<noteq> None"
    using evaluation_roundtrip[OF save, of "\<lambda>_. Inr r"] by (auto simp: json_simps)
  then show ?thesis by blast
qed

text \<open>
  What an intact record is, apart from how it is loaded: the file of its identifier is within the limit of a read
  and parses as the record, the record names that identifier, and its hash is the SHA-256 of its text without it.
\<close>

definition intact_entry :: "(string \<Rightarrow> json res) \<Rightarrow> eval_files \<Rightarrow> json \<Rightarrow> json \<Rightarrow> bool" where
  "intact_entry parse files rid e \<longleftrightarrow>
     (\<exists>name bytes own t. rid = JStr name \<and> files (name @ ''.json'') = Some bytes \<and> length bytes \<le> record_limit \<and>
        parse bytes = Inr e \<and> jat ''id'' e = Inr own \<and> jeq own rid \<and>
        dump (jerase ''record_sha256'' e) = Inr t \<and> jat ''record_sha256'' e = Inr (JStr (sha256_text t)))"

lemma evaluation_load_intact: "evaluation_load parse files rid = Inr e \<Longrightarrow> intact_entry parse files rid e"
  unfolding evaluation_load_def intact_entry_def
  by (auto split: if_splits elim!: bindE_InrE dest!: read_file_ok)

text \<open>
  C30. A comparison that the ledger saves is a matched pair of intact records: each file parses as a record whose
  hash is the SHA-256 of the rest of it; the two agree on schema, challenge, split, artifact, model, settings, seed
  and budget, and their features are equal but for the one that was asked for, which differs.  The saved record
  names the two, the feature and the common model, carries the outcome and the metrics of the baseline and of the
  variant, in this order, makes no causal claim, and is the only file that changes.
\<close>

theorem ablation_is_matched:
  assumes "evaluation_compare parse rid r files = Inr (out, files')"
  shows "\<exists>bid vid a b af bf feature x y model oa ob ma mb saved. jat ''baseline'' r = Inr bid \<and> jat ''variant'' r = Inr vid \<and>
    intact_entry parse files bid a \<and> intact_entry parse files vid b \<and>
    (\<forall>k \<in> {''schema'', ''challenge'', ''split'', ''artifact_sha256'', ''model'', ''settings'', ''seed'', ''budget''}.
       \<exists>v w. jat k a = Inr v \<and> jat k b = Inr w \<and> jeq v w) \<and>
    jat ''features'' a = Inr af \<and> jat ''features'' b = Inr bf \<and> jat ''feature'' r = Inr (JStr feature) \<and>
    jat feature af = Inr x \<and> jat feature bf = Inr y \<and> \<not> jeq x y \<and>
    jeq (jerase feature af) (jerase feature bf) \<and>
    jat ''model'' a = Inr model \<and> jat ''outcome'' a = Inr oa \<and> jat ''outcome'' b = Inr ob \<and>
    jat ''metrics'' a = Inr ma \<and> jat ''metrics'' b = Inr mb \<and>
    jat ''id'' out = Inr (JStr rid) \<and> jat ''baseline'' out = Inr bid \<and> jat ''variant'' out = Inr vid \<and>
    jat ''feature'' out = Inr (JStr feature) \<and> jat ''model'' out = Inr model \<and>
    jat ''outcomes'' out = Inr (JArr [oa, ob]) \<and> jat ''metrics'' out = Inr (JArr [ma, mb]) \<and>
    jat ''causal_claim'' out = Inr (JBool False) \<and>
    dump out = Inr saved \<and> files' = files(rid @ ''.json'' \<mapsto> saved)"
proof -
  obtain bid vid a b u u' af bf feature model oa ob ma mb where ids: "jat ''baseline'' r = Inr bid" "jat ''variant'' r = Inr vid"
    and ab: "evaluation_load parse files bid = Inr a" "evaluation_load parse files vid = Inr b"
    and same: "foldE (same_field a b) matched_fields () = Inr u"
    and f: "jat ''features'' a = Inr af" "jat ''features'' b = Inr bf" "jstr_at ''feature'' r = Inr feature"
    and t: "toggles_only af bf feature = Inr u'"
    and res: "jat ''model'' a = Inr model" "jat ''outcome'' a = Inr oa" "jat ''outcome'' b = Inr ob"
      "jat ''metrics'' a = Inr ma" "jat ''metrics'' b = Inr mb"
    and save: "evaluation_save rid (jobj [(''schema'', JStr ''indago.ablation.v1''), (''baseline'', bid), (''variant'', vid),
         (''feature'', JStr feature), (''model'', model), (''outcomes'', JArr [oa, ob]), (''metrics'', JArr [ma, mb]),
         (''causal_claim'', JBool False), (''scope_limit'', JStr ablation_limit)]) files = Inr (out, files')"
    using assms unfolding evaluation_compare_def by (elim bindE_elims) (rule that, assumption+)
  have "\<exists>v w. jat k a = Inr v \<and> jat k b = Inr w \<and> jeq v w" if "k \<in> set matched_fields" for k
    using foldE_each[OF same that] by (auto simp: same_field_def)
  then have matched: "\<forall>k \<in> {''schema'', ''challenge'', ''split'', ''artifact_sha256'', ''model'', ''settings'', ''seed'', ''budget''}.
       \<exists>v w. jat k a = Inr v \<and> jat k b = Inr w \<and> jeq v w"
    unfolding matched_fields_def list.set by blast
  obtain x y where toggled: "jat feature af = Inr x" "jat feature bf = Inr y" "\<not> jeq x y"
    "jeq (jerase feature af) (jerase feature bf)"
    using t by (auto simp: toggles_only_def contains_iff split: if_splits)
  obtain saved where out: "dump out = Inr saved" "files' = files(rid @ ''.json'' \<mapsto> saved)"
    "jat ''id'' out = Inr (JStr rid)" "jat ''baseline'' out = Inr bid" "jat ''variant'' out = Inr vid"
    "jat ''feature'' out = Inr (JStr feature)" "jat ''model'' out = Inr model" "jat ''outcomes'' out = Inr (JArr [oa, ob])"
    "jat ''metrics'' out = Inr (JArr [ma, mb])" "jat ''causal_claim'' out = Inr (JBool False)"
    using save by (auto simp: evaluation_save_def Let_def smap_get_jput smap_get_jobj)
  have feature: "jat ''feature'' r = Inr (JStr feature)" using f(3) by simp
  show ?thesis
    by (rule exI[of _ bid], rule exI[of _ vid], rule exI[of _ a], rule exI[of _ b], rule exI[of _ af], rule exI[of _ bf],
        rule exI[of _ feature], rule exI[of _ x], rule exI[of _ y], rule exI[of _ model], rule exI[of _ oa], rule exI[of _ ob],
        rule exI[of _ ma], rule exI[of _ mb], rule exI[of _ saved])
      (intro conjI ids ab[THEN evaluation_load_intact] matched f(1,2) feature toggled res out)
qed

lemma demo_pair_loads:
  assumes "rid = ''a'' \<and> b = True \<or> rid = ''b'' \<and> b = False"
  shows "evaluation_load
      (\<lambda>t. Inr (signed_entry (demo_attempt t (t = ''a'')) (dump_text (demo_attempt t (t = ''a'')))))
      [''a.json'' \<mapsto> ''a'', ''b.json'' \<mapsto> ''b''] (JStr rid) =
    Inr (signed_entry (demo_attempt rid b) (dump_text (demo_attempt rid b)))"
  by (rule evaluation_load_signed[of _ _ _ _ rid])
    (use assms demo_attempt_ok in \<open>auto simp: utf8_ok_ascii check_identifier_def identifier_chars_def record_limit_def\<close>)

definition demo_ablation :: json where
  "demo_ablation = jobj [(''evaluation_root'', JStr ''r''), (''baseline'', JStr ''a''), (''variant'', JStr ''b''), (''feature'', JStr ''x'')]"

lemma demo_attempt_fields:
  "jat ''schema'' (demo_attempt rid b) = Inr (JStr ''s'')" "jat ''challenge'' (demo_attempt rid b) = Inr (JStr ''c'')"
  "jat ''split'' (demo_attempt rid b) = Inr (JStr ''development'')" "jat ''artifact_sha256'' (demo_attempt rid b) = Inr (JStr ''a'')"
  "jat ''model'' (demo_attempt rid b) = Inr (JStr ''m'')" "jat ''settings'' (demo_attempt rid b) = Inr JNull"
  "jat ''seed'' (demo_attempt rid b) = Inr (jnat 1)" "jat ''budget'' (demo_attempt rid b) = Inr JNull"
  "jat ''features'' (demo_attempt rid b) = Inr (jobj [(''x'', JBool b)])" "jat ''outcome'' (demo_attempt rid b) = Inr (JStr ''failed'')"
  "jat ''metrics'' (demo_attempt rid b) = Inr JNull"
  by (simp_all add: demo_attempt_def json_simps)

theorem ablation_is_matched_witness:
  "\<exists>parse files out files' a b. evaluation_compare parse ''c'' demo_ablation files = Inr (out, files') \<and>
     intact_entry parse files (JStr ''a'') a \<and> intact_entry parse files (JStr ''b'') b \<and>
     jat ''model'' out = jat ''model'' a \<and> jat ''causal_claim'' out = Inr (JBool False) \<and> files' ''c.json'' \<noteq> None"
proof -
  let ?parse = "\<lambda>t. Inr (signed_entry (demo_attempt t (t = ''a'')) (dump_text (demo_attempt t (t = ''a'')))) :: json res"
  let ?files = "[''a.json'' \<mapsto> ''a'', ''b.json'' \<mapsto> ''b'']"
  let ?e = "\<lambda>rid b. signed_entry (demo_attempt rid b) (dump_text (demo_attempt rid b))"
  have loads: "evaluation_load ?parse ?files (JStr ''a'') = Inr (?e ''a'' True)"
    "evaluation_load ?parse ?files (JStr ''b'') = Inr (?e ''b'' False)"
    by (rule demo_pair_loads; simp)+
  have e: "rehash (?e rid b) u = Inr ()" "jat k (?e rid b) = (if k = ''record_sha256''
      then Inr (JStr (sha256_text (dump_text (demo_attempt rid b)))) else jat k (demo_attempt rid b))"
    if "utf8_ok rid" for rid b u k
    using demo_attempt_ok(1,2,3)[of rid b] demo_attempt_ok(5)[OF that, of b]
    by (simp_all add: rehash_def signed_entry_def jerase_jput jerase_absent jstr_at_def jat_jput_obj del: jat_jput)
  have "\<exists>out f'. evaluation_save ''c'' (jobj [(''schema'', JStr ''indago.ablation.v1''), (''baseline'', JStr ''a''),
      (''variant'', JStr ''b''), (''feature'', JStr ''x''), (''model'', JStr ''m''), (''outcomes'', JArr [JStr ''failed'', JStr ''failed'']),
      (''metrics'', JArr [JNull, JNull]), (''causal_claim'', JBool False), (''scope_limit'', JStr ablation_limit)]) ?files = Inr (out, f')"
    by (rule demo_ledger_save[OF refl])
      (auto intro!: dumpable_jobj simp: utf8_ok_ascii ablation_limit_def json_simps)
  moreover have "check_keys demo_ablation [''evaluation_root'', ''baseline'', ''variant'', ''feature''] = Inr ()"
    "jat ''baseline'' demo_ablation = Inr (JStr ''a'')" "jat ''variant'' demo_ablation = Inr (JStr ''b'')"
    "jstr_at ''feature'' demo_ablation = Inr ''x''"
    by (simp_all add: demo_ablation_def json_simps jstr_at_def)
  moreover have "toggles_only (jobj [(''x'', JBool True)]) (jobj [(''x'', JBool False)]) ''x'' = Inr ()"
    by (simp add: toggles_only_def json_simps) (simp add: jobj_def jerase_def smap_emplace_def)
  ultimately obtain out f' where cmp: "evaluation_compare ?parse ''c'' demo_ablation ?files = Inr (out, f')"
    by (auto simp: evaluation_compare_def loads e utf8_ok_ascii same_field_def matched_fields_def
        demo_attempt_fields simp del: fun_upd_apply)
  from ablation_is_matched[OF this] obtain bid vid a b model saved where w: "jat ''baseline'' demo_ablation = Inr bid"
    "jat ''variant'' demo_ablation = Inr vid" "intact_entry ?parse ?files bid a" "intact_entry ?parse ?files vid b"
    "jat ''model'' a = Inr model" "jat ''model'' out = Inr model" "jat ''causal_claim'' out = Inr (JBool False)" "f' = ?files(''c'' @ ''.json'' \<mapsto> saved)"
    by (elim exE conjE) (rule that, assumption+)
  then have "bid = JStr ''a''" "vid = JStr ''b''" by (simp_all add: demo_ablation_def json_simps)
  moreover have "f' ''c.json'' \<noteq> None" "jat ''model'' out = jat ''model'' a" using w(5,6) by (simp_all add: w(8))
  ultimately show ?thesis using cmp w(3,4,7) by blast
qed

end
