(* ===== verification/Ind_Packets.thy ===== *)
theory Ind_Packets
  imports Ind_Scope Ind_Number
begin

text \<open>
  The projection of packet captures (\<^verbatim>\<open>src/packet_streams.hpp\<close>): frame references and upstream stream
  numbers are copied out of the native layers, with bounds and explicit markers of partial results; nothing is
  parsed or reassembled.
\<close>

section \<open>Frame references\<close>

definition frame_fields :: "(string \<times> string) list" where
  "frame_fields = [(''tcp.analysis.acks_frame'', ''native_tcp_ack''), (''tcp.reassembled_in'', ''native_tcp_reassembled_in''),
     (''tcp.segment'', ''native_tcp_segment_source'')]"

text \<open>The reference list of one packet, the partial marker, and the count of visited nodes.\<close>

record frame_state =
  fr_refs :: "json list"
  fr_partial :: bool
  fr_visited :: nat

abbreviation mark_partial :: "frame_state \<Rightarrow> frame_state" where
  "mark_partial s \<equiv> s\<lparr>fr_partial := True\<rparr>"

text \<open>A decimal number in its canonical form that fits 32 bits.\<close>

definition ordinal :: "string \<Rightarrow> nat option" where
  "ordinal text =
     (case from_chars_all 10 (2 ^ 32 - 1) text of
        Some n \<Rightarrow> if text = to_string n then Some n else None
      | None \<Rightarrow> None)"

definition frame_reference :: "string \<Rightarrow> string \<Rightarrow> string \<Rightarrow> json \<Rightarrow> string \<Rightarrow> nat \<Rightarrow> json" where
  "frame_reference hash kind pointer raw text frame =
     jobj [(''kind'', JStr kind), (''target_packet_id'', JStr (hash @ '':'' @ text)),
       (''target_location'', jobj [(''address_space'', JStr ''capture_frame''), (''address'', jnat frame)]),
       (''native_pointer'', JStr pointer), (''native_frame_number'', raw),
       (''assertion'', JStr ''upstream frame relationship; not independent delivery or reassembly validation'')]"

definition add_frame :: "string \<Rightarrow> json \<Rightarrow> string \<Rightarrow> string \<Rightarrow> frame_state \<Rightarrow> frame_state" where
  "add_frame hash raw pointer kind s =
     (case raw of
        JStr text \<Rightarrow>
          if length (fr_refs s) \<ge> 64 then mark_partial s
          else (case ordinal text of
                  None \<Rightarrow> mark_partial s
                | Some frame \<Rightarrow> if frame = 0 then mark_partial s
                    else s\<lparr>fr_refs := fr_refs s @ [frame_reference hash kind pointer raw text frame]\<rparr>)
      | _ \<Rightarrow> mark_partial s)"

definition add_frames :: "string \<Rightarrow> json \<Rightarrow> string \<Rightarrow> string \<Rightarrow> frame_state \<Rightarrow> frame_state" where
  "add_frames hash value child kind s =
     (case value of
        JArr xs \<Rightarrow>
          let s = fold (\<lambda>(i, x). add_frame hash x (child @ ''/'' @ to_string i) kind) (enumerate 0 (take 64 xs)) s
          in if length xs > 64 then mark_partial s else s
      | _ \<Rightarrow> add_frame hash value child kind s)"

text \<open>
  The traversal: at most 1024 nodes are visited and at most twelve levels.  The fuel is the depth that is left; a
  node below it is only marked.
\<close>

function (sequential) visit_frames :: "nat \<Rightarrow> string \<Rightarrow> json \<Rightarrow> string \<Rightarrow> frame_state \<Rightarrow> frame_state"
and visit_fields :: "nat \<Rightarrow> string \<Rightarrow> (string \<times> json) list \<Rightarrow> string \<Rightarrow> frame_state \<Rightarrow> frame_state"
and visit_items :: "nat \<Rightarrow> string \<Rightarrow> json list \<Rightarrow> nat \<Rightarrow> string \<Rightarrow> frame_state \<Rightarrow> frame_state" where
  "visit_frames levels hash node pointer s =
     (let s = s\<lparr>fr_visited := Suc (fr_visited s)\<rparr> in
      if fr_visited s > 1024 then mark_partial s
      else case levels of
        0 \<Rightarrow> mark_partial s
      | Suc below \<Rightarrow>
          (case node of
             JObj m \<Rightarrow> visit_fields below hash m pointer s
           | JArr xs \<Rightarrow> visit_items below hash xs 0 pointer s
           | _ \<Rightarrow> s))"
| "visit_fields below hash [] pointer s = s"
| "visit_fields below hash ((key, value) # rest) pointer s =
     (if fr_visited s \<ge> 1024 then mark_partial s
      else
        let child = pointer @ ''/'' @ escape_key key;
            s = (case map_of frame_fields key of
                   Some kind \<Rightarrow> add_frames hash value child kind (s\<lparr>fr_visited := Suc (fr_visited s)\<rparr>)
                 | None \<Rightarrow> if \<not> ends_with key ''_raw'' then visit_frames below hash value child s
                           else s\<lparr>fr_visited := Suc (fr_visited s)\<rparr>)
        in visit_fields below hash rest pointer s)"
| "visit_items below hash [] i pointer s = s"
| "visit_items below hash (x # rest) i pointer s =
     (if fr_visited s \<ge> 1024 then mark_partial s
      else visit_items below hash rest (Suc i) pointer (visit_frames below hash x (pointer @ ''/'' @ to_string i) s))"
  by pat_completeness auto

termination
  by (relation "measures [case_sum (\<lambda>(levels, _). levels) (case_sum (\<lambda>(levels, _). levels) (\<lambda>(levels, _). levels)),
      case_sum (\<lambda>_. 0) (case_sum (\<lambda>(_, _, m, _). length m) (\<lambda>(_, _, xs, _). length xs))]") simp_all

text \<open>Depth 12 is still visited, so thirteen levels are.\<close>

definition project_packet_frame_references :: "json \<Rightarrow> json \<Rightarrow> string \<Rightarrow> string \<Rightarrow> json" where
  "project_packet_frame_references packet layers pointer hash =
     (let s = visit_frames 13 hash layers pointer \<lparr>fr_refs = [], fr_partial = False, fr_visited = 0\<rparr> in
      jput ''frame_reference_projection_partial'' (JBool (fr_partial s)) (jput ''frame_refs'' (JArr (fr_refs s)) packet))"

section \<open>Streams\<close>

definition stream_profile :: "json \<Rightarrow> json res" where
  "stream_profile result =
     bindE (jat ''artifact_sha256'' result) (\<lambda>sha. bindE (jat ''provenance'' result) (\<lambda>provenance.
     bindE (dump (JArr [JStr ''indago.wireshark-stream-profile.v1'', sha, provenance,
       JStr ''one-pass offline dissection; name resolution disabled; upstream defaults''])) (\<lambda>text.
       Inr (JStr (sha256_text text)))))"

record stream_state =
  st_refs :: "json list"
  st_partial :: bool
  st_streams :: "json list"
  st_index :: "(string \<times> nat) list"

definition new_stream :: "string \<Rightarrow> string \<Rightarrow> string \<Rightarrow> json \<Rightarrow> json" where
  "new_stream i transport number profile =
     jobj [(''id'', JStr i), (''name'', JStr (transport @ '' stream '' @ number)), (''transport'', JStr transport),
       (''native_ordinal'', JStr number), (''profile_id'', profile),
       (''identity_scope'', JStr (''capture and dissection profile; upstream stream index, '' @
          ''not a proven connection incarnation'')),
       (''packet_ids'', JArr []), (''membership_scope'', JStr ''returned page only''), (''complete'', JBool False),
       (''process_attribution'', JBool False)]"

definition push_packet :: "json \<Rightarrow> json \<Rightarrow> json res" where
  "push_packet pid stream =
     bindE (jat ''packet_ids'' stream) (\<lambda>ids. bindE (push_back pid ids) (\<lambda>ids. Inr (jput ''packet_ids'' ids stream)))"

definition join_stream :: "nat \<Rightarrow> json \<Rightarrow> json \<Rightarrow> string \<Rightarrow> string \<Rightarrow> stream_state \<Rightarrow> stream_state res" where
  "join_stream i profile packet transport number s =
     bindE (dump (JArr [profile, JStr transport, JStr number])) (\<lambda>text.
       let sid = ''stream_'' @ sha256_text text;
           pointer = ''/native_packets/'' @ to_string i @ ''/_source/layers/'' @ transport @ ''/'' @ transport @ ''.stream'';
           s = s\<lparr>st_refs := st_refs s @ [jobj [(''id'', JStr sid), (''transport'', JStr transport),
                 (''native_ordinal'', JStr number), (''native_pointer'', JStr pointer)]]\<rparr>;
           s = (case smap_get (st_index s) sid of
                  Some n \<Rightarrow> s
                | None \<Rightarrow> s\<lparr>st_index := smap_put sid (length (st_streams s)) (st_index s),
                            st_streams := st_streams s @ [new_stream sid transport number profile]\<rparr>);
           n = (case smap_get (st_index s) sid of Some n \<Rightarrow> n | None \<Rightarrow> 0)
       in bindE (jat ''id'' packet) (\<lambda>pid.
          bindE (if n < length (st_streams s) then push_packet pid (st_streams s ! n) else Inl Json_Type) (\<lambda>stream.
            Inr (s\<lparr>st_streams := (st_streams s)[n := stream]\<rparr>))))"

text \<open>One transport of one packet; a repeated layer is not flattened into a single stream.\<close>

definition add_transport :: "nat \<Rightarrow> json \<Rightarrow> json \<Rightarrow> json \<Rightarrow> string \<Rightarrow> stream_state \<Rightarrow> stream_state res" where
  "add_transport i profile packet layers transport s =
     (if \<not> contains layers transport then Inr s
      else bindE (jat transport layers) (\<lambda>layer.
        if \<not> is_object layer then Inr (s\<lparr>st_partial := True\<rparr>)
        else if \<not> contains layer (transport @ ''.stream'') then Inr s
        else bindE (jat (transport @ ''.stream'') layer) (\<lambda>raw.
          case raw of
            JStr number \<Rightarrow> (case ordinal number of
                None \<Rightarrow> Inr (s\<lparr>st_partial := True\<rparr>)
              | Some n \<Rightarrow> join_stream i profile packet transport number s)
          | _ \<Rightarrow> Inr (s\<lparr>st_partial := True\<rparr>))))"

definition native_layers :: "json \<Rightarrow> nat \<Rightarrow> json res" where
  "native_layers result i =
     bindE (jat ''native_packets'' result) (\<lambda>ps. bindE (jnth i ps) (\<lambda>p. bindE (jat ''_source'' p) (jat ''layers'')))"

definition project_packet ::
  "json \<Rightarrow> json \<Rightarrow> string \<Rightarrow> nat \<times> json \<Rightarrow> json list \<times> json list \<times> (string \<times> nat) list \<Rightarrow>
   (json list \<times> json list \<times> (string \<times> nat) list) res" where
  "project_packet result profile hash = (\<lambda>(i, packet) (packets, streams, index).
     bindE (jset ''stream_refs'' (JArr []) packet) (\<lambda>packet. bindE (native_layers result i) (\<lambda>layers.
       let packet = project_packet_frame_references packet layers (''/native_packets/'' @ to_string i @ ''/_source/layers'') hash in
     bindE (foldE (add_transport i profile packet layers) [''tcp'', ''udp'']
              \<lparr>st_refs = [], st_partial = False, st_streams = streams, st_index = index\<rparr>) (\<lambda>s.
       Inr (packets @ [jput ''stream_projection_partial'' (JBool (st_partial s)) (jput ''stream_refs'' (JArr (st_refs s)) packet)],
            st_streams s, st_index s)))))"

definition project_packet_streams :: "json \<Rightarrow> json res" where
  "project_packet_streams result =
     bindE (stream_profile result) (\<lambda>profile.
     bindE (jat ''packets'' result) (\<lambda>given.
     bindE (case given of JArr xs \<Rightarrow> Inr xs | JObj [] \<Rightarrow> Inr [] | JNull \<Rightarrow> Inr [] | _ \<Rightarrow> Inl Json_Type) (\<lambda>packets.
     bindE (jstr_at ''artifact_sha256'' result) (\<lambda>hash.
     bindE (foldE (project_packet result profile hash) (enumerate 0 packets) ([], [], [])) (\<lambda>(packets, streams, index).
       Inr (jput ''packets'' (if packets = [] then given else JArr packets)
              (jput ''streams'' (JArr streams) (jput ''stream_profile_id'' profile result))))))))"

section \<open>Bounds of the frame references\<close>

definition refs_bounded :: "frame_state \<Rightarrow> bool" where
  "refs_bounded s = (length (fr_refs s) \<le> 64)"

lemma refs_bounded_upd [simp]:
  "refs_bounded (s\<lparr>fr_visited := n\<rparr>) = refs_bounded s" "refs_bounded (s\<lparr>fr_partial := b\<rparr>) = refs_bounded s"
  by (simp_all add: refs_bounded_def)

lemma add_frame_bounded: "refs_bounded s \<Longrightarrow> refs_bounded (add_frame hash raw pointer kind s)"
  by (auto simp: add_frame_def refs_bounded_def split: json.splits option.splits)

lemma fold_keeps: "(\<And>x s. P s \<Longrightarrow> P (f x s)) \<Longrightarrow> P s \<Longrightarrow> P (fold f xs s)"
  by (induction xs arbitrary: s) simp_all

lemma add_frames_bounded: "refs_bounded s \<Longrightarrow> refs_bounded (add_frames hash value child kind s)"
proof -
  assume s: "refs_bounded s"
  have "refs_bounded (fold (\<lambda>(i, x). add_frame hash x (child @ ''/'' @ to_string i) kind) xs s)" for xs
    by (rule fold_keeps[where P = refs_bounded, OF _ s]) (auto simp: add_frame_bounded split: prod.splits)
  then show ?thesis
    using add_frame_bounded[OF s] by (auto simp: add_frames_def Let_def refs_bounded_def split: json.splits)
qed

text \<open>A packet never gets more than 64 frame references, whatever its layers hold.\<close>

lemma visit_bounded:
  "refs_bounded s \<Longrightarrow> refs_bounded (visit_frames levels hash node pointer s)"
  "refs_bounded s \<Longrightarrow> refs_bounded (visit_fields below hash members pointer s)"
  "refs_bounded s \<Longrightarrow> refs_bounded (visit_items below hash items i pointer s)"
proof (induction levels hash node pointer s and below hash members pointer s and below hash items i pointer s
    rule: visit_frames_visit_fields_visit_items.induct)
  case (1 levels hash node pointer s)
  then show ?case by (auto simp: Let_def split: json.splits nat.splits)
next
  case (3 below hash key v rest pointer s)
  then show ?case by (cases "map_of frame_fields key") (auto simp: Let_def add_frames_bounded)
next
  case (5 below hash x rest i pointer s)
  then show ?case by auto
qed simp_all

end
