(* ===== verification/Ind_Validate.thy ===== *)
theory Ind_Validate
  imports Ind_Evidence Ind_Number
begin

text \<open>
  The checks of explicit claims (\<^verbatim>\<open>harness_validate\<close> of \<^verbatim>\<open>src/harness_validation.hpp\<close>):
  each check names operands in verified evidence and what it expects of them.  Only the exact
  operands are checked; sums and ranges are refused when they leave 64 bits.
\<close>

section \<open>Operands\<close>

definition check_arity :: "string \<Rightarrow> nat" where
  "check_arity op = (if op = ''equal'' \<or> op = ''bits'' then 1 else if op = ''sum'' then 2
     else if op = ''contains'' then 3 else 0)"

text \<open>A complete page of verified evidence: the scalar it shows.\<close>

definition page_incomplete :: "json \<Rightarrow> bool res" where
  "page_incomplete page = any_differs
     [bindE (jvalue_bool ''source_verified'' False page) (\<lambda>b. Inr (\<not> b)), jvalue_bool ''partial'' True page]"

definition page_value :: "json \<Rightarrow> json res" where
  "page_value page = (if contains page ''text'' then jat ''text'' page else jat ''value'' page)"

definition bounded_scalar :: "json \<Rightarrow> bool res" where
  "bounded_scalar v = (if \<not> is_primitive v then Inr False else bindE (dump_size v) (\<lambda>n. Inr (n \<le> 512)))"

definition operand_page :: "(string \<Rightarrow> json res) \<Rightarrow> store \<Rightarrow> json \<Rightarrow> json \<Rightarrow> json \<Rightarrow> json res" where
  "operand_page parse st iv allowed ref =
     bindE (check_keys ref [''evidence_id'', ''pointer'', ''raw_sha256'']) (\<lambda>_.
     bindE (jat ''evidence_id'' ref) (\<lambda>ev.
     throw_if (\<not> is_null allowed \<and> \<not> list_ex (\<lambda>a. jeq a ev) (jrange allowed)) ''Check operand must be cited by its claim'' (
     bindE (jat ''pointer'' ref) (\<lambda>pointer. bindE (jat ''raw_sha256'' ref) (\<lambda>raw.
       harness_evidence_page parse st iv
         (jobj [(''id'', ev), (''pointer'', pointer), (''raw_sha256'', raw), (''max_bytes'', jint 512)]))))))"

definition operand_source :: "json \<Rightarrow> json \<Rightarrow> json res" where
  "operand_source ref page =
     bindE (jat ''evidence_id'' ref) (\<lambda>ev. bindE (jat ''pointer'' ref) (\<lambda>pointer. bindE (jat ''raw_sha256'' page) (\<lambda>raw.
     bindE (jat ''revision'' page) (\<lambda>revision. bindE (jat ''native_status'' page) (\<lambda>status.
       Inr (jobj [(''evidence_id'', ev), (''pointer'', pointer), (''raw_sha256'', raw), (''revision'', revision),
         (''native_status'', status)]))))))"

definition operand :: "(string \<Rightarrow> json res) \<Rightarrow> store \<Rightarrow> json \<Rightarrow> json \<Rightarrow> json \<Rightarrow> (json \<times> json) res" where
  "operand parse st iv allowed ref =
     bindE (operand_page parse st iv allowed ref) (\<lambda>page.
     bindE (page_incomplete page) (\<lambda>bad.
     throw_if bad ''Check requires a complete verified scalar page'' (
     bindE (page_value page) (\<lambda>v. bindE (bounded_scalar v) (\<lambda>ok.
     throw_if (\<not> ok) ''Check operand is not a bounded scalar'' (
     bindE (operand_source ref page) (\<lambda>source. Inr (v, source))))))))"

section \<open>One check\<close>

definition check_bits :: "json \<Rightarrow> json \<Rightarrow> json \<Rightarrow> (json \<times> bool) res" where
  "check_bits v check expected =
     throw_if (\<not> is_boolean expected) ''bits expected must be boolean'' (
     bindE (jat ''mask'' check) (\<lambda>m. bindE (harness_unsigned m) (\<lambda>mask.
     throw_if (mask = 0) ''bits mask must be nonzero'' (
     bindE (harness_unsigned v) (\<lambda>n.
       let actual = JBool (n AND mask = mask) in Inr (actual, jeq actual expected))))))"

definition check_range_sum :: "string \<Rightarrow> json list \<Rightarrow> json \<Rightarrow> (json \<times> bool) res" where
  "check_range_sum op vs expected =
     bindE (harness_unsigned (vs ! 0)) (\<lambda>start. bindE (harness_unsigned (vs ! 1)) (\<lambda>n.
     throw_if (n > u64_max - start) ''Unsigned range/addition overflow; no wrapped result accepted'' (
       if op = ''sum'' then bindE (harness_unsigned expected) (\<lambda>e. Inr (jnat (start + n), start + n = e))
       else throw_if (\<not> is_boolean expected) ''contains expected must be boolean'' (
         bindE (harness_unsigned (vs ! 2)) (\<lambda>address.
           let actual = JBool (address \<ge> start \<and> address < start + n) in Inr (actual, jeq actual expected))))))"

definition evaluate_check :: "string \<Rightarrow> json list \<Rightarrow> json \<Rightarrow> json \<Rightarrow> (json \<times> bool) res" where
  "evaluate_check op vs check expected =
     (if op = ''equal'' then Inr (vs ! 0, jeq (vs ! 0) expected)
      else if op = ''bits'' then check_bits (vs ! 0) check expected
      else check_range_sum op vs expected)"

definition check_operands :: "string \<Rightarrow> json \<Rightarrow> json list res" where
  "check_operands op check =
     bindE (jat ''operands'' check) (\<lambda>os.
     throw_if (check_arity op = 0 \<or> \<not> is_array os \<or> jsize os \<noteq> check_arity op) ''Invalid check operation or operand count'' (
     throw_if (contains check ''mask'' \<noteq> (op = ''bits'')) ''Only bits requires mask'' (Inr (elems os))))"

definition check_result :: "string \<Rightarrow> json \<Rightarrow> bool \<Rightarrow> json \<Rightarrow> json list \<Rightarrow> json" where
  "check_result op actual same expected sources =
     jobj [(''operation'', JStr op), (''status'', JStr (if same then ''passed'' else ''contradicted'')), (''actual'', actual),
       (''expected'', expected), (''sources'', JArr sources)]"

definition run_check :: "(string \<Rightarrow> json res) \<Rightarrow> store \<Rightarrow> json \<Rightarrow> json \<Rightarrow> json \<Rightarrow> (json \<times> bool) res" where
  "run_check parse st iv allowed check =
     bindE (check_keys check [''operation'', ''operands'', ''expected'', ''mask'']) (\<lambda>_.
     bindE (jstr_at ''operation'' check) (\<lambda>op.
     bindE (check_operands op check) (\<lambda>refs.
     bindE (mapE (operand parse st iv allowed) refs) (\<lambda>ops.
     bindE (jat ''expected'' check) (\<lambda>expected. bindE (dump_size expected) (\<lambda>n.
     throw_if (n > 512) ''Expected value too large'' (
     bindE (evaluate_check op (map fst ops) check expected) (\<lambda>(actual, same).
       Inr (check_result op actual same expected (map snd ops), same)))))))))"

section \<open>All checks\<close>

definition validation_scope :: string where
  "validation_scope = ''Exact snapshot operands only; prose, completeness and backend semantic equivalence are not proven''"

definition validation_result :: "(json \<times> bool) list \<Rightarrow> json" where
  "validation_result rs =
     jobj [(''schema'', JStr ''indago.claim-checks.v1''),
       (''status'', JStr (if list_all snd rs then ''passed'' else ''contradicted'')), (''checks'', JArr (map fst rs)),
       (''semantic_entailment_checked'', JBool False), (''scope'', JStr validation_scope)]"

definition harness_validate :: "(string \<Rightarrow> json res) \<Rightarrow> store \<Rightarrow> json \<Rightarrow> json \<Rightarrow> json \<Rightarrow> json res" where
  "harness_validate parse st iv checks allowed =
     throw_if (\<not> is_array checks \<or> jempty checks \<or> jsize checks > 8) ''Validation requires 1 to 8 explicit checks'' (
     bindE (mapE (run_check parse st iv allowed) (elems checks)) (\<lambda>rs.
     bindE (dump_size (validation_result rs)) (\<lambda>n.
       throw_if (n > 12288) ''Claim check result exceeds byte budget'' (Inr (validation_result rs)))))"

section \<open>What a passed validation says\<close>

text \<open>The statement of a check about its operand values, over the natural numbers.\<close>

definition claim_holds :: "string \<Rightarrow> json list \<Rightarrow> json \<Rightarrow> json \<Rightarrow> bool" where
  "claim_holds op vs check expected =
     (if op = ''equal'' then jeq (vs ! 0) expected
      else if op = ''bits''
      then \<exists>n m mask. harness_unsigned (vs ! 0) = Inr n \<and> jat ''mask'' check = Inr m \<and> harness_unsigned m = Inr mask \<and>
        mask \<noteq> 0 \<and> expected = JBool (n AND mask = mask)
      else if op = ''sum''
      then \<exists>a n e. harness_unsigned (vs ! 0) = Inr a \<and> harness_unsigned (vs ! 1) = Inr n \<and> harness_unsigned expected = Inr e \<and>
        a + n = e
      else \<exists>a n x. harness_unsigned (vs ! 0) = Inr a \<and> harness_unsigned (vs ! 1) = Inr n \<and> harness_unsigned (vs ! 2) = Inr x \<and>
        expected = JBool (x \<in> {a..<a + n}))"

lemma evaluate_check_holds:
  assumes "evaluate_check op vs check expected = Inr (actual, same)"
  shows "same \<longleftrightarrow> claim_holds op vs check expected"
  using assms
  by (auto simp: evaluate_check_def claim_holds_def check_bits_def check_range_sum_def Let_def split: if_splits)

definition check_passes :: "(string \<Rightarrow> json res) \<Rightarrow> store \<Rightarrow> json \<Rightarrow> json \<Rightarrow> json \<Rightarrow> bool" where
  "check_passes parse st iv allowed check =
     (\<exists>op refs pages vs expected. jstr_at ''operation'' check = Inr op \<and> 0 < check_arity op \<and>
        jat ''operands'' check = Inr (JArr refs) \<and> length refs = check_arity op \<and>
        mapE (operand_page parse st iv allowed) refs = Inr pages \<and>
        list_all (\<lambda>page. page_incomplete page = Inr False) pages \<and> mapE page_value pages = Inr vs \<and>
        jat ''expected'' check = Inr expected \<and> claim_holds op vs check expected)"

lemma operands_pages:
  assumes "mapE (operand parse st iv allowed) refs = Inr ops"
  shows "\<exists>pages. mapE (operand_page parse st iv allowed) refs = Inr pages \<and>
    list_all (\<lambda>page. page_incomplete page = Inr False) pages \<and> mapE page_value pages = Inr (map fst ops)"
  using assms
proof (induction refs arbitrary: ops)
  case Nil
  then show ?case by simp
next
  case (Cons ref refs)
  from Cons.prems obtain o' rest where o': "operand parse st iv allowed ref = Inr o'"
    and rest: "mapE (operand parse st iv allowed) refs = Inr rest" and ops: "ops = o' # rest"
    by auto
  from o' obtain page v s where "operand_page parse st iv allowed ref = Inr page" "page_incomplete page = Inr False"
    "page_value page = Inr v" "o' = (v, s)"
    unfolding operand_def by (elim bindE_elims) auto
  with Cons.IH[OF rest] ops show ?case by auto
qed

lemma run_check_passes:
  assumes "run_check parse st iv allowed check = Inr (r, same)"
  shows "same \<longleftrightarrow> check_passes parse st iv allowed check"
proof -
  obtain op refs ops expected n actual where op: "jstr_at ''operation'' check = Inr op"
    and refs: "check_operands op check = Inr refs" and ops: "mapE (operand parse st iv allowed) refs = Inr ops"
    and expected: "jat ''expected'' check = Inr expected"
    and e: "evaluate_check op (map fst ops) check expected = Inr (actual, same)"
    using assms unfolding run_check_def by (elim bindE_elims) auto
  obtain pages where pages: "mapE (operand_page parse st iv allowed) refs = Inr pages"
    "list_all (\<lambda>page. page_incomplete page = Inr False) pages" "mapE page_value pages = Inr (map fst ops)"
    using operands_pages[OF ops] by blast
  have r: "jat ''operands'' check = Inr (JArr refs)" "length refs = check_arity op" "0 < check_arity op"
    using refs by (auto simp: check_operands_def is_array_def elems_def jsize_def jrange_def split: json.splits)
  show ?thesis
  proof
    assume same
    then show "check_passes parse st iv allowed check"
      using op r pages expected evaluate_check_holds[OF e] unfolding check_passes_def by blast
  next
    assume "check_passes parse st iv allowed check"
    then have "claim_holds op (map fst ops) check expected"
      using op r(1) pages(1,3) expected by (auto simp: check_passes_def)
    then show same using evaluate_check_holds[OF e] by simp
  qed
qed

text \<open>
  C32. A validation reports \<open>passed\<close> exactly when every check holds of the complete, verified
  values at its operands' pointers: equality of values, all bits of a nonzero mask, an exact sum of natural
  numbers without wrap-around, or membership in the half-open range. It never claims semantic
  entailment.
\<close>

theorem validation_exact:
  assumes "harness_validate parse st iv checks allowed = Inr result"
  shows "(jat ''status'' result = Inr (JStr ''passed'')) = (\<forall>check \<in> set (elems checks). check_passes parse st iv allowed check) \<and>
    1 \<le> length (elems checks) \<and> length (elems checks) \<le> 8 \<and>
    jat ''semantic_entailment_checked'' result = Inr (JBool False)"
proof -
  obtain rs where n: "is_array checks" "\<not> jempty checks" "jsize checks \<le> 8"
    and rs: "mapE (run_check parse st iv allowed) (elems checks) = Inr rs" and result: "result = validation_result rs"
    using assms unfolding harness_validate_def by auto
  have "list_all snd rs \<longleftrightarrow> (\<forall>check \<in> set (elems checks). check_passes parse st iv allowed check)"
  proof -
    have "snd (rs ! i) \<longleftrightarrow> check_passes parse st iv allowed (elems checks ! i)" if "i < length (elems checks)" for i
      using mapE_nth[OF rs that] run_check_passes[of parse st iv allowed "elems checks ! i" "fst (rs ! i)" "snd (rs ! i)"] by simp
    then show ?thesis
      using mapE_length[OF rs] by (simp add: list_all_length all_set_conv_all_nth)
  qed
  moreover have "elems checks = jrange checks"
    using n(1) by (cases checks) (simp_all add: elems_def jrange_def)
  ultimately show ?thesis
    using n(2,3) by (auto simp: result validation_result_def json_simps jempty_def jsize_def Suc_le_eq)
qed

definition demo_check :: json where
  "demo_check = jobj [(''operation'', JStr ''equal''), (''expected'', JStr ''hello''),
     (''operands'', JArr [jobj [(''evidence_id'', JStr ''e1''), (''pointer'', JStr []), (''raw_sha256'', JStr (sha256_text ''B''))]])]"

lemma demo_operand:
  "\<exists>s. operand demo_snapshot demo_evidence demo_scope JNull
     (jobj [(''evidence_id'', JStr ''e1''), (''pointer'', JStr []), (''raw_sha256'', JStr (sha256_text ''B''))]) = Inr (JStr ''hello'', s) \<and>
     dumpable s \<and> json_weight s \<le> 2000"
proof -
  let ?r = "jobj [(''id'', JStr ''e1''), (''pointer'', JStr []), (''raw_sha256'', JStr (sha256_text ''B'')), (''max_bytes'', jint 512)]"
  have "harness_evidence_page demo_snapshot demo_evidence demo_scope ?r = Inr demo_page"
    by (rule demo_page_read[of _ 512])
      (simp_all add: page_fields_def page_keys_def json_simps check_keys_jobj[THEN iffD2] jvalue_str_def
        jstr_at_def check_identifier_def identifier_chars_def bound_def ji64_def ju64_def jword_def)
  moreover have "bounded_scalar (JStr ''hello'') = Inr True"
  proof -
    have "dumpable (JStr ''hello'')" "json_weight (JStr ''hello'') \<le> 512" by (simp_all add: utf8_ok_ascii)
    from dump_size_le[OF this] show ?thesis by (auto simp: bounded_scalar_def is_primitive_def is_structured_def)
  qed
  moreover have "page_incomplete demo_page = Inr False"
    using demo_page_fields by (simp add: page_incomplete_def jvalue_bool_def jvalue_present jbool_def)
  moreover have "page_value demo_page = Inr (JStr ''hello'')"
    using demo_page_fields(2) by (simp add: page_value_def contains_iff)
  ultimately show ?thesis
    by (auto simp: operand_def operand_page_def operand_source_def demo_page_fields(4-6) jat_jobj check_keys_jobj[THEN iffD2]
      weight_jobj_distinct utf8_ok_ascii intro!: dumpable_jobj)
qed

lemma demo_validation: "\<exists>result. harness_validate demo_snapshot demo_evidence demo_scope (JArr [demo_check]) JNull = Inr result"
proof -
  obtain s where s: "operand demo_snapshot demo_evidence demo_scope JNull
     (jobj [(''evidence_id'', JStr ''e1''), (''pointer'', JStr []), (''raw_sha256'', JStr (sha256_text ''B''))]) = Inr (JStr ''hello'', s)"
    "dumpable s" "json_weight s \<le> 2000" using demo_operand by blast
  obtain n where n: "dump_size (JStr ''hello'') = Inr n" "n \<le> 512"
    using dump_size_le[of "JStr ''hello''" 512] by (auto simp: utf8_ok_ascii)
  let ?r = "check_result ''equal'' (JStr ''hello'') True (JStr ''hello'') [s]"
  have "run_check demo_snapshot demo_evidence demo_scope JNull demo_check = Inr (?r, True)"
    using n by (simp add: run_check_def demo_check_def check_operands_def check_arity_def s(1) evaluate_check_def jstr_at_def
        json_simps check_keys_jobj[THEN iffD2])
  moreover have "dumpable (validation_result [(?r, True)])"
    using s(2) by (auto simp: validation_result_def check_result_def utf8_ok_ascii validation_scope_def intro!: dumpable_jobj)
  moreover have "json_weight (validation_result [(?r, True)]) \<le> 12288"
    using s(3) by (simp add: validation_result_def check_result_def weight_jobj_distinct validation_scope_def)
  ultimately show ?thesis
    using dump_size_le[of "validation_result [(?r, True)]" 12288] by (auto simp: harness_validate_def jempty_def json_simps)
qed

theorem validation_exact_witness:
  "\<exists>result. harness_validate demo_snapshot demo_evidence demo_scope (JArr [demo_check]) JNull = Inr result \<and>
     jat ''semantic_entailment_checked'' result = Inr (JBool False)"
proof -
  obtain result where "harness_validate demo_snapshot demo_evidence demo_scope (JArr [demo_check]) JNull = Inr result"
    using demo_validation by blast
  from validation_exact[OF this] this show ?thesis by blast
qed

end
