(* ===== verification/Ind_Proofs.thy ===== *)
theory Ind_Proofs
  imports Ind_Validate Ind_Receipts
begin

text \<open>
  Proof records and the report of an investigation (\<^verbatim>\<open>src/harness_verification.hpp\<close>,
  \<^verbatim>\<open>src/model_fact_ledger.hpp\<close>).  Proof kinds are not ranked: each requested question names the
  kind that answers it, and a record counts only for the question, artifact, project and
  investigation that it is bound to and signed with.
\<close>

section \<open>Requirements and obligations\<close>

definition required_proof_kind :: "json \<Rightarrow> nat \<Rightarrow> string res" where
  "required_proof_kind iv i =
     bindE (jvalue ''proof_requirements'' (JArr []) iv) (\<lambda>rs.
       if i \<ge> jsize rs then Inr [] else bindE (jnth i rs) jstr)"

definition proof_obligation_id :: "string \<Rightarrow> nat \<Rightarrow> string" where
  "proof_obligation_id kind i =
     (let stem = ''o'' @ to_string i @ ''_'' in
      if kind = ''recovered_candidate'' then stem @ ''candidate_validation''
      else if kind = ''verified_transformation'' \<or> kind = ''observed_output'' then stem @ ''output''
      else if kind = ''accepted_input'' then stem @ ''acceptance''
      else if kind = ''independently_graded_challenge_solve'' then stem @ ''challenge_solve''
      else [])"

definition verification_record_intact :: "json \<Rightarrow> bool res" where
  "verification_record_intact r =
     (if \<not> is_object r \<or> \<not> contains r ''record_sha256'' then Inr False
      else bindE (jstr_at ''record_sha256'' r) (\<lambda>digest.
        bindE (dump (jerase ''record_sha256'' r)) (\<lambda>t. Inr (sha256_text t = digest))))"

text \<open>\<^verbatim>\<open>a.value(k, "") != b.value(l, "")\<close>, and the comparison with a text.\<close>

definition text_differs :: "string \<Rightarrow> json \<Rightarrow> string \<Rightarrow> json \<Rightarrow> bool res" where
  "text_differs k a l b = bindE (jvalue_str k [] a) (\<lambda>v. bindE (jvalue_str l [] b) (\<lambda>w. Inr (v \<noteq> w)))"

definition text_is_not :: "string \<Rightarrow> json \<Rightarrow> string res \<Rightarrow> bool res" where
  "text_is_not k a w = bindE (jvalue_str k [] a) (\<lambda>v. bindE w (\<lambda>w. Inr (v \<noteq> w)))"

definition selects_proof :: "json \<Rightarrow> json \<Rightarrow> bool res" where
  "selects_proof proof solution =
     bindE (any_differs
       [text_is_not ''state'' solution (Inr ''question_answer_selected''),
        text_differs ''proof'' solution ''id'' proof,
        bindE (jvalue_u64 ''fact_index'' (2 ^ 64 - 1) solution) (\<lambda>a.
          bindE (jvalue_u64 ''fact_index'' (2 ^ 64 - 2) proof) (\<lambda>b. Inr (a \<noteq> b))),
        text_differs ''question'' solution ''question'' proof,
        text_differs ''obligation'' solution ''obligation'' proof,
        text_differs ''proof_kind'' solution ''kind'' proof,
        text_differs ''answer'' solution ''answer'' proof]) (\<lambda>bad. Inr (\<not> bad))"

text \<open>Whether some element of a container satisfies a test that may throw.\<close>

fun some_element :: "(json \<Rightarrow> bool res) \<Rightarrow> json list \<Rightarrow> bool res" where
  "some_element P [] = Inr False"
| "some_element P (x # xs) = bindE (P x) (\<lambda>b. if b then Inr True else some_element P xs)"

definition selected_reasoning_proof :: "json \<Rightarrow> json \<Rightarrow> bool res" where
  "selected_reasoning_proof reasoning proof =
     bindE (jvalue ''solutions'' (JArr []) reasoning) (\<lambda>ss. some_element (selects_proof proof) (jrange ss))"

section \<open>Matching records with questions\<close>

text \<open>
  The condition under which the loops skip a record: it is not intact, or it is bound to another
  kind, question, obligation, artifact, investigation or project.
\<close>

definition unbound_proof :: "json \<Rightarrow> json \<Rightarrow> string \<Rightarrow> nat \<Rightarrow> json \<Rightarrow> bool res" where
  "unbound_proof iv facts required i proof =
     any_differs
       [bindE (verification_record_intact proof) (\<lambda>b. Inr (\<not> b)),
        text_is_not ''schema'' proof (Inr ''indago.solution-proof.v1''),
        text_is_not ''kind'' proof (Inr required),
        bindE (jvalue_u64 ''fact_index'' (jsize facts) proof) (\<lambda>n. Inr (n \<noteq> i)),
        text_is_not ''question'' proof (bindE (jnth i facts) jstr),
        text_is_not ''obligation'' proof (Inr (proof_obligation_id required i)),
        text_is_not ''artifact_sha256'' proof (jstr_at ''artifact_sha256'' iv),
        text_is_not ''investigation'' proof (jstr_at ''id'' iv),
        text_is_not ''project'' proof (jstr_at ''project'' iv)]"

definition take_proof :: "json \<Rightarrow> json option \<Rightarrow> json option res" where
  "take_proof proof selected =
     (case selected of
        None \<Rightarrow> Inr (Some proof)
      | Some old \<Rightarrow>
          bindE (jat ''answer'' old) (\<lambda>a. bindE (jat ''answer'' proof) (\<lambda>b.
            throw_if (\<not> jeq a b) ''Contradictory proofs for one question'' (Inr selected))))"

definition consider_proof :: "(json \<Rightarrow> bool res) \<Rightarrow> json \<Rightarrow> json option \<Rightarrow> json option res" where
  "consider_proof skip proof selected = bindE (skip proof) (\<lambda>b. if b then Inr selected else take_proof proof selected)"

text \<open>A proof of the reasoning ledger counts only when a solution selects it.\<close>

definition unselected_proof :: "json \<Rightarrow> json \<Rightarrow> json \<Rightarrow> string \<Rightarrow> nat \<Rightarrow> json \<Rightarrow> bool res" where
  "unselected_proof reasoning iv facts required i proof =
     bindE (unbound_proof iv facts required i proof) (\<lambda>b.
       if b then Inr True else bindE (selected_reasoning_proof reasoning proof) (\<lambda>s. Inr (\<not> s)))"

definition match_question :: "json \<Rightarrow> json \<Rightarrow> json \<Rightarrow> nat \<Rightarrow> json option res" where
  "match_question iv reasoning facts i =
     bindE (required_proof_kind iv i) (\<lambda>required.
     bindE (jvalue ''proofs'' (JArr []) reasoning) (\<lambda>ps.
     bindE (foldE (consider_proof (unselected_proof reasoning iv facts required i)) (jrange ps) None) (\<lambda>selected.
     bindE (jvalue ''verifications'' (JArr []) iv) (\<lambda>vs.
       foldE (consider_proof (unbound_proof iv facts required i)) (jrange vs) selected))))"

definition verified_requirements :: "json \<Rightarrow> json list res" where
  "verified_requirements iv =
     (if \<not> contains iv ''proof_requirements'' then Inr []
      else
        bindE (jat ''required_facts'' iv) (\<lambda>facts. bindE (jat ''proof_requirements'' iv) (\<lambda>rs.
        throw_if (\<not> is_array rs \<or> jsize rs \<noteq> jsize facts) ''Proof requirements no longer match requested questions'' (
        bindE (jvalue ''reasoning'' (JObj []) iv) (\<lambda>reasoning.
        bindE (mapE (match_question iv reasoning facts) [0..<jsize facts]) (\<lambda>ms.
          Inr (concat (map (\<lambda>m. case m of None \<Rightarrow> [] | Some p \<Rightarrow> [p]) ms))))))))"

section \<open>The report\<close>

definition proof_claim_text :: "string \<Rightarrow> string" where
  "proof_claim_text kind =
     (if kind = ''recovered_candidate''
      then ''The answer is a question-bound recovered candidate; no transformation or behavior proof is claimed.''
      else if kind = ''verified_transformation''
      then ''XAIR instruction decoding and control-flow checks reproduce the transformation and track the value to the recorded call/comparison sink.''
      else if kind = ''observed_output''
      then ''A hash-pinned authorized runtime observation contains this output for the recorded execution.''
      else if kind = ''accepted_input''
      then ''A hash-pinned authorized runtime observation shows this exact input reaching the declared acceptance result.''
      else ''The submitted answer passed the independent question- and artifact-bound challenge grader.'')"

text \<open>\<^verbatim>\<open>push_back\<close> of a value that is not there yet.\<close>

definition push_new :: "json \<Rightarrow> json list \<Rightarrow> json list" where
  "push_new v xs = (if list_ex (\<lambda>x. jeq x v) xs then xs else xs @ [v])"

definition source_evidence :: "json \<Rightarrow> json list \<Rightarrow> json list res" where
  "source_evidence source evidence =
     (if contains source ''evidence_id'' then bindE (jat ''evidence_id'' source) (\<lambda>ev. Inr (push_new ev evidence))
      else Inr evidence)"

definition proof_claim :: "json \<Rightarrow> json res" where
  "proof_claim proof =
     bindE (jat ''question'' proof) (\<lambda>question. bindE (jat ''kind'' proof) (\<lambda>kj. bindE (jstr kj) (\<lambda>kind.
     bindE (jat ''id'' proof) (\<lambda>pid. bindE (jat ''record_sha256'' proof) (\<lambda>sha.
     bindE (jvalue ''limitations'' (JArr []) proof) (\<lambda>limits.
     bindE (jvalue ''sources'' (JArr []) proof) (\<lambda>sources.
     bindE (foldE source_evidence (jrange sources) []) (\<lambda>evidence.
       let claim = jobj [(''fact'', question), (''text'', JStr (proof_claim_text kind)), (''proof_id'', pid),
         (''proof_sha256'', sha), (''proof_kind'', kj), (''limitations'', limits)]
       in Inr (if evidence = [] then claim else jput ''evidence_ids'' (JArr evidence) claim)))))))))"

definition report_record :: "json \<Rightarrow> json \<times> json list \<times> json list \<Rightarrow> (json \<times> json list \<times> json list) res" where
  "report_record proof = (\<lambda>(answers, kinds, claims).
     bindE (jstr_at ''question'' proof) (\<lambda>question. bindE (jat ''answer'' proof) (\<lambda>answer.
     bindE (jat ''kind'' proof) (\<lambda>kind. bindE (proof_claim proof) (\<lambda>claim.
       Inr (jput question answer answers, push_new kind kinds, claims @ [claim]))))))"

definition kind_among :: "string list \<Rightarrow> json \<Rightarrow> bool res" where
  "kind_among ks proof = bindE (jat ''kind'' proof) (\<lambda>k. Inr (\<exists>s \<in> set ks. k = JStr s))"

definition requirement_report :: "json \<Rightarrow> json res" where
  "requirement_report iv =
     bindE (verified_requirements iv) (\<lambda>records. bindE (jat ''required_facts'' iv) (\<lambda>facts.
     throw_if (length records \<noteq> jsize facts \<or> records = [])
       ''The declared proof type is required for every requested question; use partial'' (
     bindE (foldE report_record records (JObj [], [], [])) (\<lambda>(answers, kinds, claims).
     bindE (if length records = 1 then jstr_at ''answer'' (hd records) else dump answers) (\<lambda>answer.
     bindE (some_element (kind_among [''independently_graded_challenge_solve'']) records) (\<lambda>graded.
     bindE (some_element (kind_among [''observed_output'', ''accepted_input'']) records) (\<lambda>behavior.
       Inr (jobj [(''status'', JStr ''answered''), (''answer'', JStr answer), (''claims'', JArr claims), (''gaps'', JArr []),
         (''requirements_verified'', JBool True), (''verified_solve'', JBool graded), (''proof_kinds'', JArr kinds),
         (''independently_graded'', JBool graded), (''behavior_verified'', JBool behavior)]))))))))"

section \<open>The fact ledger of the controller\<close>

definition budget_left :: "json \<Rightarrow> string \<Rightarrow> string \<Rightarrow> nat \<Rightarrow> nat res" where
  "budget_left iv limit used cost =
     bindE (jat ''budget'' iv) (\<lambda>b. bindE (jat limit b) (\<lambda>m. bindE (ju64 m) (\<lambda>most.
     bindE (jat ''reserved'' iv) (\<lambda>r. bindE (jat used r) (\<lambda>u. bindE (ju64 u) (\<lambda>reserved.
       Inr (if most > reserved then (most - reserved) div cost else 0)))))))"

text \<open>How many whole function workflows of \<open>count\<close> actions the budget still pays for.\<close>

definition model_function_budget :: "json \<Rightarrow> nat \<Rightarrow> nat res" where
  "model_function_budget iv count =
     bindE (budget_left iv ''max_actions'' ''actions'' count) (\<lambda>a.
     bindE (budget_left iv ''wall_ms'' ''wall_ms'' (20000 * count)) (\<lambda>b.
     bindE (budget_left iv ''output_bytes'' ''output_bytes'' (131072 * count)) (\<lambda>c. Inr (min a (min b c)))))"

definition function_request :: "json \<Rightarrow> json \<Rightarrow> string \<times> string \<Rightarrow> json" where
  "function_request address artifact = (\<lambda>(backend, operation).
     jobj [(''backend'', JStr backend), (''operation'', JStr operation), (''address'', address), (''artifact_sha256'', artifact),
       (''budget'', jobj [(''wall_ms'', jint 20000), (''output_bytes'', jint 131072), (''memory_bytes'', jnat 2147483648),
         (''max_items'', jint 256)])])"

definition function_operations :: "bool \<Rightarrow> (string \<times> string) list" where
  "function_operations acceptance =
     [(''ghidra'', ''decompile''), (''xair'', ''cfg''), (''ghidra'', ''calls''), (''ghidra'', ''xrefs'')] @
     (if acceptance then [(''sym'', ''solve_branch''), (''sym'', ''taint'')] else [])"

definition model_function_plan :: "(string \<Rightarrow> json res) \<Rightarrow> store \<Rightarrow> json \<Rightarrow> json \<Rightarrow> bool \<Rightarrow> json res" where
  "model_function_plan parse st iv payload acceptance =
     bindE (check_keys payload [''evidence_id'', ''pointer'']) (\<lambda>_.
     bindE (jat ''evidence_id'' payload) (\<lambda>ev. bindE (jat ''pointer'' payload) (\<lambda>pointer.
     bindE (harness_evidence_page parse st iv (jobj [(''id'', ev), (''pointer'', pointer), (''max_bytes'', jint 64)])) (\<lambda>page.
     bindE (any_differs [page_incomplete page, Inr (\<not> contains page ''text'')]) (\<lambda>bad.
     throw_if bad ''function requires a complete native hexadecimal address reference'' (
     bindE (jstr_at ''text'' page) (\<lambda>address.
     bindE (if \<not> starts_with address ''0x'' then Inr True
            else bindE (harness_unsigned (JStr address)) (\<lambda>n. Inr (n = 0))) (\<lambda>bad.
     throw_if bad ''function requires a nonzero hexadecimal address'' (
     bindE (jat ''artifact_sha256'' page) (\<lambda>artifact.
       Inr (jobj [(''source'', page),
         (''requests'', JArr (map (function_request (JStr address) artifact) (function_operations acceptance)))])))))))))))"

definition fact_limitation :: string where
  "fact_limitation = ''Exact native snapshot observation only; relevance to the required fact and behavioral entailment are not proven.''"

definition fact_claim :: "json \<Rightarrow> json \<Rightarrow> json \<Rightarrow> json \<Rightarrow> json res" where
  "fact_claim question page value checks =
     bindE (jat ''id'' page) (\<lambda>ev. bindE (jstr ev) (\<lambda>evs. bindE (jstr_at ''pointer'' page) (\<lambda>pointer.
     bindE (dump value) (\<lambda>shown.
       Inr (jobj [(''fact'', question),
         (''text'', JStr (''Native snapshot '' @ evs @ '' at '' @ pointer @ '' = '' @ shown)),
         (''evidence_ids'', JArr [ev]), (''checks'', checks), (''limitations'', JArr [JStr fact_limitation])])))))"

definition model_record_fact :: "(string \<Rightarrow> json res) \<Rightarrow> store \<Rightarrow> json \<Rightarrow> json \<Rightarrow> json res" where
  "model_record_fact parse st iv payload =
     bindE (check_keys payload [''fact_index'', ''evidence_id'', ''pointer'']) (\<lambda>_.
     bindE (jat ''fact_index'' payload) (\<lambda>fj. bindE (harness_unsigned fj) (\<lambda>i.
     bindE (jat ''required_facts'' iv) (\<lambda>facts.
     throw_if (i \<ge> jsize facts) ''fact_index outside required facts'' (
     bindE (jat ''evidence_id'' payload) (\<lambda>ev. bindE (jat ''pointer'' payload) (\<lambda>pointer.
     bindE (harness_evidence_page parse st iv (jobj [(''id'', ev), (''pointer'', pointer), (''max_bytes'', jint 512)])) (\<lambda>page.
     bindE (page_incomplete page) (\<lambda>bad.
     throw_if bad ''record requires a complete verified scalar; select a narrower pointer'' (
     bindE (page_value page) (\<lambda>v. bindE (bounded_scalar v) (\<lambda>ok.
     throw_if (\<not> ok) ''record requires a bounded scalar, not a container'' (
     bindE (jat ''id'' page) (\<lambda>pid. bindE (jat ''pointer'' page) (\<lambda>pp. bindE (jat ''raw_sha256'' page) (\<lambda>raw.
       let ref = jobj [(''evidence_id'', pid), (''pointer'', pp), (''raw_sha256'', raw)];
           checks = JArr [jobj [(''operation'', JStr ''equal''), (''operands'', JArr [ref]), (''expected'', v)]] in
     bindE (harness_validate parse st iv checks JNull) (\<lambda>receipt.
     bindE (jnth i facts) (\<lambda>question.
     bindE (fact_claim question page v checks) (\<lambda>claim. bindE (dump claim) (\<lambda>t.
       Inr (jobj [(''id'', JStr (''fact_'' @ sha256_text t)), (''fact_index'', jnat i), (''claim'', claim),
         (''receipt'', receipt)])))))))))))))))))))))"

definition model_ledger_report :: "json \<Rightarrow> json \<Rightarrow> string \<Rightarrow> string \<Rightarrow> json res" where
  "model_ledger_report iv ledger status why =
     bindE (mapE (jat ''claim'') (jrange ledger)) (\<lambda>claims. bindE (jat ''required_facts'' iv) (\<lambda>facts.
       Inr (jobj [(''status'', JStr status), (''answer'', JStr why), (''claims'', JArr claims), (''gaps'', facts)])))"

definition model_solution_report :: "json \<Rightarrow> json res" where
  "model_solution_report iv =
     bindE (requirement_report iv) (\<lambda>r.
       foldE (\<lambda>k out. bindE (jat k r) (\<lambda>v. Inr (jput k v out))) [''status'', ''answer'', ''claims'', ''gaps''] (JObj []))"

section \<open>What a report rests on\<close>

definition intact_record :: "json \<Rightarrow> bool" where
  "intact_record p = (\<exists>digest t. jat ''record_sha256'' p = Inr (JStr digest) \<and> dump (jerase ''record_sha256'' p) = Inr t \<and>
     sha256_text t = digest)"

text \<open>A record bound to one question of an investigation and to the kind that answers it.\<close>

definition proof_bound :: "json \<Rightarrow> json \<Rightarrow> string \<Rightarrow> nat \<Rightarrow> json \<Rightarrow> bool" where
  "proof_bound iv facts required i p =
     (intact_record p \<and> jvalue_str ''schema'' [] p = Inr ''indago.solution-proof.v1'' \<and> jvalue_str ''kind'' [] p = Inr required \<and>
      jvalue_u64 ''fact_index'' (jsize facts) p = Inr i \<and>
      (\<exists>q. jnth i facts = Inr (JStr q) \<and> jvalue_str ''question'' [] p = Inr q) \<and>
      jvalue_str ''obligation'' [] p = Inr (proof_obligation_id required i) \<and>
      (\<exists>a. jstr_at ''artifact_sha256'' iv = Inr a \<and> jvalue_str ''artifact_sha256'' [] p = Inr a) \<and>
      (\<exists>n. jstr_at ''id'' iv = Inr n \<and> jvalue_str ''investigation'' [] p = Inr n) \<and>
      (\<exists>n. jstr_at ''project'' iv = Inr n \<and> jvalue_str ''project'' [] p = Inr n))"

lemma text_is_not_False: "text_is_not k a w = Inr False \<longleftrightarrow> (\<exists>v. w = Inr v \<and> jvalue_str k [] a = Inr v)"
  by (auto simp: text_is_not_def bindE_eq_Inr)

lemma unbound_proof_False: "unbound_proof iv facts required i p = Inr False \<Longrightarrow> proof_bound iv facts required i p"
proof -
  assume "unbound_proof iv facts required i p = Inr False"
  then have *: "bindE (verification_record_intact p) (\<lambda>b. Inr (\<not> b)) = Inr False"
    "text_is_not ''schema'' p (Inr ''indago.solution-proof.v1'') = Inr False" "text_is_not ''kind'' p (Inr required) = Inr False"
    "bindE (jvalue_u64 ''fact_index'' (jsize facts) p) (\<lambda>n. Inr (n \<noteq> i)) = Inr False"
    "text_is_not ''question'' p (bindE (jnth i facts) jstr) = Inr False"
    "text_is_not ''obligation'' p (Inr (proof_obligation_id required i)) = Inr False"
    "text_is_not ''artifact_sha256'' p (jstr_at ''artifact_sha256'' iv) = Inr False"
    "text_is_not ''investigation'' p (jstr_at ''id'' iv) = Inr False" "text_is_not ''project'' p (jstr_at ''project'' iv) = Inr False"
    unfolding unbound_proof_def any_differs_False by simp_all
  have "intact_record p"
    using *(1) by (auto simp: verification_record_intact_def intact_record_def split: if_splits)
  moreover have "jvalue_u64 ''fact_index'' (jsize facts) p = Inr i"
    using *(4) by (auto simp: bindE_eq_Inr)
  ultimately show ?thesis
    using *(2,3,5-9) unfolding text_is_not_False proof_bound_def by (auto simp: bindE_eq_Inr)
qed

text \<open>The loop keeps the first record it takes; every other one it does not skip has the same answer.\<close>

definition same_answer :: "json \<Rightarrow> json \<Rightarrow> bool" where
  "same_answer p q = (p = q \<or> (\<exists>a b. jat ''answer'' p = Inr a \<and> jat ''answer'' q = Inr b \<and> jeq a b))"

lemma consider_proofs:
  assumes "foldE (consider_proof skip) ps sel = Inr (Some p)"
  shows "(sel = None \<longrightarrow> p \<in> set ps \<and> skip p = Inr False) \<and> (\<forall>old. sel = Some old \<longrightarrow> p = old) \<and>
    (\<forall>q \<in> set ps. skip q = Inr False \<longrightarrow> same_answer p q)"
  using assms
proof (induction ps arbitrary: sel)
  case Nil
  then show ?case by simp
next
  case (Cons q ps)
  from Cons.prems obtain sel' where step: "consider_proof skip q sel = Inr sel'"
    and rest: "foldE (consider_proof skip) ps sel' = Inr (Some p)" by auto
  note ih = Cons.IH[OF rest]
  from step consider "skip q = Inr True" "sel' = sel" | "skip q = Inr False" "sel = None" "sel' = Some q"
    | old where "skip q = Inr False" "sel = Some old" "sel' = sel" "same_answer old q"
    by (auto simp: consider_proof_def take_proof_def same_answer_def split: if_splits option.splits)
  then show ?case
  proof cases
    case 1
    then show ?thesis using ih by auto
  next
    case 2
    then show ?thesis using ih by (auto simp: same_answer_def)
  next
    case (3 old)
    then show ?thesis using ih by auto
  qed
qed

lemma match_question_bound:
  assumes "match_question iv reasoning facts i = Inr (Some p)"
  shows "\<exists>required. required_proof_kind iv i = Inr required \<and> proof_bound iv facts required i p \<and>
    (\<forall>vs. jvalue ''verifications'' (JArr []) iv = Inr vs \<longrightarrow>
      (\<forall>q \<in> set (jrange vs). unbound_proof iv facts required i q = Inr False \<longrightarrow> same_answer p q))"
proof -
  obtain required ps sel vs where r: "required_proof_kind iv i = Inr required"
    and ps: "foldE (consider_proof (unselected_proof reasoning iv facts required i)) (jrange ps) None = Inr sel"
    and vs: "jvalue ''verifications'' (JArr []) iv = Inr vs"
    and p: "foldE (consider_proof (unbound_proof iv facts required i)) (jrange vs) sel = Inr (Some p)"
    using assms unfolding match_question_def by (elim bindE_elims)
  have "unbound_proof iv facts required i p = Inr False"
  proof (cases sel)
    case None
    then show ?thesis using consider_proofs[OF p] by simp
  next
    case (Some q)
    then have "unselected_proof reasoning iv facts required i q = Inr False" using consider_proofs[of _ _ None q] ps by auto
    then show ?thesis using consider_proofs[OF p] Some by (auto simp: unselected_proof_def split: if_splits)
  qed
  then show ?thesis using r vs consider_proofs[OF p] unbound_proof_False by auto
qed

lemma all_matched:
  assumes "length (concat (map (\<lambda>m. case m of None \<Rightarrow> [] | Some p \<Rightarrow> [p]) ms)) = length ms"
  shows "ms = map Some (concat (map (\<lambda>m. case m of None \<Rightarrow> [] | Some p \<Rightarrow> [p]) ms))"
  using assms
proof (induction ms)
  case (Cons m ms)
  have "length (concat (map (\<lambda>m. case m of None \<Rightarrow> [] | Some p \<Rightarrow> [p]) ms)) \<le> length ms" for ms :: "'b option list"
    by (induction ms) (auto split: option.splits)
  from this[of ms] Cons show ?case by (cases m) auto
qed simp

lemma some_element_kinds:
  assumes "some_element (kind_among ks) ps = Inr b"
  shows "b \<longleftrightarrow> (\<exists>p \<in> set ps. \<exists>s \<in> set ks. jat ''kind'' p = Inr (JStr s))"
  using assms by (induction ps) (auto simp: kind_among_def split: if_splits)

lemma report_claims:
  assumes "foldE report_record ps (answers, kinds, claims) = Inr (answers', kinds', claims')"
  shows "\<exists>new. claims' = claims @ new \<and> list_all2 (\<lambda>p c. proof_claim p = Inr c) ps new"
  using assms
proof (induction ps arbitrary: answers kinds claims)
  case Nil
  then show ?case by auto
next
  case (Cons p ps)
  from Cons.prems obtain t where step: "report_record p (answers, kinds, claims) = Inr t"
    and rest: "foldE report_record ps t = Inr (answers', kinds', claims')" by auto
  from step obtain answers1 kinds1 c where c: "proof_claim p = Inr c" and t: "t = (answers1, kinds1, claims @ [c])"
    by (auto simp: report_record_def)
  from Cons.IH[OF rest[unfolded t]] obtain new where "claims' = claims @ c # new" "list_all2 (\<lambda>p c. proof_claim p = Inr c) ps new"
    by auto
  with c show ?case by (intro exI[of _ "c # new"]) simp
qed

text \<open>
  C33. A report of an answered investigation has one proof record per requested question, in order. Each is
  intact, bound to its question, obligation, artifact, investigation and project, and of exactly the
  kind that was declared for that question; every other bound verification of the question has the same
  answer. The report says that a challenge is solved only when one of the records is an independent
  grade, and that behavior is verified only when one is an observation.
\<close>

theorem report_rests_on_bound_proofs:
  assumes "requirement_report iv = Inr r"
  shows "\<exists>facts records claims. jat ''required_facts'' iv = Inr facts \<and> length records = jsize facts \<and> records \<noteq> [] \<and>
    (\<forall>i < length records. \<exists>required. required_proof_kind iv i = Inr required \<and> proof_bound iv facts required i (records ! i) \<and>
      (\<forall>vs. jvalue ''verifications'' (JArr []) iv = Inr vs \<longrightarrow>
        (\<forall>q \<in> set (jrange vs). unbound_proof iv facts required i q = Inr False \<longrightarrow> same_answer (records ! i) q))) \<and>
    jat ''claims'' r = Inr (JArr claims) \<and> list_all2 (\<lambda>p c. proof_claim p = Inr c) records claims \<and>
    jat ''verified_solve'' r =
      Inr (JBool (\<exists>p \<in> set records. jat ''kind'' p = Inr (JStr ''independently_graded_challenge_solve''))) \<and>
    jat ''behavior_verified'' r =
      Inr (JBool (\<exists>p \<in> set records. jat ''kind'' p \<in> {Inr (JStr ''observed_output''), Inr (JStr ''accepted_input'')}))"
proof -
  obtain records facts answers kinds claims answer graded behavior where records: "verified_requirements iv = Inr records"
    and facts: "jat ''required_facts'' iv = Inr facts" and len: "\<not> (length records \<noteq> jsize facts \<or> records = [])"
    and fold: "foldE report_record records (JObj [], [], []) = Inr (answers, kinds, claims)"
    and graded: "some_element (kind_among [''independently_graded_challenge_solve'']) records = Inr graded"
    and behavior: "some_element (kind_among [''observed_output'', ''accepted_input'']) records = Inr behavior"
    and r: "Inr (jobj [(''status'', JStr ''answered''), (''answer'', JStr answer), (''claims'', JArr claims), (''gaps'', JArr []),
         (''requirements_verified'', JBool True), (''verified_solve'', JBool graded), (''proof_kinds'', JArr kinds),
         (''independently_graded'', JBool graded), (''behavior_verified'', JBool behavior)]) = (Inr r :: json res)"
    using assms unfolding requirement_report_def by (elim bindE_elims) (rule that, assumption+)
  have "contains iv ''proof_requirements''"
    using records len by (auto simp: verified_requirements_def split: if_splits)
  then obtain reasoning ms where ms: "mapE (match_question iv reasoning facts) [0..<jsize facts] = Inr ms"
    and rec: "records = concat (map (\<lambda>m. case m of None \<Rightarrow> [] | Some p \<Rightarrow> [p]) ms)"
    using records facts by (auto simp: verified_requirements_def)
  have "length ms = jsize facts" using mapE_length[OF ms] by simp
  then have "ms = map Some records" using all_matched[of ms] rec len by simp
  then have m: "match_question iv reasoning facts i = Inr (Some (records ! i))" if "i < length records" for i
    using mapE_nth[OF ms, of i] that len by simp
  have "jat ''claims'' r = Inr (JArr claims)" "jat ''verified_solve'' r = Inr (JBool graded)"
    "jat ''behavior_verified'' r = Inr (JBool behavior)"
    using r by (auto simp: jat_jobj)
  moreover have "list_all2 (\<lambda>p c. proof_claim p = Inr c) records claims"
    using report_claims[OF fold] by simp
  moreover have "graded = (\<exists>p \<in> set records. jat ''kind'' p = Inr (JStr ''independently_graded_challenge_solve''))"
    "behavior = (\<exists>p \<in> set records. jat ''kind'' p \<in> {Inr (JStr ''observed_output''), Inr (JStr ''accepted_input'')})"
    using some_element_kinds[OF graded] some_element_kinds[OF behavior] by auto
  moreover have "\<forall>i < length records. \<exists>required. required_proof_kind iv i = Inr required \<and> proof_bound iv facts required i (records ! i) \<and>
      (\<forall>vs. jvalue ''verifications'' (JArr []) iv = Inr vs \<longrightarrow>
        (\<forall>q \<in> set (jrange vs). unbound_proof iv facts required i q = Inr False \<longrightarrow> same_answer (records ! i) q))"
    using match_question_bound m by blast
  ultimately show ?thesis using facts len by blast
qed

text \<open>
  C34. The number of function workflows that the controller may still start is affordable and exact: that
  many fit the actions, the wall time and the output that are left, and one more would exceed one of them.
\<close>

theorem function_budget_exact:
  assumes "model_function_budget iv count = Inr n" and "0 < count"
  shows "\<exists>a a' w w' b b'. bindE (jat ''budget'' iv) (\<lambda>j. bindE (jat ''max_actions'' j) ju64) = Inr a \<and>
    bindE (jat ''reserved'' iv) (\<lambda>j. bindE (jat ''actions'' j) ju64) = Inr a' \<and>
    bindE (jat ''budget'' iv) (\<lambda>j. bindE (jat ''wall_ms'' j) ju64) = Inr w \<and>
    bindE (jat ''reserved'' iv) (\<lambda>j. bindE (jat ''wall_ms'' j) ju64) = Inr w' \<and>
    bindE (jat ''budget'' iv) (\<lambda>j. bindE (jat ''output_bytes'' j) ju64) = Inr b \<and>
    bindE (jat ''reserved'' iv) (\<lambda>j. bindE (jat ''output_bytes'' j) ju64) = Inr b' \<and>
    (0 < n \<longrightarrow> a' + n * count \<le> a \<and> w' + n * (20000 * count) \<le> w \<and> b' + n * (131072 * count) \<le> b) \<and>
    (a < a' + Suc n * count \<or> w < w' + Suc n * (20000 * count) \<or> b < b' + Suc n * (131072 * count))"
proof -
  have left: "\<exists>most used'. bindE (jat ''budget'' iv) (\<lambda>j. bindE (jat limit j) ju64) = Inr most \<and>
      bindE (jat ''reserved'' iv) (\<lambda>j. bindE (jat used j) ju64) = Inr used' \<and>
      m = (if most > used' then (most - used') div cost else 0)"
    if "budget_left iv limit used cost = Inr m" for limit used cost m
    using that by (auto simp: budget_left_def)
  have fits: "(0 < k \<longrightarrow> k \<le> m \<longrightarrow> used' + k * cost \<le> most) \<and> (k = m \<longrightarrow> most < used' + Suc k * cost)"
    if "m = (if most > used' then (most - used') div cost else 0)" "0 < cost" for m most used' cost k :: nat
  proof (cases "most > used'")
    case True
    then have m: "m = (most - used') div cost" using that by simp
    have "k * cost \<le> most - used'" if "k \<le> m"
      using that m by (metis div_times_less_eq_dividend mult_le_mono1 order_trans)
    moreover have "most - used' < Suc m * cost"
      using m that(2) by (metis dividend_less_div_times mult.commute mult_Suc)
    ultimately show ?thesis using True by auto
  qed (use that in auto)
  obtain x y z where x: "budget_left iv ''max_actions'' ''actions'' count = Inr x"
    and y: "budget_left iv ''wall_ms'' ''wall_ms'' (20000 * count) = Inr y"
    and z: "budget_left iv ''output_bytes'' ''output_bytes'' (131072 * count) = Inr z" and n: "n = min x (min y z)"
    using assms(1) by (auto simp: model_function_budget_def)
  from left[OF x] obtain a a' where a: "bindE (jat ''budget'' iv) (\<lambda>j. bindE (jat ''max_actions'' j) ju64) = Inr a"
    "bindE (jat ''reserved'' iv) (\<lambda>j. bindE (jat ''actions'' j) ju64) = Inr a'" "x = (if a > a' then (a - a') div count else 0)" by (elim exE conjE)
  from left[OF y] obtain w w' where w: "bindE (jat ''budget'' iv) (\<lambda>j. bindE (jat ''wall_ms'' j) ju64) = Inr w"
    "bindE (jat ''reserved'' iv) (\<lambda>j. bindE (jat ''wall_ms'' j) ju64) = Inr w'"
    "y = (if w > w' then (w - w') div (20000 * count) else 0)" by (elim exE conjE)
  from left[OF z] obtain b b' where b: "bindE (jat ''budget'' iv) (\<lambda>j. bindE (jat ''output_bytes'' j) ju64) = Inr b"
    "bindE (jat ''reserved'' iv) (\<lambda>j. bindE (jat ''output_bytes'' j) ju64) = Inr b'"
    "z = (if b > b' then (b - b') div (131072 * count) else 0)" by (elim exE conjE)
  have "n = x \<or> n = y \<or> n = z" "n \<le> x" "n \<le> y" "n \<le> z" using n by (auto simp: min_def)
  then show ?thesis
    using a(1,2) w(1,2) b(1,2) fits[OF a(3), of n] fits[OF w(3), of n] fits[OF b(3), of n] assms(2) by auto
qed

text \<open>An investigation with one question and its independent grade.\<close>

definition demo_grade0 :: json where
  "demo_grade0 = jobj [(''schema'', JStr ''indago.solution-proof.v1''), (''id'', JStr ''g''), (''kind'', JStr ''independently_graded_challenge_solve''),
     (''fact_index'', jnat 0), (''question'', JStr ''q''), (''obligation'', JStr (proof_obligation_id ''independently_graded_challenge_solve'' 0)),
     (''artifact_sha256'', JStr ''a''), (''investigation'', JStr ''i''), (''project'', JStr ''p''), (''answer'', JStr ''flag'')]"

definition demo_grade :: json where
  "demo_grade = jput ''record_sha256'' (JStr (sha256_text (dump_text demo_grade0))) demo_grade0"

definition graded_investigation :: json where
  "graded_investigation = jobj [(''proof_requirements'', JArr [JStr ''independently_graded_challenge_solve'']), (''required_facts'', JArr [JStr ''q'']),
     (''artifact_sha256'', JStr ''a''), (''id'', JStr ''i''), (''project'', JStr ''p''), (''verifications'', JArr [demo_grade])]"

lemma demo_grade_fields:
  "jat ''schema'' demo_grade = Inr (JStr ''indago.solution-proof.v1'')" "jat ''id'' demo_grade = Inr (JStr ''g'')"
  "jat ''kind'' demo_grade = Inr (JStr ''independently_graded_challenge_solve'')" "jat ''fact_index'' demo_grade = Inr (jnat 0)"
  "jat ''question'' demo_grade = Inr (JStr ''q'')"
  "jat ''obligation'' demo_grade = Inr (JStr (proof_obligation_id ''independently_graded_challenge_solve'' 0))"
  "jat ''artifact_sha256'' demo_grade = Inr (JStr ''a'')" "jat ''investigation'' demo_grade = Inr (JStr ''i'')"
  "jat ''project'' demo_grade = Inr (JStr ''p'')" "jat ''answer'' demo_grade = Inr (JStr ''flag'')"
  "jat ''record_sha256'' demo_grade = Inr (JStr (sha256_text (dump_text demo_grade0)))"
  by (simp_all add: demo_grade_def demo_grade0_def smap_get_jobj)

lemma demo_grade_jvalue: "jat k demo_grade = Inr v \<Longrightarrow> jvalue k d demo_grade = Inr v"
  "jvalue ''sources'' d demo_grade = Inr d" "jvalue ''limitations'' d demo_grade = Inr d"
proof -
  show "jat k demo_grade = Inr v \<Longrightarrow> jvalue k d demo_grade = Inr v"
    by (rule jvalue_present)
  have "smap_get (entries demo_grade) ''sources'' = None" "smap_get (entries demo_grade) ''limitations'' = None"
    by (simp_all add: demo_grade_def demo_grade0_def smap_get_jput smap_get_jobj)
  then show "jvalue ''sources'' d demo_grade = Inr d" "jvalue ''limitations'' d demo_grade = Inr d"
    by (simp_all add: demo_grade_def jput_def jvalue_def entries_def)
qed

lemma demo_grade_intact: "verification_record_intact demo_grade = Inr True"
proof -
  have "utf8_ok (proof_obligation_id ''independently_graded_challenge_solve'' 0)"
    by (simp add: proof_obligation_id_def to_string_def digits_of.simps digit_char_def utf8_ok_ascii)
  then have "dumpable demo_grade0"
    unfolding demo_grade0_def by (intro dumpable_jobj) (auto simp: utf8_ok_ascii)
  moreover have "jerase ''record_sha256'' demo_grade = demo_grade0"
    unfolding demo_grade_def by (subst jerase_jput) (auto simp: demo_grade0_def jerase_absent contains_jobj intro!: wf_jobj)
  ultimately show ?thesis
    using demo_grade_fields(11) by (simp add: verification_record_intact_def contains_iff dump_def jstr_at_def)
      (simp add: demo_grade_def)
qed

lemma demo_report: "\<exists>r. requirement_report graded_investigation = Inr r"
proof -
  have b: "unbound_proof graded_investigation (JArr [JStr ''q'']) ''independently_graded_challenge_solve'' 0 demo_grade = Inr False"
    unfolding unbound_proof_def any_differs_False
    using demo_grade_fields
    by (simp add: demo_grade_intact text_is_not_def jvalue_str_def jvalue_u64_present demo_grade_jvalue(1)
        graded_investigation_def json_simps jstr_at_def jnth_def)
  have iv: "contains graded_investigation ''proof_requirements''" "jat ''required_facts'' graded_investigation = Inr (JArr [JStr ''q''])"
    "jat ''proof_requirements'' graded_investigation = Inr (JArr [JStr ''independently_graded_challenge_solve''])"
    "jvalue ''proof_requirements'' d graded_investigation = Inr (JArr [JStr ''independently_graded_challenge_solve''])"
    "jvalue ''reasoning'' d graded_investigation = Inr d" "jvalue ''verifications'' d graded_investigation = Inr (JArr [demo_grade])" for d
    by (simp_all add: graded_investigation_def json_simps)
  have "jvalue ''proofs'' d (JObj []) = Inr d" for d by (simp add: jvalue_def)
  then have "verified_requirements graded_investigation = Inr [demo_grade]"
    using b by (simp add: verified_requirements_def iv match_question_def required_proof_kind_def jnth_def json_simps
        consider_proof_def take_proof_def)
  then show ?thesis
    using demo_grade_fields demo_grade_jvalue(2,3)
    by (simp add: requirement_report_def iv json_simps report_record_def proof_claim_def kind_among_def jstr_at_def)
qed

theorem report_rests_on_bound_proofs_witness:
  "\<exists>r facts records. requirement_report graded_investigation = Inr r \<and> jat ''required_facts'' graded_investigation = Inr facts \<and>
     length (records :: json list) = jsize facts \<and> records \<noteq> []"
proof -
  obtain r where "requirement_report graded_investigation = Inr r" using demo_report by blast
  moreover from report_rests_on_bound_proofs[OF this] obtain facts records
    where "jat ''required_facts'' graded_investigation = Inr facts" "length (records :: json list) = jsize facts" "records \<noteq> []"
    by (elim exE conjE) (rule that, assumption+)
  ultimately show ?thesis by blast
qed

definition demo_budget :: json where
  "demo_budget = jobj [(''budget'', jobj [(''max_actions'', jnat 20), (''wall_ms'', jnat 600000), (''output_bytes'', jnat 4194304)]),
     (''reserved'', jobj [(''actions'', jnat 3), (''wall_ms'', jnat 100000), (''output_bytes'', jnat 0)])]"

theorem function_budget_exact_witness:
  "model_function_budget demo_budget 4 = Inr 4 \<and> (\<exists>a a'. bindE (jat ''budget'' demo_budget) (\<lambda>j. bindE (jat ''max_actions'' j) ju64) = Inr a \<and>
     bindE (jat ''reserved'' demo_budget) (\<lambda>j. bindE (jat ''actions'' j) ju64) = Inr a' \<and> a' + 16 \<le> a)"
proof -
  have n: "model_function_budget demo_budget 4 = Inr 4"
    by (simp add: model_function_budget_def budget_left_def demo_budget_def json_simps ju64_def jword_def)
  from function_budget_exact[OF this] show ?thesis using n by fastforce
qed

end
