(* ===== verification/Ind_Runner.thy ===== *)
theory Ind_Runner
  imports Ind_Batch
begin

text \<open>
  The run of a batch (\<^verbatim>\<open>src/workbench_batch.cpp\<close>, operation \<^verbatim>\<open>run\<close>).  What the loop asks of its
  surroundings - the row of the batch, the job store, the service and the heartbeat thread, each of which other
  processes may change at any time - is the record \<open>run_ops\<close> over a world \<open>'w\<close>; \<open>service_ops\<close> are
  the operations of the program.  The loop itself is translated statement by statement: an exception leaves the
  record as it is at that point, and the run then saves it as interrupted.
\<close>

section \<open>The surroundings of the loop\<close>

record job_view =
  v_state :: string
  v_result :: "string option"
  v_rev :: json

record finished =
  f_status :: string
  f_revision :: json
  f_evidence :: json

record 'w run_ops =
  op_lost :: "'w \<Rightarrow> bool"
  op_cancelled :: "'w \<Rightarrow> (bool \<times> 'w) res"
  op_save :: "batch \<Rightarrow> 'w \<Rightarrow> (unit \<times> 'w) res"
  op_event :: "string \<Rightarrow> json \<Rightarrow> 'w \<Rightarrow> (unit \<times> 'w) res"
  op_job :: "string \<Rightarrow> 'w \<Rightarrow> (job_view \<times> 'w) res"
  op_recover :: "'w \<Rightarrow> (unit \<times> 'w) res"
  op_prepare :: "json \<Rightarrow> 'w \<Rightarrow> (string \<times> 'w) res"
  op_execute :: "string \<Rightarrow> 'w \<Rightarrow> (finished \<times> 'w) res"
  op_release :: "'w \<Rightarrow> 'w"

section \<open>One iteration\<close>

record 'w ctx =
  x_batch :: batch
  x_states :: "(string \<times> string) list"
  x_world :: 'w

text \<open>How a statement leaves: to the next one, \<^verbatim>\<open>continue\<close>, \<^verbatim>\<open>break\<close>, or an exception.\<close>

datatype flow = Next | Continue | Break | Throw error

type_synonym 'w stmt = "'w ctx \<Rightarrow> flow \<times> 'w ctx"

definition seq :: "flow \<times> 'w ctx \<Rightarrow> 'w stmt \<Rightarrow> flow \<times> 'w ctx" where
  "seq r f = (case r of (Next, c) \<Rightarrow> f c | _ \<Rightarrow> r)"

definition call :: "('w \<Rightarrow> ('a \<times> 'w) res) \<Rightarrow> 'w ctx \<Rightarrow> ('a \<Rightarrow> 'w stmt) \<Rightarrow> flow \<times> 'w ctx" where
  "call f c k = (case f (x_world c) of Inl e \<Rightarrow> (Throw e, c) | Inr (a, w) \<Rightarrow> k a (c\<lparr>x_world := w\<rparr>))"

definition step_at :: "nat \<Rightarrow> 'w ctx \<Rightarrow> batch_step" where
  "step_at i c = b_steps (x_batch c) ! i"

definition set_step :: "nat \<Rightarrow> (batch_step \<Rightarrow> batch_step) \<Rightarrow> 'w ctx \<Rightarrow> 'w ctx" where
  "set_step i f c = c\<lparr>x_batch := (x_batch c)\<lparr>b_steps := (b_steps (x_batch c))[i := f (step_at i c)]\<rparr>\<rparr>"

definition set_state :: "string \<Rightarrow> string \<Rightarrow> 'w ctx \<Rightarrow> 'w ctx" where
  "set_state name s c = c\<lparr>x_states := smap_put name s (x_states c)\<rparr>"

definition set_batch_status :: "string \<Rightarrow> 'w ctx \<Rightarrow> 'w ctx" where
  "set_batch_status s c = c\<lparr>x_batch := (x_batch c)\<lparr>b_status := s\<rparr>\<rparr>"

text \<open>\<^verbatim>\<open>states[d]\<close>: an absent name reads as the empty status.\<close>

definition state_of :: "string \<Rightarrow> 'w ctx \<Rightarrow> string" where
  "state_of name c = (case smap_get (x_states c) name of None \<Rightarrow> [] | Some s \<Rightarrow> s)"

definition ready :: "batch_step \<Rightarrow> 'w ctx \<Rightarrow> bool" where
  "ready s c = list_all (\<lambda>d. succeeded (state_of d c) (s_partial s)) (s_deps s)"

definition check_run :: "'w run_ops \<Rightarrow> nat \<Rightarrow> 'w stmt" where
  "check_run ops i c =
     (if op_lost ops (x_world c) then (Throw (Runtime ''batch heartbeat lost''), c)
      else call (op_cancelled ops) c (\<lambda>cancelled c.
        if cancelled then (Break, set_batch_status ''cancelled'' c) else (Next, c)))"

definition check_done :: "nat \<Rightarrow> 'w stmt" where
  "check_done i c =
     (let s = step_at i c in
      if succeeded (s_status s) True then (Continue, set_state (s_name s) (s_status s) c)
      else if \<not> ready s c
      then (Continue, set_state (s_name s) ''dependency_blocked'' (set_step i (\<lambda>s. s\<lparr>s_status := ''dependency_blocked''\<rparr>) c))
      else (Next, c))"

text \<open>The earlier attempt of the step is over: it is retried at most once, and only on request.\<close>

definition retry_or_keep :: "bool \<Rightarrow> nat \<Rightarrow> string \<Rightarrow> string \<Rightarrow> 'w stmt" where
  "retry_or_keep retry i status previous c =
     (if status \<noteq> ''running'' \<and> status \<noteq> ''pending'' \<and> previous \<noteq> ''queued''
      then if \<not> retry \<or> s_attempt (step_at i c) \<ge> 2 then (Continue, set_state (s_name (step_at i c)) status c)
           else (Next, set_step i (\<lambda>s. s\<lparr>s_job := None\<rparr>) c)
      else (Next, c))"

definition resume :: "'w run_ops \<Rightarrow> bool \<Rightarrow> nat \<Rightarrow> 'w stmt" where
  "resume ops retry i c =
     (case s_job (step_at i c) of
        None \<Rightarrow> (Next, c)
      | Some j \<Rightarrow> call (op_job ops j) c (\<lambda>previous c.
          case v_result previous of
            Some status \<Rightarrow>
              let c = set_step i (\<lambda>s. s\<lparr>s_status := status, s_revision := v_rev previous\<rparr>) c in
              if succeeded status True then (Continue, set_state (s_name (step_at i c)) status c)
              else retry_or_keep retry i status (v_state previous) c
          | None \<Rightarrow>
              if v_state previous = ''running''
              then call (op_recover ops) c (\<lambda>_ c. call (op_job ops j) c (\<lambda>previous c.
                if v_state previous = ''running'' then (Break, set_batch_status ''waiting_for_job'' c)
                else retry_or_keep retry i (v_state previous) (v_state previous)
                       (set_step i (\<lambda>s. s\<lparr>s_status := v_state previous\<rparr>) c)))
              else retry_or_keep retry i (s_status (step_at i c)) (v_state previous) c))"

definition step_key :: "string \<Rightarrow> batch_step \<Rightarrow> string" where
  "step_key i s = i @ '':'' @ sha256_text (s_name s) @ '':'' @ to_string (s_attempt s + 1)"

definition affordable :: "nat \<Rightarrow> nat \<Rightarrow> batch \<Rightarrow> bool" where
  "affordable wall output b = (b_started b < b_jobs b \<and> b_reserved_wall b + wall \<le> b_wall b \<and>
     b_reserved_output b + output \<le> b_output b)"

definition reserve :: "nat \<Rightarrow> nat \<Rightarrow> nat \<Rightarrow> 'w ctx \<Rightarrow> 'w ctx" where
  "reserve i wall output c =
     (let b = x_batch c; c = c\<lparr>x_batch := b\<lparr>b_reserved_wall := b_reserved_wall b + wall,
            b_reserved_output := b_reserved_output b + output, b_started := b_started b + 1\<rparr>\<rparr>
      in set_step i (\<lambda>s. s\<lparr>s_reserved := True, s_key := step_key (b_id b) s\<rparr>) c)"

text \<open>The reservation and its key are saved before the submission, so a restart reuses this attempt.\<close>

definition submit :: "'w run_ops \<Rightarrow> nat \<Rightarrow> 'w stmt" where
  "submit ops i c =
     (case step_cost (s_request (step_at i c)) of
        Inl e \<Rightarrow> (Throw e, c)
      | Inr (wall, output) \<Rightarrow>
          if s_job (step_at i c) \<noteq> None then (Next, c)
          else if \<not> s_reserved (step_at i c) \<and> \<not> affordable wall output (x_batch c)
          then (Break, set_batch_status ''budget_exhausted'' c)
          else seq (if s_reserved (step_at i c) then (Next, c)
                    else let c = reserve i wall output c in call (op_save ops (x_batch c)) c (\<lambda>_ c. (Next, c)))
            (\<lambda>c. call (op_prepare ops (jput ''idempotency_key'' (JStr (s_key (step_at i c))) (s_request (step_at i c)))) c
              (\<lambda>j c. (Next, set_step i (\<lambda>s. s\<lparr>s_job := Some j, s_attempt := s_attempt s + 1, s_reserved := False\<rparr>) c))))"

definition run_job :: "'w run_ops \<Rightarrow> nat \<Rightarrow> 'w stmt" where
  "run_job ops i c =
     (let c = set_step i (\<lambda>s. s\<lparr>s_status := ''running''\<rparr>) c; s = step_at i c;
          j = (case s_job s of Some j \<Rightarrow> j | None \<Rightarrow> [])
      in call (op_save ops (x_batch c)) c (\<lambda>_ c.
         call (op_event ops ''step_started'' (jobj [(''step'', JStr (s_name s)), (''job_id'', JStr j)])) c (\<lambda>_ c.
         call (op_job ops j) c (\<lambda>_ c.
         call (op_execute ops j) c (\<lambda>result c.
           let c = set_state (s_name s) (f_status result) (set_step i (\<lambda>s. s\<lparr>s_status := f_status result,
                 s_revision := f_revision result, s_evidence := f_evidence result,
                 s_retry := (if succeeded (f_status result) True then ''not_needed''
                             else ''explicit_read_analysis_retry_only'')\<rparr>) c)
           in call (op_save ops (x_batch c)) c (\<lambda>_ c.
              call (op_event ops ''step_finished'' (jobj [(''step'', JStr (s_name s)), (''status'', JStr (f_status result))])) c
                (\<lambda>_ c. (Continue, c))))))))"

definition run_step :: "'w run_ops \<Rightarrow> bool \<Rightarrow> nat \<Rightarrow> 'w stmt" where
  "run_step ops retry i c =
     seq (seq (seq (seq (check_run ops i c) (check_done i)) (resume ops retry i)) (submit ops i)) (run_job ops i)"

section \<open>The run\<close>

fun run_steps :: "'w run_ops \<Rightarrow> bool \<Rightarrow> nat list \<Rightarrow> 'w ctx \<Rightarrow> error option \<times> 'w ctx" where
  "run_steps ops retry [] c = (None, c)"
| "run_steps ops retry (i # is) c =
     (case run_step ops retry i c of
        (Break, c') \<Rightarrow> (None, c')
      | (Throw e, c') \<Rightarrow> (Some e, c')
      | (_, c') \<Rightarrow> run_steps ops retry is c')"

definition conclude :: "batch \<Rightarrow> batch" where
  "conclude b =
     (if b_status b = ''running''
      then b\<lparr>b_status := (if list_all (\<lambda>s. succeeded (s_status s) False) (b_steps b) then ''completed'' else ''partial'')\<rparr>
      else b)"

text \<open>The body of the \<^verbatim>\<open>try\<close> block, with the record as it is when an exception leaves it.\<close>

definition guarded_run :: "'w run_ops \<Rightarrow> bool \<Rightarrow> batch \<Rightarrow> 'w \<Rightarrow> error option \<times> 'w ctx" where
  "guarded_run ops retry b w =
     (let c = \<lparr>x_batch = b\<lparr>b_status := ''running''\<rparr>, x_states = [], x_world = w\<rparr> in
      case op_save ops (x_batch c) w of
        Inl e \<Rightarrow> (Some e, c)
      | Inr (_, w) \<Rightarrow>
          (case run_steps ops retry [0..<length (b_steps b)] (c\<lparr>x_world := w\<rparr>) of
             (Some e, c) \<Rightarrow> (Some e, c)
           | (None, c) \<Rightarrow>
               let c = c\<lparr>x_batch := conclude (x_batch c)\<rparr> in
               (case bindE (op_save ops (x_batch c) (x_world c)) (\<lambda>(_, w).
                       op_event ops ''run_finished'' (jobj [(''status'', JStr (b_status (x_batch c)))]) w) of
                  Inl e \<Rightarrow> (Some e, c)
                | Inr (_, w) \<Rightarrow> (None, c\<lparr>x_world := w\<rparr>))))"

definition interrupted_detail :: json where
  "interrupted_detail = jobj [(''retry'', JStr ''resume explicitly; completed jobs will not repeat'')]"

text \<open>The run: the returned record, or the exception after the record was marked as interrupted.\<close>

definition batch_run :: "'w run_ops \<Rightarrow> bool \<Rightarrow> batch \<Rightarrow> 'w \<Rightarrow> error option \<times> batch \<times> 'w" where
  "batch_run ops retry b w =
     (case guarded_run ops retry b w of
        (None, c) \<Rightarrow> (None, x_batch c, op_release ops (x_world c))
      | (Some e, c) \<Rightarrow>
          let stopped = (x_batch c)\<lparr>b_status := ''interrupted''\<rparr>;
              w = (case op_save ops stopped (x_world c) of
                     Inl _ \<Rightarrow> x_world c
                   | Inr (_, w) \<Rightarrow> (case op_event ops ''interrupted'' interrupted_detail w of Inl _ \<Rightarrow> w | Inr (_, w) \<Rightarrow> w))
          in (Some e, stopped, op_release ops w))"

section \<open>The operations of the program\<close>

text \<open>
  The world of a run: the store, the batch table and a count of the calls so far.  \<open>run_env\<close> gives what each
  call meets: its times and fresh identifiers, the changes that other processes and the heartbeat thread
  made since the last call - to the jobs, and to the owner, deadline and cancellation flag of the rows - whether the
  heartbeat has failed, and whether the call itself fails, as it does after a crash.
\<close>

record service_world =
  sw_store :: store
  sw_db :: batch_db
  sw_calls :: nat

record run_env =
  en_now :: "nat \<Rightarrow> int"
  en_text :: "nat \<Rightarrow> string"
  en_id :: "nat \<Rightarrow> string"
  en_draw :: "nat \<Rightarrow> draw"
  en_store :: "nat \<Rightarrow> store \<Rightarrow> store"
  en_owner :: "nat \<Rightarrow> batch_row \<Rightarrow> string \<times> int \<times> bool"
  en_lost :: "nat \<Rightarrow> bool"
  en_fault :: "nat \<Rightarrow> bool"

definition disturb :: "run_env \<Rightarrow> nat \<Rightarrow> batch_row \<Rightarrow> batch_row" where
  "disturb env n row = (case en_owner env n row of (w, d, f) \<Rightarrow> row\<lparr>br_owner := w, br_deadline := d, br_cancel := f\<rparr>)"

definition tick :: "run_env \<Rightarrow> service_world \<Rightarrow> (nat \<times> service_world) res" where
  "tick env w =
     (let n = sw_calls w in
      if en_fault env n then Inl Fs_Error
      else Inr (n, w\<lparr>sw_store := en_store env n (sw_store w),
                     sw_db := change_rows (\<lambda>_. True) (disturb env n) (sw_db w), sw_calls := Suc n\<rparr>))"

definition view_job :: "json \<Rightarrow> job_view res" where
  "view_job j =
     bindE (jstr_at ''status'' j) (\<lambda>state. bindE (jat ''revision'' j) (\<lambda>revision.
       if contains j ''result''
       then bindE (jat ''result'' j) (\<lambda>result. bindE (jstr_at ''status'' result) (\<lambda>status.
              Inr \<lparr>v_state = state, v_result = Some status, v_rev = revision\<rparr>))
       else Inr \<lparr>v_state = state, v_result = None, v_rev = revision\<rparr>))"

definition view_result :: "json \<Rightarrow> finished res" where
  "view_result r =
     bindE (jstr_at ''status'' r) (\<lambda>status. bindE (jvalue ''result_revision'' JNull r) (\<lambda>revision.
     bindE (jvalue ''evidence_ids'' (JArr []) r) (\<lambda>evidence.
       Inr \<lparr>f_status = status, f_revision = revision, f_evidence = evidence\<rparr>)))"

definition service_ops ::
  "(string \<Rightarrow> json res) \<Rightarrow> (string \<Rightarrow> json option) \<Rightarrow> (store \<Rightarrow> json \<Rightarrow> json res) \<Rightarrow> (error \<Rightarrow> string) \<Rightarrow>
   (target_rec \<Rightarrow> json \<Rightarrow> command_result res) \<Rightarrow> run_env \<Rightarrow> string \<Rightarrow> string \<Rightarrow> string \<Rightarrow> service_world run_ops" where
  "service_ops parse other persist what run env p i token = \<lparr>
     op_lost = (\<lambda>w. en_lost env (sw_calls w)),
     op_cancelled = (\<lambda>w. bindE (tick env w) (\<lambda>(n, w).
       Inr (list_ex (\<lambda>row. this_row p i row \<and> br_cancel row) (bd_rows (sw_db w)), w))),
     op_save = (\<lambda>b w. bindE (tick env w) (\<lambda>(n, w). bindE (save_batch b token (en_now env n) (sw_db w)) (\<lambda>db.
       Inr ((), w\<lparr>sw_db := db\<rparr>)))),
     op_event = (\<lambda>kind detail w. bindE (tick env w) (\<lambda>(n, w). Inr ((), w\<lparr>sw_db := batch_log p i kind detail (sw_db w)\<rparr>))),
     op_job = (\<lambda>j w. bindE (tick env w) (\<lambda>(n, w). bindE (first_job parse (sw_store w) p j) (\<lambda>job.
       bindE (view_job job) (\<lambda>v. Inr (v, w))))),
     op_recover = (\<lambda>w. bindE (tick env w) (\<lambda>(n, w).
       bindE (recover_jobs (sw_store w) p (en_now env n) (en_text env n)) (\<lambda>(answer, st). Inr ((), w\<lparr>sw_store := st\<rparr>)))),
     op_prepare = (\<lambda>action w. bindE (tick env w) (\<lambda>(n, w).
       bindE (prepare parse other (sw_store w) action (en_id env n) (en_id env n @ ''_r'') (en_text env n)) (\<lambda>(job, st).
       bindE (jstr_at ''id'' job) (\<lambda>j. Inr (j, w\<lparr>sw_store := st\<rparr>))))),
     op_execute = (\<lambda>j w. bindE (tick env w) (\<lambda>(n, w). bindE (first_job parse (sw_store w) p j) (\<lambda>job.
       bindE (execute parse other persist what run (en_draw env n) (sw_store w) job) (\<lambda>(response, st).
       bindE (view_result response) (\<lambda>f. Inr (f, w\<lparr>sw_store := st\<rparr>)))))),
     op_release = (\<lambda>w. w\<lparr>sw_db := release_batch p i token (sw_db w)\<rparr>)\<rparr>"

text \<open>The operation \<^verbatim>\<open>run\<close>: the row is claimed, then the batch runs under the claim.\<close>

definition run_batch ::
  "(string \<Rightarrow> json res) \<Rightarrow> (string \<Rightarrow> json option) \<Rightarrow> (store \<Rightarrow> json \<Rightarrow> json res) \<Rightarrow> (error \<Rightarrow> string) \<Rightarrow>
   (target_rec \<Rightarrow> json \<Rightarrow> command_result res) \<Rightarrow> run_env \<Rightarrow> string \<Rightarrow> string \<Rightarrow> string \<Rightarrow> int \<Rightarrow> json \<Rightarrow> service_world \<Rightarrow>
   (error option \<times> batch \<times> service_world) res" where
  "run_batch parse other persist what run env p i token now r w =
     bindE (jvalue_bool ''reset_cancel'' False r) (\<lambda>reset. bindE (jvalue_bool ''retry_failed'' False r) (\<lambda>retry.
     bindE (claim_batch p i token now reset (sw_db w)) (\<lambda>(b, db).
       Inr (batch_run (service_ops parse other persist what run env p i token) retry b (w\<lparr>sw_db := db\<rparr>)))))"

section \<open>What a run keeps\<close>

definition step_ok :: "batch_step \<Rightarrow> bool" where
  "step_ok s = (s_attempt s \<le> 2 \<and> (s_job s = None \<longrightarrow> s_attempt s < 2))"

definition deps_precede :: "batch_step list \<Rightarrow> bool" where
  "deps_precede steps = (\<forall>i < length steps. \<forall>d \<in> set (s_deps (steps ! i)). \<exists>j < i. s_name (steps ! j) = d)"

definition batch_ok :: "batch \<Rightarrow> bool" where
  "batch_ok b = (b_reserved_wall b \<le> b_wall b \<and> b_reserved_output b \<le> b_output b \<and> b_started b \<le> b_jobs b \<and>
     (\<forall>s \<in> set (b_steps b). step_ok s) \<and> distinct (map s_name (b_steps b)) \<and> deps_precede (b_steps b))"

definition plan :: "batch_step \<Rightarrow> string \<times> string list \<times> bool \<times> json" where
  "plan s = (s_name s, s_deps s, s_partial s, s_request s)"

definition same_plan :: "batch \<Rightarrow> batch \<Rightarrow> bool" where
  "same_plan b b' = (b_id b' = b_id b \<and> b_project b' = b_project b \<and> b_wall b' = b_wall b \<and> b_output b' = b_output b \<and>
     b_jobs b' = b_jobs b \<and> map plan (b_steps b') = map plan (b_steps b))"

text \<open>
  What the run of batch \<open>b0\<close> may have done to step \<open>j\<close>: nothing if it was finished, and a submission
  only after the steps it depends on.
\<close>

definition settled :: "batch \<Rightarrow> batch \<Rightarrow> nat \<Rightarrow> bool" where
  "settled b0 b j =
     (let s0 = b_steps b0 ! j; s = b_steps b ! j in
      (succeeded (s_status s0) True \<longrightarrow> s = s0) \<and>
      (s_attempt s0 < s_attempt s \<longrightarrow>
         (\<forall>d \<in> set (s_deps s). \<exists>k < j. s_name (b_steps b ! k) = d \<and> succeeded (s_status (b_steps b ! k)) (s_partial s))))"

definition known_states :: "nat \<Rightarrow> 'w ctx \<Rightarrow> bool" where
  "known_states n c = (\<forall>k s. smap_get (x_states c) k = Some s \<longrightarrow>
     (\<exists>j < n. j < length (b_steps (x_batch c)) \<and> s_name (step_at j c) = k \<and> s = s_status (step_at j c)))"

definition run_inv :: "('w \<Rightarrow> bool) \<Rightarrow> batch \<Rightarrow> nat \<Rightarrow> 'w ctx \<Rightarrow> bool" where
  "run_inv W b0 n c = (same_plan b0 (x_batch c) \<and> batch_ok (x_batch c) \<and> W (x_world c) \<and>
     (\<forall>j < n. j < length (b_steps b0) \<longrightarrow> settled b0 (x_batch c) j) \<and>
     (\<forall>j. n \<le> j \<and> j < length (b_steps b0) \<longrightarrow> step_at j c = b_steps b0 ! j) \<and> known_states n c)"

text \<open>In the middle of step \<open>i\<close>, after it was found not to be finished and to be ready.\<close>

definition mid :: "('w \<Rightarrow> bool) \<Rightarrow> batch \<Rightarrow> nat \<Rightarrow> 'w ctx \<Rightarrow> bool" where
  "mid W b0 i c = (same_plan b0 (x_batch c) \<and> batch_ok (x_batch c) \<and> W (x_world c) \<and> i < length (b_steps b0) \<and>
     (\<forall>j < i. settled b0 (x_batch c) j) \<and> (\<forall>j. i < j \<and> j < length (b_steps b0) \<longrightarrow> step_at j c = b_steps b0 ! j) \<and>
     known_states i c \<and> \<not> succeeded (s_status (b_steps b0 ! i)) True \<and> ready (step_at i c) c)"

lemma same_plan_length: "same_plan b0 b \<Longrightarrow> length (b_steps b) = length (b_steps b0)"
  unfolding same_plan_def by (metis length_map)

lemma succeeded_Nil [simp]: "\<not> succeeded [] partial"
  by (simp add: succeeded_def)

lemma plan_nth:
  assumes "map plan xs = map plan ys" and "i < length ys"
  shows "s_name (xs ! i) = s_name (ys ! i)" "s_deps (xs ! i) = s_deps (ys ! i)" "s_partial (xs ! i) = s_partial (ys ! i)"
    "s_request (xs ! i) = s_request (ys ! i)"
proof -
  have "plan (xs ! i) = plan (ys ! i)"
    using assms by (metis length_map nth_map)
  then show "s_name (xs ! i) = s_name (ys ! i)" "s_deps (xs ! i) = s_deps (ys ! i)" "s_partial (xs ! i) = s_partial (ys ! i)"
    "s_request (xs ! i) = s_request (ys ! i)"
    by (simp_all add: plan_def)
qed

lemma deps_precede_cong:
  assumes "map plan xs = map plan ys" and "deps_precede ys"
  shows "deps_precede xs"
proof -
  have n: "length xs = length ys" using assms(1) by (metis length_map)
  show ?thesis
    unfolding deps_precede_def
  proof (intro allI impI ballI)
    fix i d assume i: "i < length xs" and d: "d \<in> set (s_deps (xs ! i))"
    then have "d \<in> set (s_deps (ys ! i))" using plan_nth(2)[OF assms(1)] n by simp
    then obtain j where "j < i" "s_name (ys ! j) = d" using assms(2) i n unfolding deps_precede_def by auto
    then show "\<exists>j<i. s_name (xs ! j) = d" using plan_nth(1)[OF assms(1), of j] i n by auto
  qed
qed

lemma names_cong: "map plan xs = map plan ys \<Longrightarrow> map s_name xs = map s_name ys"
  by (drule arg_cong[where f = "map fst"]) (simp add: plan_def comp_def)

subsection \<open>Changes of one step\<close>

lemma set_step_simps [simp]:
  "b_steps (x_batch (set_step i f c)) = (b_steps (x_batch c))[i := f (step_at i c)]"
  "x_states (set_step i f c) = x_states c" "x_world (set_step i f c) = x_world c"
  "b_id (x_batch (set_step i f c)) = b_id (x_batch c)" "b_project (x_batch (set_step i f c)) = b_project (x_batch c)"
  "b_wall (x_batch (set_step i f c)) = b_wall (x_batch c)" "b_output (x_batch (set_step i f c)) = b_output (x_batch c)"
  "b_jobs (x_batch (set_step i f c)) = b_jobs (x_batch c)" "b_started (x_batch (set_step i f c)) = b_started (x_batch c)"
  "b_reserved_wall (x_batch (set_step i f c)) = b_reserved_wall (x_batch c)"
  "b_reserved_output (x_batch (set_step i f c)) = b_reserved_output (x_batch c)"
  by (simp_all add: set_step_def)

lemma set_state_simps [simp]:
  "x_batch (set_state k s c) = x_batch c" "x_world (set_state k s c) = x_world c"
  "smap_get (x_states (set_state k s c)) k' = (if k' = k then Some s else smap_get (x_states c) k')"
  "step_at j (set_state k s c) = step_at j c"
  by (simp_all add: set_state_def smap_get_put step_at_def)

lemma set_status_simps [simp]:
  "b_steps (x_batch (set_batch_status s c)) = b_steps (x_batch c)" "x_states (set_batch_status s c) = x_states c"
  "x_world (set_batch_status s c) = x_world c" "step_at j (set_batch_status s c) = step_at j c"
  by (simp_all add: set_batch_status_def step_at_def)

lemma step_at_set: "step_at j (set_step i f c) = (if j = i \<and> i < length (b_steps (x_batch c)) then f (step_at i c) else step_at j c)"
  by (cases "i < length (b_steps (x_batch c))") (auto simp: step_at_def nth_list_update list_update_beyond)

lemma batch_ok_set_step:
  assumes "batch_ok (x_batch c)" and "plan (f (step_at i c)) = plan (step_at i c)" and "step_ok (f (step_at i c))"
    and "i < length (b_steps (x_batch c))"
  shows "batch_ok (x_batch (set_step i f c))" and "same_plan b0 (x_batch c) \<Longrightarrow> same_plan b0 (x_batch (set_step i f c))"
proof -
  have plans: "map plan ((b_steps (x_batch c))[i := f (step_at i c)]) = map plan (b_steps (x_batch c))"
    using assms(2,4) by (simp add: map_update step_at_def list_update_same_conv)
  show "batch_ok (x_batch (set_step i f c))"
    using assms names_cong[OF plans] deps_precede_cong[OF plans] set_update_subset_insert[of "b_steps (x_batch c)" i "f (step_at i c)"]
    by (auto simp: batch_ok_def)
  show "same_plan b0 (x_batch c) \<Longrightarrow> same_plan b0 (x_batch (set_step i f c))"
    using plans by (simp add: same_plan_def)
qed

lemma settled_cong:
  assumes "settled b0 b j" and "\<And>k. k \<le> j \<Longrightarrow> b_steps b' ! k = b_steps b ! k"
  shows "settled b0 b' j"
  using assms unfolding settled_def Let_def by (metis le_eq_less_or_eq)

text \<open>The invariants do not look at the status of the batch, and only through \<open>W\<close> at the world.\<close>

lemma run_inv_world: "run_inv W b0 n c \<Longrightarrow> W w \<Longrightarrow> run_inv W b0 n (c\<lparr>x_world := w\<rparr>)"
  by (simp add: run_inv_def known_states_def step_at_def)

lemma mid_world: "mid W b0 i c \<Longrightarrow> W w \<Longrightarrow> mid W b0 i (c\<lparr>x_world := w\<rparr>)"
  by (simp add: mid_def known_states_def step_at_def ready_def state_of_def)

lemma batch_ok_status [simp]: "batch_ok (b\<lparr>b_status := s\<rparr>) = batch_ok b" "same_plan b0 (b\<lparr>b_status := s\<rparr>) = same_plan b0 b"
  "settled b0 (b\<lparr>b_status := s\<rparr>) j = settled b0 b j"
  by (simp_all add: batch_ok_def same_plan_def settled_def)

lemma run_inv_status: "run_inv W b0 n c \<Longrightarrow> run_inv W b0 n (set_batch_status s c)"
  by (simp add: run_inv_def known_states_def step_at_def set_batch_status_def)

lemma mid_status: "mid W b0 i c \<Longrightarrow> mid W b0 i (set_batch_status s c)"
  by (simp add: mid_def known_states_def step_at_def set_batch_status_def ready_def state_of_def)

lemma mid_length: "mid W b0 i c \<Longrightarrow> i < length (b_steps (x_batch c))"
  using same_plan_length by (fastforce simp: mid_def)

lemma ready_cong: "s_deps s' = s_deps s \<Longrightarrow> s_partial s' = s_partial s \<Longrightarrow> x_states c' = x_states c \<Longrightarrow> ready s' c' = ready s c"
  by (simp add: ready_def state_of_def)

lemma known_states_set_step: "known_states i c \<Longrightarrow> known_states i (set_step i f c)"
  unfolding known_states_def
proof (intro allI impI)
  fix k s assume known: "\<forall>k s. smap_get (x_states c) k = Some s \<longrightarrow>
      (\<exists>j < i. j < length (b_steps (x_batch c)) \<and> s_name (step_at j c) = k \<and> s = s_status (step_at j c))"
    and "smap_get (x_states (set_step i f c)) k = Some s"
  then obtain j where "j < i" "j < length (b_steps (x_batch c))" "s_name (step_at j c) = k" "s = s_status (step_at j c)"
    by auto
  then show "\<exists>j < i. j < length (b_steps (x_batch (set_step i f c))) \<and> s_name (step_at j (set_step i f c)) = k \<and>
      s = s_status (step_at j (set_step i f c))"
    by (intro exI[of _ j]) (simp add: step_at_set)
qed

lemma mid_set_step:
  assumes "mid W b0 i c" and "plan (f (step_at i c)) = plan (step_at i c)" and "step_ok (f (step_at i c))"
  shows "mid W b0 i (set_step i f c)"
proof -
  note i = mid_length[OF assms(1)]
  have "ready (f (step_at i c)) (set_step i f c) = ready (step_at i c) c"
    using assms(2) by (intro ready_cong) (simp_all add: plan_def)
  moreover have "settled b0 (x_batch (set_step i f c)) j" if "j < i" for j
  proof (rule settled_cong)
    show "settled b0 (x_batch c) j" using assms(1) that by (simp add: mid_def)
    show "b_steps (x_batch (set_step i f c)) ! k = b_steps (x_batch c) ! k" if "k \<le> j" for k
      using that \<open>j < i\<close> by simp
  qed
  ultimately show ?thesis
    using assms batch_ok_set_step[where f = f and c = c and i = i] known_states_set_step[of i c f] i by (simp add: mid_def step_at_set)
qed

text \<open>What \<^verbatim>\<open>states\<close> says of a dependency is the status of a preceding step.\<close>

lemma ready_deps:
  assumes "ready s c" and "known_states i c" and "d \<in> set (s_deps s)"
  shows "\<exists>k < i. s_name (step_at k c) = d \<and> succeeded (s_status (step_at k c)) (s_partial s)"
proof -
  have "succeeded (state_of d c) (s_partial s)"
    using assms(1,3) by (auto simp: ready_def list_all_iff)
  then obtain t where "smap_get (x_states c) d = Some t" "succeeded t (s_partial s)"
    by (auto simp: state_of_def split: option.splits)
  with assms(2) show ?thesis unfolding known_states_def by blast
qed

lemma mid_settled: "mid W b0 i c \<Longrightarrow> settled b0 (x_batch c) i"
  using ready_deps[of "step_at i c" c i] unfolding mid_def settled_def Let_def step_at_def by blast

lemma less_Suc_cases: "(\<forall>j < Suc i. P j) \<longleftrightarrow> (\<forall>j < i. P j) \<and> P i"
  by (auto simp: less_Suc_eq)

lemma known_states_Suc: "known_states i c \<Longrightarrow> known_states (Suc i) c"
  unfolding known_states_def by (meson less_SucI)

lemma known_states_set_state:
  assumes "known_states i c" and "i < length (b_steps (x_batch c))"
  shows "known_states (Suc i) (set_state (s_name (step_at i c)) (s_status (step_at i c)) c)"
  using assms unfolding known_states_def by (auto simp: less_Suc_eq)

lemma mid_run_inv:
  assumes "mid W b0 i c"
  shows "run_inv W b0 (Suc i) c" and "run_inv W b0 (Suc i) (set_state (s_name (step_at i c)) (s_status (step_at i c)) c)"
proof -
  note i = mid_length[OF assms] and settled = mid_settled[OF assms]
  have k: "known_states i c" using assms by (simp add: mid_def)
  show "run_inv W b0 (Suc i) c"
    using assms settled k known_states_Suc by (simp add: run_inv_def mid_def less_Suc_cases Suc_le_eq)
  moreover have "known_states (Suc i) (set_state (s_name (step_at i c)) (s_status (step_at i c)) c)"
    by (rule known_states_set_state[OF k i])
  ultimately show "run_inv W b0 (Suc i) (set_state (s_name (step_at i c)) (s_status (step_at i c)) c)"
    by (simp add: run_inv_def)
qed

subsection \<open>The statements of one iteration\<close>

definition post :: "('w \<Rightarrow> bool) \<Rightarrow> batch \<Rightarrow> nat \<Rightarrow> flow \<times> 'w ctx \<Rightarrow> bool" where
  "post W b0 i r = (case r of (Next, c) \<Rightarrow> mid W b0 i c | (_, c) \<Rightarrow> run_inv W b0 (Suc i) c)"

definition left :: "('w \<Rightarrow> bool) \<Rightarrow> batch \<Rightarrow> nat \<Rightarrow> flow \<times> 'w ctx \<Rightarrow> bool" where
  "left W b0 i r = (fst r \<noteq> Next \<and> run_inv W b0 (Suc i) (snd r))"

lemma left_post: "left W b0 i r \<Longrightarrow> post W b0 i r"
  by (auto simp: left_def post_def split: flow.splits prod.splits)

lemma post_simps [simp]:
  "post W b0 i (Next, c) = mid W b0 i c" "post W b0 i (Continue, c) = run_inv W b0 (Suc i) c"
  "post W b0 i (Break, c) = run_inv W b0 (Suc i) c" "post W b0 i (Throw e, c) = run_inv W b0 (Suc i) c"
  by (simp_all add: post_def)

lemma seq_post: "post W b0 i r \<Longrightarrow> (\<And>c. mid W b0 i c \<Longrightarrow> post W b0 i (f c)) \<Longrightarrow> post W b0 i (seq r f)"
  by (auto simp: seq_def split: flow.splits prod.splits)

definition keeps :: "('w \<Rightarrow> bool) \<Rightarrow> ('w \<Rightarrow> ('a \<times> 'w) res) \<Rightarrow> bool" where
  "keeps W f = (\<forall>w a w'. W w \<longrightarrow> f w = Inr (a, w') \<longrightarrow> W w')"

lemma call_post:
  assumes "mid W b0 i c" and "keeps W f"
    and "\<And>a w. mid W b0 i (c\<lparr>x_world := w\<rparr>) \<Longrightarrow> post W b0 i (k a (c\<lparr>x_world := w\<rparr>))"
  shows "post W b0 i (call f c k)"
proof (cases "f (x_world c)")
  case (Inl e)
  then show ?thesis using mid_run_inv(1)[OF assms(1)] by (simp add: call_def)
next
  case (Inr r)
  obtain a w where r: "r = (a, w)" by (cases r)
  have "W w" using assms(1,2) Inr r unfolding keeps_def mid_def by blast
  from assms(3)[OF mid_world[OF assms(1) this]] show ?thesis
    using Inr r by (simp add: call_def)
qed

lemma call_left:
  assumes "run_inv W b0 (Suc i) c" and "keeps W f"
    and "\<And>a w. run_inv W b0 (Suc i) (c\<lparr>x_world := w\<rparr>) \<Longrightarrow> left W b0 i (k a (c\<lparr>x_world := w\<rparr>))"
  shows "left W b0 i (call f c k)"
proof (cases "f (x_world c)")
  case (Inl e)
  then show ?thesis using assms(1) by (simp add: call_def left_def)
next
  case (Inr r)
  obtain a w where r: "r = (a, w)" by (cases r)
  have "W w" using assms(1,2) Inr r unfolding keeps_def run_inv_def by blast
  from assms(3)[OF run_inv_world[OF assms(1) this]] show ?thesis
    using Inr r by (simp add: call_def)
qed

lemma run_inv_Suc: "run_inv W b0 i c \<Longrightarrow> i < length (b_steps b0) \<Longrightarrow> run_inv W b0 (Suc i) c"
  unfolding run_inv_def less_Suc_cases
  by (auto simp: settled_def Let_def step_at_def[symmetric] intro: known_states_Suc)

lemma mid_step_ok: "mid W b0 i c \<Longrightarrow> step_ok (step_at i c)"
  using mid_length[of W b0 i c] by (auto simp: mid_def batch_ok_def step_at_def)

lemma step_ok_simps [simp]:
  "step_ok (s\<lparr>s_status := x\<rparr>) = step_ok s" "step_ok (s\<lparr>s_revision := v\<rparr>) = step_ok s"
  "step_ok (s\<lparr>s_evidence := v\<rparr>) = step_ok s" "step_ok (s\<lparr>s_retry := x\<rparr>) = step_ok s"
  "step_ok (s\<lparr>s_reserved := f\<rparr>) = step_ok s" "step_ok (s\<lparr>s_key := x\<rparr>) = step_ok s"
  "plan (s\<lparr>s_status := x\<rparr>) = plan s" "plan (s\<lparr>s_revision := v\<rparr>) = plan s" "plan (s\<lparr>s_evidence := v\<rparr>) = plan s"
  "plan (s\<lparr>s_retry := x\<rparr>) = plan s" "plan (s\<lparr>s_reserved := f\<rparr>) = plan s" "plan (s\<lparr>s_key := x\<rparr>) = plan s"
  "plan (s\<lparr>s_job := j\<rparr>) = plan s" "plan (s\<lparr>s_attempt := n\<rparr>) = plan s"
  by (simp_all add: step_ok_def plan_def)

lemma check_done_post:
  assumes "run_inv W b0 i c" and "i < length (b_steps b0)"
  shows "post W b0 i (check_done i c)"
proof -
  have same: "step_at i c = b_steps b0 ! i" and len: "i < length (b_steps (x_batch c))"
    using assms same_plan_length by (fastforce simp: run_inv_def)+
  have known: "known_states i c" using assms(1) by (simp add: run_inv_def)
  have over: "run_inv W b0 (Suc i) (set_state (s_name (step_at i c)) (s_status (step_at i c)) c)"
    using run_inv_Suc[OF assms] known_states_set_state[OF known len] by (simp add: run_inv_def)
  let ?blocked = "\<lambda>s. s\<lparr>s_status := ''dependency_blocked''\<rparr>"
  have blocked: "run_inv W b0 (Suc i) (set_state (s_name (step_at i c)) ''dependency_blocked'' (set_step i ?blocked c))"
    if "\<not> succeeded (s_status (step_at i c)) True"
  proof -
    have "step_ok (step_at i c)" using assms(1) len by (simp add: run_inv_def batch_ok_def step_at_def)
    then have ok: "batch_ok (x_batch (set_step i ?blocked c))" "same_plan b0 (x_batch (set_step i ?blocked c))"
      using batch_ok_set_step[of c ?blocked i] len assms(1) by (simp_all add: run_inv_def)
    have "settled b0 (x_batch (set_step i ?blocked c)) j" if "j < i" for j
    proof (rule settled_cong)
      show "settled b0 (x_batch c) j" using assms that by (simp add: run_inv_def)
      show "b_steps (x_batch (set_step i ?blocked c)) ! k = b_steps (x_batch c) ! k" if "k \<le> j" for k
        using that \<open>j < i\<close> by simp
    qed
    moreover have "settled b0 (x_batch (set_step i ?blocked c)) i"
      using that same len by (simp add: settled_def step_at_def)
    moreover have "known_states (Suc i) (set_state (s_name (step_at i c)) ''dependency_blocked'' (set_step i ?blocked c))"
      using known_states_set_state[OF known_states_set_step[OF known, of ?blocked]] len by (simp add: step_at_set)
    ultimately show ?thesis
      using assms ok len by (simp add: run_inv_def less_Suc_cases step_at_set)
  qed
  have "mid W b0 i c" if "\<not> succeeded (s_status (step_at i c)) True" "ready (step_at i c) c"
    using assms same that known by (simp add: run_inv_def mid_def)
  then show ?thesis
    using over blocked by (simp add: check_done_def Let_def)
qed

lemma retry_post:
  assumes "mid W b0 i c" and "status = s_status (step_at i c)"
  shows "post W b0 i (retry_or_keep retry i status previous c)"
  using mid_run_inv(2)[OF assms(1)] assms mid_set_step[OF assms(1), of "\<lambda>s. s\<lparr>s_job := None\<rparr>"] mid_step_ok[OF assms(1)]
  by (auto simp: retry_or_keep_def step_ok_def)

lemma reserve_mid:
  assumes "mid W b0 i c" and "affordable wall output (x_batch c)"
  shows "mid W b0 i (reserve i wall output c)"
proof -
  let ?c = "c\<lparr>x_batch := (x_batch c)\<lparr>b_reserved_wall := b_reserved_wall (x_batch c) + wall,
     b_reserved_output := b_reserved_output (x_batch c) + output, b_started := b_started (x_batch c) + 1\<rparr>\<rparr>"
  have "mid W b0 i ?c"
    using assms by (simp add: mid_def affordable_def batch_ok_def same_plan_def settled_def known_states_def step_at_def ready_def state_of_def)
  from mid_set_step[OF this, of "\<lambda>s. s\<lparr>s_reserved := True, s_key := step_key (b_id (x_batch c)) s\<rparr>"] mid_step_ok[OF this]
  show ?thesis by (simp add: reserve_def Let_def)
qed

subsection \<open>The run over its surroundings\<close>

text \<open>
  What the loop relies on: a property of the world that every operation keeps, when only records that satisfy
  \<open>batch_ok\<close> are saved.
\<close>

locale run_world =
  fixes ops :: "'w run_ops" and W :: "'w \<Rightarrow> bool"
  assumes cancelled_keeps: "keeps W (op_cancelled ops)"
    and save_keeps: "batch_ok b \<Longrightarrow> keeps W (op_save ops b)"
    and event_keeps: "keeps W (op_event ops kind detail)"
    and job_keeps: "keeps W (op_job ops j)"
    and recover_keeps: "keeps W (op_recover ops)"
    and prepare_keeps: "keeps W (op_prepare ops action)"
    and execute_keeps: "keeps W (op_execute ops j)"
    and release_keeps: "W w \<Longrightarrow> W (op_release ops w)"
begin

lemma save_event_keeps:
  assumes "batch_ok b" and "W w" and "bindE (op_save ops b w) (\<lambda>(_, w). op_event ops kind detail w) = Inr (u, w')"
  shows "W w'"
proof -
  obtain a w1 where "op_save ops b w = Inr (a, w1)" and event: "op_event ops kind detail w1 = Inr (u, w')"
    using assms(3) by (elim bindE2_InrE)
  then have "W w1" using save_keeps[OF assms(1)] assms(2) unfolding keeps_def by blast
  then show ?thesis using event_keeps event unfolding keeps_def by blast
qed

lemma save_mid: "mid W b0 i c \<Longrightarrow> keeps W (op_save ops (x_batch c))"
  by (rule save_keeps) (simp add: mid_def)

lemma resume_post: "mid W b0 i c \<Longrightarrow> post W b0 i (resume ops retry i c)"
proof -
  assume m: "mid W b0 i c"
  have result: "post W b0 i (let c = set_step i (\<lambda>s. s\<lparr>s_status := status, s_revision := v\<rparr>) c in
      if succeeded status True then (Continue, set_state (s_name (step_at i c)) status c)
      else retry_or_keep retry i status previous c)" if m: "mid W b0 i c" for c status v previous
  proof -
    have c: "mid W b0 i (set_step i (\<lambda>s. s\<lparr>s_status := status, s_revision := v\<rparr>) c)"
      using mid_step_ok[OF m] by (intro mid_set_step[OF m]) simp_all
    have "s_status (step_at i (set_step i (\<lambda>s. s\<lparr>s_status := status, s_revision := v\<rparr>) c)) = status"
      using mid_length[OF m] by (simp add: step_at_set)
    with mid_run_inv(2)[OF c] retry_post[OF c, of status] show ?thesis by (simp add: Let_def)
  qed
  have recovered: "post W b0 i (retry_or_keep retry i status status (set_step i (\<lambda>s. s\<lparr>s_status := status\<rparr>) c))"
    if m: "mid W b0 i c" for c status
    using mid_step_ok[OF m] mid_length[OF m] by (intro retry_post mid_set_step[OF m]) (simp_all add: step_at_set)
  show ?thesis
  proof (cases "s_job (step_at i c)")
    case None
    then show ?thesis using m by (simp add: resume_def)
  next
    case (Some j)
    show ?thesis
      unfolding resume_def Some option.case
    proof (rule call_post[OF m job_keeps])
      fix previous :: job_view and w assume c: "mid W b0 i (c\<lparr>x_world := w\<rparr>)"
      show "post W b0 i (case v_result previous of
          Some status \<Rightarrow>
            let c = set_step i (\<lambda>s. s\<lparr>s_status := status, s_revision := v_rev previous\<rparr>) (c\<lparr>x_world := w\<rparr>) in
            if succeeded status True then (Continue, set_state (s_name (step_at i c)) status c)
            else retry_or_keep retry i status (v_state previous) c
        | None \<Rightarrow>
            if v_state previous = ''running''
            then call (op_recover ops) (c\<lparr>x_world := w\<rparr>) (\<lambda>_ c. call (op_job ops j) c (\<lambda>previous c.
              if v_state previous = ''running'' then (Break, set_batch_status ''waiting_for_job'' c)
              else retry_or_keep retry i (v_state previous) (v_state previous)
                     (set_step i (\<lambda>s. s\<lparr>s_status := v_state previous\<rparr>) c)))
            else retry_or_keep retry i (s_status (step_at i (c\<lparr>x_world := w\<rparr>))) (v_state previous) (c\<lparr>x_world := w\<rparr>))"
      proof (cases "v_result previous")
        case None
        have "post W b0 i (call (op_recover ops) (c\<lparr>x_world := w\<rparr>) (\<lambda>_ c. call (op_job ops j) c (\<lambda>previous c.
              if v_state previous = ''running'' then (Break, set_batch_status ''waiting_for_job'' c)
              else retry_or_keep retry i (v_state previous) (v_state previous)
                     (set_step i (\<lambda>s. s\<lparr>s_status := v_state previous\<rparr>) c))))"
          by (intro call_post[OF c recover_keeps] call_post[OF _ job_keeps])
            (simp_all add: recovered run_inv_status mid_run_inv(1))
        then show ?thesis using None retry_post[OF c] by simp
      next
        case (Some status)
        then show ?thesis using result[OF c] by simp
      qed
    qed
  qed
qed

lemma submit_post: "mid W b0 i c \<Longrightarrow> post W b0 i (submit ops i c)"
proof -
  assume m: "mid W b0 i c"
  let ?f = "\<lambda>j s. s\<lparr>s_job := Some j, s_attempt := s_attempt s + 1, s_reserved := False\<rparr>"
  let ?prepare = "\<lambda>c. call (op_prepare ops (jput ''idempotency_key'' (JStr (s_key (step_at i c))) (s_request (step_at i c)))) c
      (\<lambda>j c. (Next, set_step i (?f j) c))"
  have prepared: "post W b0 i (?prepare c)" if m: "mid W b0 i c" and none: "s_job (step_at i c) = None" for c
  proof (rule call_post[OF m prepare_keeps])
    fix j w assume c: "mid W b0 i (c\<lparr>x_world := w\<rparr>)"
    have "step_ok (step_at i (c\<lparr>x_world := w\<rparr>))" by (rule mid_step_ok[OF c])
    then have "step_ok (?f j (step_at i (c\<lparr>x_world := w\<rparr>)))"
      using none by (simp add: step_ok_def step_at_def)
    then show "post W b0 i (Next, set_step i (?f j) (c\<lparr>x_world := w\<rparr>))"
      using mid_set_step[OF c, of "?f j"] by simp
  qed
  have reserved: "post W b0 i (call (op_save ops (x_batch (reserve i wall out c))) (reserve i wall out c) (\<lambda>_. ?prepare))"
    if m: "mid W b0 i c" and none: "s_job (step_at i c) = None" and a: "affordable wall out (x_batch c)" for c wall out
  proof -
    note c = reserve_mid[OF m a]
    have "s_job (step_at i (reserve i wall out c)) = None"
      using none mid_length[OF m] by (simp add: reserve_def Let_def step_at_set) (simp add: step_at_def)
    then show ?thesis
      by (intro call_post[OF c save_mid[OF c]] prepared) (simp_all add: step_at_def)
  qed
  show ?thesis
  proof (cases "step_cost (s_request (step_at i c))")
    case (Inl e)
    then show ?thesis using mid_run_inv(1)[OF m] by (simp add: submit_def)
  next
    case (Inr cost)
    obtain wall out where cost: "cost = (wall, out)" by (cases cost)
    have through: "seq (call f c (\<lambda>_ c. (Next, c))) k = call f c (\<lambda>_. k)" for f :: "'w \<Rightarrow> (unit \<times> 'w) res" and c k
      by (auto simp: seq_def call_def split: sum.splits)
    show ?thesis
      using Inr cost m prepared[OF m] reserved[OF m, of wall out] run_inv_status[OF mid_run_inv(1)[OF m]]
      by (simp add: submit_def Let_def through) (simp add: seq_def)
  qed
qed

lemma finish_post:
  assumes "mid W b0 i c" and "plan (g (step_at i c)) = plan (step_at i c)" and "step_ok (g (step_at i c))"
    and "s_status (g (step_at i c)) = status" and "name = s_name (step_at i c)"
  shows "post W b0 i (let c = set_state name status (set_step i g c) in
    call (op_save ops (x_batch c)) c (\<lambda>_ c. call (op_event ops kind detail) c (\<lambda>_ c. (Continue, c))))"
proof -
  let ?c = "set_state name status (set_step i g c)"
  note m = mid_set_step[where f = g, OF assms(1-3)]
  have "s_name (step_at i (set_step i g c)) = name" "s_status (step_at i (set_step i g c)) = status"
    using assms mid_length[OF assms(1)] by (simp_all add: step_at_set plan_def)
  then have c: "run_inv W b0 (Suc i) ?c" using mid_run_inv(2)[OF m] by simp
  then have "keeps W (op_save ops (x_batch ?c))" by (intro save_keeps) (simp add: run_inv_def)
  with c show ?thesis
    unfolding Let_def by (intro left_post call_left[OF c] call_left[OF _ event_keeps]) (simp_all add: left_def)
qed

lemma run_job_post:
  assumes "mid W b0 i c"
  shows "post W b0 i (run_job ops i c)"
proof -
  let ?c = "set_step i (\<lambda>s. s\<lparr>s_status := ''running''\<rparr>) c"
  have c: "mid W b0 i ?c" using mid_step_ok[OF assms] by (intro mid_set_step[OF assms]) simp_all
  show ?thesis
    unfolding run_job_def Let_def
    by (intro call_post[OF c save_mid[OF c]] call_post[OF _ event_keeps] call_post[OF _ job_keeps]
        call_post[OF _ execute_keeps] finish_post[unfolded Let_def])
      (simp_all add: mid_step_ok[of W b0 i] step_at_def[symmetric], simp_all add: step_at_def)
qed

lemma run_step_inv:
  assumes "run_inv W b0 i c" and "i < length (b_steps b0)"
  shows "run_inv W b0 (Suc i) (snd (run_step ops retry i c))"
proof -
  have check: "(case check_run ops i c of (Next, c') \<Rightarrow> run_inv W b0 i c' | (_, c') \<Rightarrow> run_inv W b0 (Suc i) c')"
  proof (cases "op_cancelled ops (x_world c)")
    case (Inl e)
    then show ?thesis using run_inv_Suc[OF assms] by (simp add: check_run_def call_def)
  next
    case (Inr r)
    obtain f w where r: "r = (f, w)" by (cases r)
    have "W w" using assms(1) cancelled_keeps Inr r unfolding keeps_def run_inv_def by blast
    from run_inv_world[OF assms(1) this] run_inv_Suc[OF assms] run_inv_status[OF run_inv_Suc[OF run_inv_world[OF assms(1) this] assms(2)]]
    show ?thesis using Inr r by (simp add: check_run_def call_def)
  qed
  obtain fl c' where fl: "check_run ops i c = (fl, c')" by (cases "check_run ops i c")
  have "post W b0 i (seq (check_run ops i c) (check_done i))"
    using check check_done_post[OF _ assms(2), of W c'] by (cases fl) (simp_all add: fl seq_def)
  then have "post W b0 i (run_step ops retry i c)"
    unfolding run_step_def
    by (rule seq_post[OF seq_post[OF seq_post[OF _ resume_post] submit_post] run_job_post])
  moreover obtain fl1 c1 where "run_step ops retry i c = (fl1, c1)" by (cases "run_step ops retry i c")
  ultimately show ?thesis
    by (cases fl1) (simp_all add: mid_run_inv(1))
qed

lemma run_steps_inv:
  assumes "run_inv W b0 i c" and "i + k = length (b_steps b0)"
  shows "\<exists>n. run_inv W b0 n (snd (run_steps ops retry [i..<length (b_steps b0)] c))"
  using assms
proof (induction k arbitrary: i c)
  case 0
  then show ?case by auto
next
  case (Suc k)
  obtain fl c' where r: "run_step ops retry i c = (fl, c')" by (cases "run_step ops retry i c")
  have "i < length (b_steps b0)" using Suc.prems(2) by simp
  from run_step_inv[OF Suc.prems(1) this, of retry] r have c': "run_inv W b0 (Suc i) c'" by simp
  have "[i..<length (b_steps b0)] = i # [Suc i..<length (b_steps b0)]"
    using \<open>i < length (b_steps b0)\<close> by (simp add: upt_conv_Cons)
  then show ?case
    using r c' Suc.IH[OF c'] Suc.prems(2) by (cases fl) auto
qed

text \<open>The record that a run returns or leaves behind, and the world at the end.\<close>

theorem batch_run_inv:
  assumes "batch_ok b" and "W w" and "batch_run ops retry b w = (e, b', w')"
  shows "W w' \<and> batch_ok b' \<and> same_plan b b' \<and> (\<forall>j < length (b_steps b). settled b b' j)"
proof -
  let ?c = "\<lparr>x_batch = b\<lparr>b_status := ''running''\<rparr>, x_states = [], x_world = w\<rparr>"
  have start: "run_inv W b 0 \<lparr>x_batch = b\<lparr>b_status := s\<rparr>, x_states = [], x_world = w\<rparr>" if "W w" for s w
    using assms(1) that by (simp add: run_inv_def known_states_def step_at_def) (simp add: same_plan_def)
  have conclude: "run_inv W b n c \<Longrightarrow> run_inv W b n (c\<lparr>x_batch := conclude (x_batch c)\<rparr>)" for n c
    by (simp add: run_inv_def known_states_def step_at_def conclude_def)
  obtain n where n: "run_inv W b n (snd (guarded_run ops retry b w))"
  proof (cases "op_save ops (x_batch ?c) w")
    case (Inl err)
    with start[OF assms(2), of "''running''"] that[of 0] show ?thesis by (simp add: guarded_run_def)
  next
    case (Inr r)
    obtain u w1 where r: "r = (u, w1)" by (cases r)
    have "W w1" using save_keeps[of "b\<lparr>b_status := ''running''\<rparr>"] assms(1,2) Inr r by (auto simp: keeps_def)
    from run_steps_inv[OF start[OF this], of "length (b_steps b)" retry "''running''"]
    obtain n e' c' where steps: "run_steps ops retry [0..<length (b_steps b)] \<lparr>x_batch = b\<lparr>b_status := ''running''\<rparr>, x_states = [], x_world = w1\<rparr> = (e', c')"
      and c': "run_inv W b n c'" by (metis add_0 prod.collapse)
    show ?thesis
    proof (cases e')
      case (Some err)
      then show ?thesis using that[of n] Inr r steps c' by (simp add: guarded_run_def)
    next
      case None
      let ?d = "c'\<lparr>x_batch := conclude (x_batch c')\<rparr>"
      note d = conclude[OF c']
      have keep: "W w'" if "bindE (op_save ops (x_batch ?d) (x_world ?d)) (\<lambda>(_, w). op_event ops k v w) = Inr (u', w')" for k v u' w'
        using d by (intro save_event_keeps[OF _ _ that]) (simp_all add: run_inv_def)
      show ?thesis
      proof (cases "bindE (op_save ops (x_batch ?d) (x_world ?d)) (\<lambda>(_, w).
          op_event ops ''run_finished'' (jobj [(''status'', JStr (b_status (x_batch ?d)))]) w)")
        case (Inl err)
        then show ?thesis using that[of n] \<open>op_save ops (x_batch ?c) w = Inr r\<close> r steps d None by (simp add: guarded_run_def Let_def)
      next
        case (Inr q)
        obtain u2 w2 where q: "q = (u2, w2)" by (cases q)
        have "W w2" by (rule keep[OF Inr[unfolded q]])
        from run_inv_world[OF d this] show ?thesis
          using that[of n] Inr q \<open>op_save ops (x_batch ?c) w = Inr r\<close> r steps None by (simp add: guarded_run_def Let_def)
      qed
    qed
  qed
  obtain e1 c where c: "guarded_run ops retry b w = (e1, c)" by (cases "guarded_run ops retry b w")
  note inv = n[unfolded c snd_conv]
  have facts: "batch_ok (x_batch c)" "same_plan b (x_batch c)" "W (x_world c)"
    using inv by (simp_all add: run_inv_def)
  have settled: "\<forall>j < length (b_steps b). settled b (x_batch c) j"
  proof (intro allI impI)
    fix j assume j: "j < length (b_steps b)"
    show "settled b (x_batch c) j"
    proof (cases "j < n")
      case True
      with inv j show ?thesis by (simp add: run_inv_def)
    next
      case False
      with inv j have "step_at j c = b_steps b ! j" by (simp add: run_inv_def)
      then show ?thesis by (simp add: settled_def step_at_def)
    qed
  qed
  show ?thesis
  proof (cases e1)
    case None
    then have "w' = op_release ops (x_world c)" "b' = x_batch c"
      using assms(3) c by (simp_all add: batch_run_def)
    then show ?thesis using facts settled release_keeps by simp
  next
    case (Some err)
    let ?stopped = "(x_batch c)\<lparr>b_status := ''interrupted''\<rparr>"
    let ?w = "case op_save ops ?stopped (x_world c) of Inl _ \<Rightarrow> x_world c
        | Inr (_, w) \<Rightarrow> (case op_event ops ''interrupted'' interrupted_detail w of Inl _ \<Rightarrow> w | Inr (_, w) \<Rightarrow> w)"
    have "W ?w"
    proof (cases "op_save ops ?stopped (x_world c)")
      case (Inr r)
      obtain u w1 where r: "r = (u, w1)" by (cases r)
      have "keeps W (op_save ops ?stopped)" using facts(1) by (intro save_keeps) simp
      then have w1: "W w1" using facts(3) Inr r unfolding keeps_def by blast
      show ?thesis
      proof (cases "op_event ops ''interrupted'' interrupted_detail w1")
        case (Inr q)
        obtain u2 w2 where "q = (u2, w2)" by (cases q)
        with Inr w1 have "W w2" using event_keeps unfolding keeps_def by blast
        then show ?thesis using \<open>q = (u2, w2)\<close> Inr \<open>op_save ops ?stopped (x_world c) = Inr r\<close> r by simp
      qed (use Inr r w1 in simp)
    qed (use facts(3) in simp)
    moreover have "batch_run ops retry b w = (Some err, ?stopped, op_release ops ?w)"
      using c Some by (simp add: batch_run_def Let_def)
    note eq = trans[OF assms(3)[symmetric] this]
    have "w' = op_release ops ?w" using eq by (elim Pair_inject)
    moreover have "b' = ?stopped" using eq by (elim Pair_inject)
    ultimately show ?thesis using facts settled release_keeps by simp
  qed
qed

end

end
