(* ===== verification/Ind_Runs.thy ===== *)
theory Ind_Runs
  imports Ind_Runner
begin

text \<open>
  Properties of batches: the table of batches over any history of creations, cancellations, crashes and
  runs; what one run may do to each step; and when a run completes.
\<close>

section \<open>Created batches\<close>

lemma check_dependency_subset:
  "foldE (check_dependency names) ds deps = Inr deps' \<Longrightarrow> set deps \<subseteq> set names \<Longrightarrow> set deps' \<subseteq> set names"
proof (induction ds arbitrary: deps)
  case Nil
  then show ?case by simp
next
  case (Cons d ds)
  obtain deps1 where first: "check_dependency names d deps = Inr deps1" and rest: "foldE (check_dependency names) ds deps1 = Inr deps'"
    using Cons.prems(1) by (simp only: foldE.simps) (erule bindE_InrE)
  obtain name where "name \<in> set names" "deps1 = deps @ [name]"
    using first by (auto simp: check_dependency_def split: if_splits)
  with Cons.prems(2) have "set deps1 \<subseteq> set names" by simp
  then show ?case by (rule Cons.IH[OF rest])
qed

definition prepared_ok :: "string list \<times> batch_step list \<Rightarrow> bool" where
  "prepared_ok = (\<lambda>(names, steps). set names = s_name ` set steps \<and> distinct (map s_name steps) \<and> deps_precede steps \<and>
     (\<forall>s \<in> set steps. step_ok s))"

lemma deps_precede_snoc:
  assumes "deps_precede steps" and "set (s_deps s) \<subseteq> s_name ` set steps"
  shows "deps_precede (steps @ [s])"
  unfolding deps_precede_def
proof (intro allI impI ballI)
  fix i d assume i: "i < length (steps @ [s])" and d: "d \<in> set (s_deps ((steps @ [s]) ! i))"
  show "\<exists>j < i. s_name ((steps @ [s]) ! j) = d"
  proof (cases "i < length steps")
    case True
    with assms(1) d obtain j where "j < i" "s_name (steps ! j) = d" by (auto simp: deps_precede_def nth_append)
    then show ?thesis using True by (intro exI[of _ j]) (simp add: nth_append)
  next
    case False
    then have "i = length steps" using i by simp
    with assms(2) d obtain t where "t \<in> set steps" "s_name t = d" by auto
    then obtain j where "j < length steps" "s_name (steps ! j) = d" by (auto simp: in_set_conv_nth)
    then show ?thesis using \<open>i = length steps\<close> by (intro exI[of _ j]) (simp add: nth_append)
  qed
qed

lemma add_step_prepared:
  assumes "add_step other st p limits step acc = Inr acc'" and "prepared_ok acc"
  shows "prepared_ok acc'"
proof -
  obtain names steps where acc: "acc = (names, steps)" by (cases acc)
  obtain u1 name u2 deps_json deps request action u3 partial where name: "\<not> name \<in> set names"
    and deps: "foldE (check_dependency names) (jrange deps_json) [] = Inr deps"
    and acc': "Inr (sset_insert name names, steps @ [\<lparr>s_name = name, s_deps = deps, s_partial = partial, s_request = action,
        s_status = ''pending'', s_attempt = 0, s_job = None, s_reserved = False, s_key = [], s_revision = JNull,
        s_evidence = JArr [], s_retry = []\<rparr>]) = (Inr acc' :: (string list \<times> batch_step list) res)"
    using assms(1) unfolding add_step_def acc prod.case by (elim bindE_elims) (rule that, assumption+)
  have "set deps \<subseteq> set names" using check_dependency_subset[OF deps] by simp
  then show ?thesis
    using assms(2) acc' name by (auto simp: prepared_ok_def acc step_ok_def intro!: deps_precede_snoc)
qed

lemma created_ok:
  assumes "batch_create other st db p r bid created = Inr (b, db')"
  shows "batch_ok b \<and> bd_rows db' = bd_rows db @ [\<lparr>br_batch = b, br_owner = [], br_deadline = 0, br_cancel = False\<rparr>]"
proof -
  obtain steps limits names prepared where
    fold: "foldE (add_step other st p limits) (jrange steps) ([], []) = Inr (names, prepared)"
    and b: "b_steps b = prepared" "b_reserved_wall b = 0" "b_reserved_output b = 0" "b_started b = 0"
    and rows: "bd_rows db' = bd_rows db @ [\<lparr>br_batch = b, br_owner = [], br_deadline = 0, br_cancel = False\<rparr>]"
    using assms unfolding batch_create_def Let_def
    by (elim bindE_elims) (auto simp: batch_log_def split: if_splits elim!: bindE_InrE)
  have "prepared_ok ([], [])" by (simp add: prepared_ok_def deps_precede_def)
  from foldE_invariant[of "add_step other st p limits" "jrange steps" _ _ prepared_ok, OF fold this] add_step_prepared
  have "prepared_ok (names, prepared)" by blast
  then show ?thesis using b rows by (simp add: prepared_ok_def batch_ok_def)
qed

section \<open>The table of batches\<close>

definition db_ok :: "batch_db \<Rightarrow> bool" where
  "db_ok db = (\<forall>row \<in> set (bd_rows db). batch_ok (br_batch row))"

lemma db_ok_change:
  "db_ok db \<Longrightarrow> (\<And>row. row \<in> set (bd_rows db) \<Longrightarrow> batch_ok (br_batch row) \<Longrightarrow> batch_ok (br_batch (f row))) \<Longrightarrow>
   db_ok (change_rows P f db)"
  by (auto simp: db_ok_def change_rows_def)

lemma db_ok_log [simp]: "db_ok (batch_log p i kind detail db) = db_ok db"
  by (simp add: db_ok_def batch_log_def)

lemma tick_keeps: "tick env w = Inr (n, w') \<Longrightarrow> db_ok (sw_db w) \<Longrightarrow> db_ok (sw_db w')"
  by (auto simp: tick_def Let_def disturb_def intro!: db_ok_change split: if_splits prod.splits)

lemma save_db_ok: "batch_ok b \<Longrightarrow> save_batch b token now db = Inr db' \<Longrightarrow> db_ok db \<Longrightarrow> db_ok db'"
  by (auto simp: save_batch_def Let_def intro!: db_ok_change split: if_splits)

lemma release_db_ok: "db_ok db \<Longrightarrow> db_ok (release_batch p i token db)"
  by (auto simp: release_batch_def intro!: db_ok_change)

interpretation service_runs: run_world "service_ops parse other persist what run env p i token" "\<lambda>w. db_ok (sw_db w)"
  for parse other persist what run env p i token
proof (unfold_locales, goal_cases)
  case 8
  then show ?case by (simp add: service_ops_def release_db_ok)
qed (auto simp: service_ops_def keeps_def dest!: tick_keeps intro: save_db_ok)

text \<open>The surroundings may be anything when only the record is of interest.\<close>

interpretation any_run: run_world ops "\<lambda>_. True" for ops :: "'w run_ops"
  by unfold_locales (simp_all add: keeps_def)

text \<open>
  Every table that the program can produce.  A crash at any call of a run is a run whose calls fail from there
  on, so interrupted processes are included.
\<close>

inductive batch_history :: "batch_db \<Rightarrow> bool" where
  empty: "batch_history \<lparr>bd_rows = [], bd_events = []\<rparr>"
| created: "batch_history db \<Longrightarrow> batch_create other st db p r bid at' = Inr (b, db') \<Longrightarrow> batch_history db'"
| cancelled: "batch_history db \<Longrightarrow> batch_cancel parse st db p i = Inr (a, st', db') \<Longrightarrow> batch_history db'"
| beat: "batch_history db \<Longrightarrow> batch_history (fst (beat_batch p i token now db))"
| ran: "batch_history (sw_db w) \<Longrightarrow> run_batch parse other persist what run env p i token now r w = Inr (e, b, w') \<Longrightarrow>
    batch_history (sw_db w')"

lemma claimed_ok:
  assumes "claim_batch p i token now reset db = Inr (b, db')" and "db_ok db"
  shows "batch_ok b \<and> db_ok db'"
  using assms
  by (auto simp: claim_batch_def batch_load_def Let_def db_ok_def change_rows_def batch_log_def dest!: find_SomeD
      split: option.splits if_splits)

lemma run_batch_ok:
  assumes "run_batch parse other persist what run env p i token now r w = Inr (e, b, w')" and "db_ok (sw_db w)"
  shows "db_ok (sw_db w')"
proof -
  obtain retry reset b0 db where c: "claim_batch p i token now reset (sw_db w) = Inr (b0, db)"
    and run: "Inr (batch_run (service_ops parse other persist what run env p i token) retry b0 (w\<lparr>sw_db := db\<rparr>)) =
      (Inr (e, b, w') :: (error option \<times> batch \<times> service_world) res)"
    using assms(1) unfolding run_batch_def by (elim bindE_elims) (rule that, assumption+)
  from claimed_ok[OF c assms(2)] have b0: "batch_ok b0" "db_ok (sw_db (w\<lparr>sw_db := db\<rparr>))" by simp_all
  from run have "batch_run (service_ops parse other persist what run env p i token) retry b0 (w\<lparr>sw_db := db\<rparr>) = (e, b, w')"
    by (rule Inr_inject)
  from service_runs.batch_run_inv[OF b0 this] show ?thesis by simp
qed

lemma history_ok: "batch_history db \<Longrightarrow> db_ok db"
proof (induction rule: batch_history.induct)
  case empty
  then show ?case by (simp add: db_ok_def)
next
  case (created db other st p r bid at' b db')
  then show ?case using created_ok[OF created(2)] by (auto simp: db_ok_def)
next
  case (cancelled db parse st p i a st' db')
  then show ?case
    by (auto simp: batch_cancel_def Let_def intro!: db_ok_change)
next
  case (beat db p i token now)
  then show ?case by (auto simp: beat_batch_def Let_def intro!: db_ok_change)
next
  case (ran w parse other persist what run env p i token now r e b w')
  then show ?case using run_batch_ok by blast
qed

section \<open>Progress\<close>

text \<open>
  Surroundings in which nothing goes wrong: in every world that \<open>W\<close> admits the run is not cancelled and keeps its
  lease, every call returns in such a world again, and every job completes.
\<close>

definition answers :: "('w \<Rightarrow> bool) \<Rightarrow> ('w \<Rightarrow> ('a \<times> 'w) res) \<Rightarrow> ('a \<Rightarrow> bool) \<Rightarrow> bool" where
  "answers W f P = (\<forall>w. W w \<longrightarrow> (\<exists>a w'. f w = Inr (a, w') \<and> P a \<and> W w'))"

definition benign :: "('w \<Rightarrow> bool) \<Rightarrow> 'w run_ops \<Rightarrow> bool" where
  "benign W ops = ((\<forall>w. W w \<longrightarrow> \<not> op_lost ops w) \<and> answers W (op_cancelled ops) (\<lambda>f. \<not> f) \<and>
     (\<forall>b. answers W (op_save ops b) (\<lambda>_. True)) \<and> (\<forall>k d. answers W (op_event ops k d) (\<lambda>_. True)) \<and>
     (\<forall>j. answers W (op_job ops j) (\<lambda>_. True)) \<and> (\<forall>a. answers W (op_prepare ops a) (\<lambda>_. True)) \<and>
     (\<forall>j. answers W (op_execute ops j) (\<lambda>f. f_status f = ''completed'')))"

definition cost_of :: "batch_step \<Rightarrow> nat \<times> nat" where
  "cost_of s = (case step_cost (s_request s) of Inr c \<Rightarrow> c | Inl _ \<Rightarrow> (0, 0))"

text \<open>A batch that has not run yet and whose budget covers all of its steps.\<close>

definition untouched :: "batch_step \<Rightarrow> bool" where
  "untouched s = (s_status s = ''pending'' \<and> s_job s = None \<and> \<not> s_reserved s \<and> is_ok (step_cost (s_request s)))"

definition covered :: "batch \<Rightarrow> bool" where
  "covered b = (deps_precede (b_steps b) \<and> distinct (map s_name (b_steps b)) \<and> list_all untouched (b_steps b) \<and>
     b_started b + length (b_steps b) \<le> b_jobs b \<and>
     b_reserved_wall b + sum_list (map (fst \<circ> cost_of) (b_steps b)) \<le> b_wall b \<and>
     b_reserved_output b + sum_list (map (snd \<circ> cost_of) (b_steps b)) \<le> b_output b)"

definition progress :: "('w \<Rightarrow> bool) \<Rightarrow> batch \<Rightarrow> nat \<Rightarrow> 'w ctx \<Rightarrow> bool" where
  "progress W b n c = (W (x_world c) \<and> b_status (x_batch c) = ''running'' \<and>
     b_jobs (x_batch c) = b_jobs b \<and> b_wall (x_batch c) = b_wall b \<and> b_output (x_batch c) = b_output b \<and>
     map s_name (b_steps (x_batch c)) = map s_name (b_steps b) \<and> b_started (x_batch c) = b_started b + n \<and>
     b_reserved_wall (x_batch c) = b_reserved_wall b + sum_list (map (fst \<circ> cost_of) (take n (b_steps b))) \<and>
     b_reserved_output (x_batch c) = b_reserved_output b + sum_list (map (snd \<circ> cost_of) (take n (b_steps b))) \<and>
     (\<forall>j < n. j < length (b_steps b) \<longrightarrow> s_status (step_at j c) = ''completed'' \<and>
        smap_get (x_states c) (s_name (b_steps b ! j)) = Some ''completed'') \<and>
     (\<forall>j. n \<le> j \<and> j < length (b_steps b) \<longrightarrow> step_at j c = b_steps b ! j))"

lemma call_Inr: "f (x_world c) = Inr (a, w) \<Longrightarrow> call f c k = k a (c\<lparr>x_world := w\<rparr>)"
  by (simp add: call_def)

lemma progress_length: "progress W b n c \<Longrightarrow> length (b_steps (x_batch c)) = length (b_steps b)"
  unfolding progress_def by (metis length_map)

lemma take_sum: "i < length xs \<Longrightarrow> sum_list (map f (take (Suc i) xs)) = sum_list (map f (take i xs)) + (f (xs ! i) :: nat)"
  by (simp add: take_Suc_conv_app_nth)

lemma take_sum_le: "sum_list (map f (take i xs)) \<le> sum_list (map (f :: _ \<Rightarrow> nat) xs)"
  by (metis append_take_drop_id le_add1 map_append sum_list_append)

lemma progress_ready:
  assumes "progress W b i c" and "covered b" and "i < length (b_steps b)"
  shows "ready (b_steps b ! i) c"
  unfolding ready_def list_all_iff
proof
  fix d assume "d \<in> set (s_deps (b_steps b ! i))"
  then obtain j where "j < i" "s_name (b_steps b ! j) = d"
    using assms(2,3) by (auto simp: covered_def deps_precede_def)
  then have "smap_get (x_states c) d = Some ''completed''"
    using assms(1,3) by (auto simp: progress_def)
  then show "succeeded (state_of d c) (s_partial (b_steps b ! i))"
    by (simp add: state_of_def succeeded_def)
qed

lemma progress_affordable:
  assumes "progress W b i c" and "covered b" and "i < length (b_steps b)" and "step_cost (s_request (b_steps b ! i)) = Inr (wall, out)"
  shows "affordable wall out (x_batch c)"
proof -
  have "cost_of (b_steps b ! i) = (wall, out)" using assms(4) by (simp add: cost_of_def)
  then have "sum_list (map (fst \<circ> cost_of) (take i (b_steps b))) + wall \<le> sum_list (map (fst \<circ> cost_of) (b_steps b))"
    "sum_list (map (snd \<circ> cost_of) (take i (b_steps b))) + out \<le> sum_list (map (snd \<circ> cost_of) (b_steps b))"
    using take_sum[OF assms(3), of "fst \<circ> cost_of"] take_sum_le[of "fst \<circ> cost_of" "Suc i" "b_steps b"]
      take_sum[OF assms(3), of "snd \<circ> cost_of"] take_sum_le[of "snd \<circ> cost_of" "Suc i" "b_steps b"] by simp_all
  then show ?thesis
    using assms(1-3) by (simp add: affordable_def progress_def covered_def)
qed

text \<open>The same in the middle of step \<open>i\<close>, once it is reserved.\<close>

definition inside :: "('w \<Rightarrow> bool) \<Rightarrow> batch \<Rightarrow> nat \<Rightarrow> 'w ctx \<Rightarrow> bool" where
  "inside W b i c = (W (x_world c) \<and> b_status (x_batch c) = ''running'' \<and>
     b_jobs (x_batch c) = b_jobs b \<and> b_wall (x_batch c) = b_wall b \<and> b_output (x_batch c) = b_output b \<and>
     map s_name (b_steps (x_batch c)) = map s_name (b_steps b) \<and> b_started (x_batch c) = b_started b + Suc i \<and>
     b_reserved_wall (x_batch c) = b_reserved_wall b + sum_list (map (fst \<circ> cost_of) (take (Suc i) (b_steps b))) \<and>
     b_reserved_output (x_batch c) = b_reserved_output b + sum_list (map (snd \<circ> cost_of) (take (Suc i) (b_steps b))) \<and>
     (\<forall>j < i. s_status (step_at j c) = ''completed'' \<and>
        smap_get (x_states c) (s_name (b_steps b ! j)) = Some ''completed'') \<and>
     (\<forall>j. i < j \<and> j < length (b_steps b) \<longrightarrow> step_at j c = b_steps b ! j) \<and> i < length (b_steps b))"

lemma inside_length: "inside W b i c \<Longrightarrow> length (b_steps (x_batch c)) = length (b_steps b) \<and> i < length (b_steps (x_batch c))"
  unfolding inside_def by (metis length_map)

lemma inside_name: "inside W b i c \<Longrightarrow> s_name (step_at i c) = s_name (b_steps b ! i)"
  using inside_length[of W b i c] unfolding inside_def step_at_def by (metis nth_map)

lemma inside_world: "inside W b i c \<Longrightarrow> W w \<Longrightarrow> inside W b i (c\<lparr>x_world := w\<rparr>)"
  by (simp add: inside_def step_at_def)

lemma set_step_status [simp]: "b_status (x_batch (set_step i f c)) = b_status (x_batch c)"
  by (simp add: set_step_def)

lemma inside_step:
  assumes "inside W b i c" and "s_name (f (step_at i c)) = s_name (step_at i c)"
  shows "inside W b i (set_step i f c)"
proof -
  have "map s_name ((b_steps (x_batch c))[i := f (step_at i c)]) = map s_name (b_steps (x_batch c))"
    using assms inside_length[OF assms(1)] by (simp add: map_update step_at_def list_update_same_conv)
  then show ?thesis
    using assms(1) by (simp add: inside_def step_at_set)
qed

lemma inside_done:
  assumes "inside W b i c" and "s_status (step_at i c) = ''completed''"
  shows "progress W b (Suc i) (set_state (s_name (b_steps b ! i)) ''completed'' c)"
  using assms by (auto simp: inside_def progress_def less_Suc_eq)

lemma inside_reserve:
  assumes "progress W b i c" and "i < length (b_steps b)" and "cost_of (b_steps b ! i) = (wall, out)"
  shows "inside W b i (reserve i wall out c)"
proof -
  let ?c = "c\<lparr>x_batch := (x_batch c)\<lparr>b_reserved_wall := b_reserved_wall (x_batch c) + wall,
     b_reserved_output := b_reserved_output (x_batch c) + out, b_started := b_started (x_batch c) + 1\<rparr>\<rparr>"
  have "inside W b i ?c"
    using assms take_sum[OF assms(2), of "fst \<circ> cost_of"] take_sum[OF assms(2), of "snd \<circ> cost_of"]
    by (simp add: inside_def progress_def step_at_def)
  then show ?thesis
    unfolding reserve_def Let_def by (rule inside_step) simp
qed

subsection \<open>One iteration\<close>

lemma call_answers:
  assumes "answers W f P" and "W (x_world c)" and "\<And>a w. P a \<Longrightarrow> W w \<Longrightarrow> G (k a (c\<lparr>x_world := w\<rparr>))"
  shows "G (call f c k)"
proof -
  obtain a w where "f (x_world c) = Inr (a, w)" "P a" "W w" using assms(1,2) unfolding answers_def by blast
  with assms(3) show ?thesis by (simp add: call_def)
qed

lemma seq_call: "seq (call f c k) h = call f c (\<lambda>a c. seq (k a c) h)"
proof (cases "f (x_world c)")
  case (Inr r)
  then show ?thesis by (cases r) (simp add: call_def)
qed (simp add: seq_def call_def)

lemma seq_simps [simp]: "seq (Next, c) h = h c" "seq (Continue, c) h = (Continue, c)"
  by (simp_all add: seq_def)

definition advances :: "('w \<Rightarrow> bool) \<Rightarrow> batch \<Rightarrow> nat \<Rightarrow> flow \<times> 'w ctx \<Rightarrow> bool" where
  "advances W b i r = (\<exists>c. r = (Continue, c) \<and> progress W b (Suc i) c)"

lemmas advances_call = call_answers[where G = "advances W b i" for W b i]

lemma progress_world: "progress W b n c \<Longrightarrow> W w \<Longrightarrow> progress W b n (c\<lparr>x_world := w\<rparr>)"
  by (simp add: progress_def step_at_def)

lemma run_job_advances:
  assumes "inside W b i c" and "benign W ops"
  shows "advances W b i (run_job ops i c)"
proof -
  have ans: "answers W (op_save ops bb) (\<lambda>_. True)" "answers W (op_event ops k d) (\<lambda>_. True)"
    "answers W (op_job ops j) (\<lambda>_. True)" "answers W (op_execute ops j) (\<lambda>f. f_status f = ''completed'')" for bb k d j
    using assms(2) unfolding benign_def by blast+
  let ?c = "set_step i (\<lambda>s. s\<lparr>s_status := ''running''\<rparr>) c"
  have c: "inside W b i ?c" by (rule inside_step[OF assms(1)]) simp
  have world: "inside W b i c \<Longrightarrow> W (x_world c)" for c by (simp add: inside_def)
  have final: "advances W b i (let c = set_state (s_name (step_at i ?c)) (f_status f) (set_step i (\<lambda>s. s\<lparr>s_status := f_status f,
        s_revision := f_revision f, s_evidence := f_evidence f, s_retry := r\<rparr>) (?c\<lparr>x_world := w\<rparr>))
      in call (op_save ops (x_batch c)) c (\<lambda>_ c. call (op_event ops k d) c (\<lambda>_ c. (Continue, c))))"
    if "f_status f = ''completed''" and "W w" for f r w k d
  proof -
    let ?d = "set_step i (\<lambda>s. s\<lparr>s_status := f_status f, s_revision := f_revision f, s_evidence := f_evidence f, s_retry := r\<rparr>)
        (?c\<lparr>x_world := w\<rparr>)"
    have d: "inside W b i ?d"
      by (rule inside_step[OF inside_world[OF c that(2)]]) simp
    have "s_status (step_at i ?d) = ''completed''"
      using inside_length[OF inside_world[OF c that(2)]] that(1) by (simp add: step_at_set)
    from inside_done[OF d this] have p: "progress W b (Suc i) (set_state (s_name (step_at i ?c)) (f_status f) ?d)"
      using that(1) inside_name[OF c] by simp
    have Wd: "W (x_world (set_state (s_name (step_at i ?c)) (f_status f) ?d))"
      using p by (simp add: progress_def)
    show ?thesis
      unfolding Let_def
    proof (rule advances_call[OF ans(1) Wd], rule advances_call[OF ans(2)])
      fix w1 assume w1: "W w1"
      let ?e = "(set_state (s_name (step_at i ?c)) (f_status f) ?d)\<lparr>x_world := w1\<rparr>"
      show "W (x_world ?e)" using w1 by simp
      fix w2 assume "W w2"
      from progress_world[OF progress_world[OF p w1] this]
      show "advances W b i (Continue, ?e\<lparr>x_world := w2\<rparr>)" by (auto simp: advances_def)
    qed
  qed
  show ?thesis
    unfolding run_job_def Let_def
    by (rule advances_call[OF ans(1) world[OF c]], rule advances_call[OF ans(2)], simp, rule advances_call[OF ans(3)], simp,
        rule advances_call[OF ans(4)], simp) (drule final[unfolded Let_def], assumption, simp)
qed

lemma progress_step:
  assumes p: "progress W b i c" and "covered b" and "benign W ops" and i: "i < length (b_steps b)"
  shows "advances W b i (run_step ops retry i c)"
proof -
  let ?s = "b_steps b ! i"
  have un: "untouched ?s" using assms(2) i by (auto simp: covered_def list_all_length)
  obtain wall out where cost: "step_cost (s_request ?s) = Inr (wall, out)" "cost_of ?s = (wall, out)"
    using un by (auto simp: untouched_def is_ok_iff cost_of_def)
  have W: "W (x_world c)" "\<not> op_lost ops (x_world c)"
    using p assms(3) by (simp_all add: progress_def benign_def)
  have ans: "answers W (op_cancelled ops) (\<lambda>f. \<not> f)" "answers W (op_save ops bb) (\<lambda>_. True)" "answers W (op_prepare ops a) (\<lambda>_. True)" for bb a
    using assms(3) unfolding benign_def by blast+
  have world: "progress W b i (c\<lparr>x_world := w\<rparr>)" if "W w" for w
    using p that by (simp add: progress_def step_at_def)
  have rest: "advances W b i (seq (seq (seq (check_done i c) (resume ops retry i)) (submit ops i)) (run_job ops i))"
    if p: "progress W b i c" for c
  proof -
    have s: "step_at i c = ?s" and Wc: "W (x_world c)" using p i by (simp_all add: progress_def)
    have "check_done i c = (Next, c)"
      using un progress_ready[OF p assms(2) i] by (simp add: check_done_def s untouched_def succeeded_def)
    moreover have "resume ops retry i c = (Next, c)"
      using un by (simp add: resume_def s untouched_def)
    moreover have "advances W b i (seq (submit ops i c) (run_job ops i))"
    proof -
      note r = inside_reserve[OF p i cost(2)]
      then have Wr: "W (x_world (reserve i wall out c))" by (simp add: inside_def)
      show ?thesis
      proof -
        let ?k = "\<lambda>c. seq (call (op_prepare ops (jput ''idempotency_key'' (JStr (s_key (step_at i c))) (s_request (step_at i c)))) c
            (\<lambda>j c. (Next, set_step i (\<lambda>s. s\<lparr>s_job := Some j, s_attempt := s_attempt s + 1, s_reserved := False\<rparr>) c)))
            (run_job ops i)"
        have prepared: "advances W b i (?k c)" if c: "inside W b i c" for c
          unfolding seq_call
        proof (rule advances_call[OF ans(3)])
          show "W (x_world c)" using c by (simp add: inside_def)
          fix j w assume "W w"
          have "inside W b i (set_step i (\<lambda>s. s\<lparr>s_job := Some j, s_attempt := s_attempt s + 1, s_reserved := False\<rparr>)
              (c\<lparr>x_world := w\<rparr>))"
            by (rule inside_step[OF inside_world[OF c \<open>W w\<close>]]) simp
          from run_job_advances[OF this assms(3)]
          show "advances W b i (seq (Next, set_step i (\<lambda>s. s\<lparr>s_job := Some j, s_attempt := s_attempt s + 1, s_reserved := False\<rparr>)
              (c\<lparr>x_world := w\<rparr>)) (run_job ops i))" by simp
        qed
        have "submit ops i c = seq (call (op_save ops (x_batch (reserve i wall out c))) (reserve i wall out c) (\<lambda>_ c. (Next, c)))
            (\<lambda>c. call (op_prepare ops (jput ''idempotency_key'' (JStr (s_key (step_at i c))) (s_request (step_at i c)))) c
              (\<lambda>j c. (Next, set_step i (\<lambda>s. s\<lparr>s_job := Some j, s_attempt := s_attempt s + 1, s_reserved := False\<rparr>) c)))"
          using un progress_affordable[OF p assms(2) i cost(1)] by (simp add: submit_def s cost(1) untouched_def Let_def)
        moreover have "advances W b i (call (op_save ops (x_batch (reserve i wall out c))) (reserve i wall out c) (\<lambda>_. ?k))"
          by (rule advances_call[OF ans(2) Wr]) (rule prepared[OF inside_world[OF r]])
        ultimately show ?thesis by (simp add: seq_call)
      qed
    qed
    ultimately show ?thesis by simp
  qed
  show ?thesis
    unfolding run_step_def check_run_def using W(2)
    by (simp add: seq_call) (rule advances_call[OF ans(1) W(1)], simp add: rest world)
qed

lemma progress_steps:
  assumes "progress W b i c" and "covered b" and "benign W ops" and "i + k = length (b_steps b)"
  shows "\<exists>c'. run_steps ops retry [i..<length (b_steps b)] c = (None, c') \<and> progress W b (length (b_steps b)) c'"
  using assms(1,4)
proof (induction k arbitrary: i c)
  case 0
  then show ?case by simp
next
  case (Suc k)
  then have i: "i < length (b_steps b)" by simp
  from progress_step[OF Suc.prems(1) assms(2,3) i, of retry] obtain c1 where
    c1: "run_step ops retry i c = (Continue, c1)" "progress W b (Suc i) c1" by (auto simp: advances_def)
  have "[i..<length (b_steps b)] = i # [Suc i..<length (b_steps b)]" using i by (simp add: upt_conv_Cons)
  then show ?case using c1 Suc.IH[OF c1(2)] Suc.prems(2) by simp
qed

lemma completes:
  assumes "covered b" and "benign W ops" and "W w"
  shows "\<exists>b' w'. batch_run ops retry b w = (None, b', w') \<and> b_status b' = ''completed'' \<and>
    map s_name (b_steps b') = map s_name (b_steps b) \<and> (\<forall>s \<in> set (b_steps b'). s_status s = ''completed'')"
proof -
  have ans: "answers W (op_save ops bb) (\<lambda>_. True)" "answers W (op_event ops k d) (\<lambda>_. True)" for bb k d
    using assms(2) unfolding benign_def by blast+
  let ?b = "b\<lparr>b_status := ''running''\<rparr>"
  obtain u w1 where w1: "op_save ops ?b w = Inr (u, w1)" "W w1"
    using ans(1) assms(3) unfolding answers_def by blast
  have "progress W b 0 \<lparr>x_batch = ?b, x_states = [], x_world = w1\<rparr>"
    using w1(2) by (simp add: progress_def step_at_def)
  from progress_steps[OF this assms(1,2), of "length (b_steps b)" retry] obtain c where
    c: "run_steps ops retry [0..<length (b_steps b)] \<lparr>x_batch = ?b, x_states = [], x_world = w1\<rparr> = (None, c)"
      "progress W b (length (b_steps b)) c" by auto
  have all: "\<forall>s \<in> set (b_steps (x_batch c)). s_status s = ''completed''"
    using c(2) progress_length[OF c(2)] by (auto simp: progress_def step_at_def in_set_conv_nth)
  then have con: "b_status (conclude (x_batch c)) = ''completed''" "b_steps (conclude (x_batch c)) = b_steps (x_batch c)"
    using c(2) by (simp_all add: conclude_def progress_def list_all_iff succeeded_def)
  have "W (x_world c)" using c(2) by (simp add: progress_def)
  then obtain u2 w2 where w2: "op_save ops (conclude (x_batch c)) (x_world c) = Inr (u2, w2)" "W w2"
    using ans(1) unfolding answers_def by blast
  then obtain u3 w3 where w3: "op_event ops ''run_finished'' (jobj [(''status'', JStr ''completed'')]) w2 = Inr (u3, w3)"
    using ans(2) unfolding answers_def by blast
  have "batch_run ops retry b w = (None, conclude (x_batch c), op_release ops w3)"
    using w1(1) c(1) w2(1) w3 con(1) by (simp add: batch_run_def guarded_run_def Let_def)
  then show ?thesis using all con c(2) by (simp add: progress_def)
qed

section \<open>Properties\<close>

text \<open>
  C37. In every table of batches that any history of creations, cancellations, heartbeats, runs and crashes
  produces, every batch stays within its budget: the reserved wall time, the reserved output and the number of
  started jobs never exceed what it was created with, no step is submitted more than twice, step names are
  distinct and each dependency names a preceding step.
\<close>

theorem batches_stay_within:
  assumes "batch_history db" and "row \<in> set (bd_rows db)"
  shows "b_reserved_wall (br_batch row) \<le> b_wall (br_batch row) \<and> b_reserved_output (br_batch row) \<le> b_output (br_batch row) \<and>
    b_started (br_batch row) \<le> b_jobs (br_batch row) \<and> (\<forall>s \<in> set (b_steps (br_batch row)). s_attempt s \<le> 2) \<and>
    distinct (map s_name (b_steps (br_batch row))) \<and>
    (\<forall>i < length (b_steps (br_batch row)). \<forall>d \<in> set (s_deps (b_steps (br_batch row) ! i)).
       \<exists>j < i. s_name (b_steps (br_batch row) ! j) = d)"
  using history_ok[OF assms(1)] assms(2) by (auto simp: db_ok_def batch_ok_def step_ok_def deps_precede_def)

text \<open>
  C38. Whatever happens around it, a run leaves the plan and the finished steps of its batch as they were, and it
  submits a step only when every step it depends on has completed - or is partial, where the step allows it -
  and still has that status in the record that the run returns or leaves behind.
\<close>

theorem run_respects_dependencies:
  assumes "batch_ok b" and "batch_run ops retry b w = (e, b', w')" and "j < length (b_steps b)"
  shows "map plan (b_steps b') = map plan (b_steps b) \<and>
    (succeeded (s_status (b_steps b ! j)) True \<longrightarrow> b_steps b' ! j = b_steps b ! j) \<and>
    (s_attempt (b_steps b ! j) < s_attempt (b_steps b' ! j) \<longrightarrow>
       (\<forall>d \<in> set (s_deps (b_steps b ! j)). \<exists>k < j. s_name (b_steps b' ! k) = d \<and>
          succeeded (s_status (b_steps b' ! k)) (s_partial (b_steps b ! j))))"
proof -
  have r: "same_plan b b'" "settled b b' j"
    using any_run.batch_run_inv[OF assms(1) TrueI assms(2)] assms(3) by simp_all
  then have plans: "map plan (b_steps b') = map plan (b_steps b)" by (simp add: same_plan_def)
  show ?thesis
    using r(2) plans plan_nth(2,3)[OF plans assms(3)] by (simp add: settled_def Let_def)
qed


section \<open>A batch and its run\<close>

definition demo_ops :: "nat run_ops" where
  "demo_ops = \<lparr>op_lost = (\<lambda>w. False), op_cancelled = (\<lambda>w. Inr (False, w)), op_save = (\<lambda>b w. Inr ((), Suc w)),
     op_event = (\<lambda>k d w. Inr ((), w)), op_job = (\<lambda>j w. Inr (\<lparr>v_state = ''queued'', v_result = None, v_rev = JNull\<rparr>, w)),
     op_recover = (\<lambda>w. Inr ((), w)), op_prepare = (\<lambda>a w. Inr (''job_1'', w)),
     op_execute = (\<lambda>j w. Inr (\<lparr>f_status = ''completed'', f_revision = JNull, f_evidence = JArr []\<rparr>, w)),
     op_release = (\<lambda>w. w)\<rparr>"

definition demo_batch_step :: "string \<Rightarrow> string list \<Rightarrow> batch_step" where
  "demo_batch_step name deps = \<lparr>s_name = name, s_deps = deps, s_partial = False, s_request = demo_pinned, s_status = ''pending'',
     s_attempt = 0, s_job = None, s_reserved = False, s_key = [], s_revision = JNull, s_evidence = JArr [], s_retry = []\<rparr>"

definition demo_batch :: batch where
  "demo_batch = \<lparr>b_id = ''b1'', b_project = ''p'', b_title = ''t'', b_status = ''queued'',
     b_steps = [demo_batch_step ''a'' [], demo_batch_step ''b'' [''a'']], b_wall = 600000, b_output = 16777216, b_memory = 2147483648,
     b_jobs = 64, b_reserved_wall = 0, b_reserved_output = 0, b_started = 0, b_created = ''t0''\<rparr>"

lemma jsub_present: "jat k j = Inr v \<Longrightarrow> jsub k j = Inr v"
  by (auto simp: jat_eq_Inr jsub_def)

lemma demo_pinned_budget: "jsub ''budget'' demo_pinned = Inr (jobj [(''wall_ms'', jnat 5000), (''output_bytes'', jnat 2097152),
    (''memory_bytes'', jnat 2147483648), (''max_items'', jnat 2048)])"
  by (rule jsub_present) (simp add: demo_pinned_def jat_jput_obj del: jat_jput)

lemma demo_cost: "step_cost demo_pinned = Inr (5000, 2097152)"
  by (simp add: step_cost_def demo_pinned_budget jvalue_u64_jobj)

lemma demo_covered: "covered demo_batch" "batch_ok demo_batch"
  by (simp_all add: covered_def batch_ok_def demo_batch_def demo_batch_step_def untouched_def cost_of_def demo_cost step_ok_def
      deps_precede_def less_Suc_eq)

lemma demo_benign: "benign (\<lambda>_. True) demo_ops"
  by (simp add: benign_def answers_def demo_ops_def ex_bool_eq)


theorem run_respects_dependencies_witness:
  "\<exists>b' w'. batch_run demo_ops False demo_batch 0 = (None, b', w') \<and> b_status b' = ''completed'' \<and>
     map plan (b_steps b') = map plan (b_steps demo_batch)"
proof -
  obtain b' w' where run: "batch_run demo_ops False demo_batch 0 = (None, b', w')" "b_status b' = ''completed''"
    using completes[OF demo_covered(1) demo_benign TrueI, of False 0] by auto
  have "1 < length (b_steps demo_batch)" by (simp add: demo_batch_def)
  from run_respects_dependencies[OF demo_covered(2) run(1) this] run show ?thesis by blast
qed

definition demo_batch_request :: json where
  "demo_batch_request = jobj [(''steps'', JArr [jobj [(''name'', JStr ''a''), (''request'', demo_pinned)]]), (''budget'', JObj [])]"

lemma demo_batch_step_action: "step_action any_schema demo_artifacts ''p'' 2147483648 demo_pinned = Inr demo_pinned"
proof -
  have f: "jat ''project'' demo_pinned = Inr (JStr ''p'')" "jat ''backend'' demo_pinned = Inr (JStr ''xair'')"
    "jat ''operation'' demo_pinned = Inr (JStr ''cfg'')" "jat ''target_id'' demo_pinned = Inr (JStr ''tgt_1'')"
    "jat ''artifact_sha256'' demo_pinned = Inr (JStr demo_sha)" "contains demo_pinned ''budget''"
    "\<not> contains demo_pinned ''idempotency_key''" "contains demo_pinned ''project''" "is_object demo_pinned"
    by (simp_all add: demo_pinned_def demo_action_fields jat_jput_obj del: jat_jput)
      (simp_all add: demo_action_def json_simps)
  note same = jput_same[OF demo_pinned_ok]
  have "jset ''project'' (JStr ''p'') demo_pinned = Inr demo_pinned"
    using same[OF f(1)] by (simp add: jset_object f(9))
  then show ?thesis
    using f same[OF f(4)] same[OF f(5)] demo_target_ok demo_renormalized
    by (simp add: step_action_def jstr_at_def jvalue_str_def jvalue_present backend_operations_def)
qed

lemma demo_created:
  "\<exists>b db. batch_create any_schema demo_artifacts \<lparr>bd_rows = [], bd_events = []\<rparr> ''p'' demo_batch_request ''b1'' ''t0'' = Inr (b, db) \<and>
     b_wall b = 600000 \<and> bd_rows db = [\<lparr>br_batch = b, br_owner = [], br_deadline = 0, br_cancel = False\<rparr>]"
proof -
  let ?step = "jobj [(''name'', JStr ''a''), (''request'', demo_pinned)]"
  have step: "add_step any_schema demo_artifacts ''p'' (600000, 16777216, 2147483648) ?step ([], []) = Inr ([''a''], [demo_batch_step ''a'' []])"
    using demo_batch_step_action
    by (simp add: add_step_def json_simps check_keys_jobj[THEN iffD2] jstr_at_def check_identifier_def identifier_chars_def
        check_ceiling_def demo_pinned_budget jvalue_u64_jobj jvalue_bool_def jbool_def sset_insert_def demo_batch_step_def)
  have r: "check_keys demo_batch_request [''project'', ''steps'', ''budget'', ''title''] = Inr ()"
    "jat ''steps'' demo_batch_request = Inr (JArr [?step])" "jat ''budget'' demo_batch_request = Inr (JObj [])"
    "jvalue_str ''title'' d demo_batch_request = Inr d" for d
    by (simp_all add: demo_batch_request_def json_simps check_keys_jobj[THEN iffD2] jvalue_str_def)
  have "check_keys (JObj []) ks = Inr ()" "bound (JObj []) k d n = Inr d" for ks k d n
    by (simp_all add: check_keys_def bound_def entries_def)
  then show ?thesis
    using step by (simp add: batch_create_def r json_simps jempty_def Let_def batch_log_def)
qed

theorem batches_stay_within_witness:
  "\<exists>db row. batch_history db \<and> row \<in> set (bd_rows db) \<and> b_wall (br_batch row) = 600000 \<and> b_reserved_wall (br_batch row) \<le> 600000"
proof -
  obtain b db where c: "batch_create any_schema demo_artifacts \<lparr>bd_rows = [], bd_events = []\<rparr> ''p'' demo_batch_request ''b1'' ''t0'' = Inr (b, db)"
    "b_wall b = 600000" "bd_rows db = [\<lparr>br_batch = b, br_owner = [], br_deadline = 0, br_cancel = False\<rparr>]"
    using demo_created by blast
  have h: "batch_history db" by (rule batch_history.created[OF batch_history.empty c(1)])
  from batches_stay_within[OF this, of "\<lparr>br_batch = b, br_owner = [], br_deadline = 0, br_cancel = False\<rparr>"] c h
  show ?thesis by fastforce
qed

end
