(* ===== verification/Spec2Isabelle.thy ===== *)
theory Spec2Isabelle
  imports
    Ind_Airece
    Ind_Artifact
    Ind_Base
    Ind_Batch
    Ind_Benchmark
    Ind_Boundary
    Ind_Calc
    Ind_Chars
    Ind_Contract
    Ind_Evaluation
    Ind_Evidence
    Ind_Image
    Ind_Index
    Ind_Inputs
    Ind_Jobs
    Ind_Json
    Ind_Knowledge
    Ind_Launch
    Ind_Ledger
    Ind_Manifest
    Ind_Map
    Ind_Number
    Ind_Packets
    Ind_Proofs
    Ind_Publish
    Ind_Receipts
    Ind_Research
    Ind_Revision
    Ind_Route
    Ind_Runner
    Ind_Runs
    Ind_Scope
    Ind_Service
    Ind_Sha256
    Ind_Store
    Ind_Validate
    Ind_Weight
    Ind_Workbench
begin

text \<open>
  A model of the core of IndagoRev, a workbench for reverse engineering that keeps what it learns about a target
  as evidence.  The program is C++ under \<^verbatim>\<open>src/\<close> with one analysis component under
  \<^verbatim>\<open>components/airece\<close>; paths below are relative to the root of the repository.  This theory imports the whole
  development; each theory opens with the files that it models.

  \<^bold>\<open>The program.\<close>  Targets are imported into a content store that is addressed by SHA-256 and never changes.  An
  analysis is a job of the project store: a request is normalized by the service, started under an idempotency
  key, claimed by one worker under a lease, and closed by the publication of its result, which writes the raw
  bytes, an evidence record, an envelope that satisfies a contract schema, and the functions found.  A batch
  runs a list of such requests under a budget.  On top of it the knowledge base keeps revisions of records that
  name the evidence they depend on, with optimistic concurrency and a freshness judgement over the dependency
  graph.  An investigation sees a scope of components of one target, reads bounded pages of artifacts, evidence
  and index entries, checks claims about them, and reports only what bound proof records support.  The
  research workflow derives inputs, comparisons, service contracts and evaluations as sealed records; the system
  manifests describe multi-component targets and are checked before a launch.

  \<^bold>\<open>Conventions.\<close>  A function that may throw returns a value of \<^verbatim>\<open>error + 'a\<close>; a throw carries the
  message of the source, and an exception of a library is a constructor of its own.  Operations of the database are
  functions on records of tables, and a transaction that throws has no successor state; where the code changes
  something before it throws, the function returns the state beside the outcome.  Integers of 64 and 32 bits are
  words where the code lets them wrap and naturals where a check before the operation excludes it.  JSON values are a
  datatype with the kinds of \<^verbatim>\<open>nlohmann::json\<close>; object members are sorted lists, as in that library.
  Clocks, random identifiers, the parser of stored texts, the schema files, the backends, the full-text index and the
  decoder of instructions are arguments of the definitions that use them.

  \<^bold>\<open>Prelude.\<close>  \<^verbatim>\<open>Ind_Base\<close> (results that may throw, loops, strings, characters),
  \<^verbatim>\<open>Ind_Map\<close> (ordered maps; the locale \<^verbatim>\<open>dict\<close>), \<^verbatim>\<open>Ind_Chars\<close> (numbers and
  hexadecimal text), \<^verbatim>\<open>Ind_Json\<close> (values, access, equality, serialization, pointers),
  \<^verbatim>\<open>Ind_Weight\<close> (an upper bound on serialized lengths, which discharges the byte limits).

  \<^bold>\<open>Store and jobs.\<close>  \<^verbatim>\<open>Ind_Sha256\<close> (\<^verbatim>\<open>sha256.cpp\<close>: the streaming hasher equals a
  direct transcription of the standard on the padded message; locale \<^verbatim>\<open>stream_hasher\<close>),
  \<^verbatim>\<open>Ind_Workbench\<close> (\<^verbatim>\<open>workbench_db.hpp\<close>: request checks and the content store, locale
  \<^verbatim>\<open>content_store\<close>), \<^verbatim>\<open>Ind_Contract\<close> (\<^verbatim>\<open>contracts.cpp\<close> and the schema
  files), \<^verbatim>\<open>Ind_Store\<close> and \<^verbatim>\<open>Ind_Publish\<close> (\<^verbatim>\<open>core.cpp\<close>,
  \<^verbatim>\<open>workbench_publication.hpp\<close>), and \<^verbatim>\<open>Ind_Jobs\<close>: a step relation over all job
  operations, the invariant of the tables, and the refinement of the tables to the phases of a job, from which
  ownership, finality, recovery and the publication rule follow.

  \<^bold>\<open>Service and batches.\<close>  \<^verbatim>\<open>Ind_Service\<close> (\<^verbatim>\<open>service.cpp\<close>: a normalized action is
  typed and is its own normal form), \<^verbatim>\<open>Ind_Batch\<close>, \<^verbatim>\<open>Ind_Runner\<close> and
  \<^verbatim>\<open>Ind_Runs\<close> (\<^verbatim>\<open>workbench_batch.cpp\<close>: the run loop over the operations that it calls,
  locale \<^verbatim>\<open>run_world\<close>, interpreted on the service; budgets, dependencies and completion of a run).

  \<^bold>\<open>Knowledge.\<close>  \<^verbatim>\<open>Ind_Knowledge\<close> (\<^verbatim>\<open>knowledge.cpp\<close>) and
  \<^verbatim>\<open>Ind_Revision\<close>: the tables refine a store of versioned texts (locale \<^verbatim>\<open>versioned\<close>), so
  no update is lost and no revision changes; freshness and impact are bounded.  \<^verbatim>\<open>Ind_Boundary\<close> (the scope check in
  \<^verbatim>\<open>model_controller.cpp\<close>): what passes it rests only on components of the investigation, stated on the
  components themselves.

  \<^bold>\<open>Investigation.\<close>  \<^verbatim>\<open>Ind_Scope\<close> (\<^verbatim>\<open>harness_scope.hpp\<close>), \<^verbatim>\<open>Ind_Number\<close>
  (the readers of integers), \<^verbatim>\<open>Ind_Artifact\<close> (\<^verbatim>\<open>harness_artifact_read.hpp\<close>),
  \<^verbatim>\<open>Ind_Evidence\<close> (\<^verbatim>\<open>harness_evidence_read.hpp\<close>), \<^verbatim>\<open>Ind_Index\<close>
  (\<^verbatim>\<open>harness_index_read.hpp\<close>, \<^verbatim>\<open>model_credentials.hpp\<close>), \<^verbatim>\<open>Ind_Calc\<close>
  (\<^verbatim>\<open>harness_calculation.hpp\<close>), \<^verbatim>\<open>Ind_Validate\<close> (\<^verbatim>\<open>harness_validation.hpp\<close>) and
  \<^verbatim>\<open>Ind_Proofs\<close> (\<^verbatim>\<open>harness_verification.hpp\<close>, \<^verbatim>\<open>model_fact_ledger.hpp\<close>): a page is
  exactly the bytes or values that it names, a passed validation is every check passed, and a report rests on bound and
  intact proofs.

  \<^bold>\<open>Research and systems.\<close>  \<^verbatim>\<open>Ind_Research\<close>, \<^verbatim>\<open>Ind_Evaluation\<close>,
  \<^verbatim>\<open>Ind_Receipts\<close> and \<^verbatim>\<open>Ind_Ledger\<close> (\<^verbatim>\<open>research_workflow.cpp\<close>),
  \<^verbatim>\<open>Ind_Benchmark\<close> (\<^verbatim>\<open>benchmark.hpp\<close>: a score of all solved rests on a verified grade per
  challenge);
  \<^verbatim>\<open>Ind_Manifest\<close> and \<^verbatim>\<open>Ind_Launch\<close> (\<^verbatim>\<open>system_manifest.cpp\<close>: paths
  stay inside the guest root, components do not overlap, launches respect dependencies, a preflight verifies).

  \<^bold>\<open>Around the runtime.\<close>  \<^verbatim>\<open>Ind_Image\<close> (\<^verbatim>\<open>runtime_image.cpp\<close>: the reported layout covers
  the load segments without wrap-around), \<^verbatim>\<open>Ind_Route\<close> (\<^verbatim>\<open>artifact_route.hpp\<close>,
  \<^verbatim>\<open>payload_identity.hpp\<close>), \<^verbatim>\<open>Ind_Packets\<close> (\<^verbatim>\<open>packet_streams.hpp\<close>),
  \<^verbatim>\<open>Ind_Inputs\<close> (\<^verbatim>\<open>runtime_inputs.hpp\<close>, \<^verbatim>\<open>rr_trace.hpp\<close>,
  \<^verbatim>\<open>runtime_call_identity.hpp\<close>), \<^verbatim>\<open>Ind_Airece\<close> (the table of system calls and the
  decode cache of the analysis component).

  \<^bold>\<open>Fuel and bounds.\<close>  The impact query runs its work list with one more unit of fuel than the limit of the
  request, and is proved to return within it.  The walk over packet layers has the thirteen levels that the
  code visits; a node below them only sets the marker, as in the code.  The repetitions of the pattern matcher have
  the length of the text as fuel, each repetition consuming a character.  The depth of the freshness judgement and of
  the scope check is the bound of the code.  All other recursions are structural or have a termination proof.

  \<^bold>\<open>Not modelled.\<close>  Processes, pipes, debuggers, emulators and guests
  (\<^verbatim>\<open>runtime*.cpp\<close> beyond the parts above, \<^verbatim>\<open>*_backend.cpp\<close>, \<^verbatim>\<open>guest.cpp\<close>,
  \<^verbatim>\<open>analysis_helper.cpp\<close>), the dialogue with a language model (\<^verbatim>\<open>model_controller.cpp\<close>,
  \<^verbatim>\<open>model_http.cpp\<close>, \<^verbatim>\<open>model_provider.cpp\<close>) beyond the scope check and the ledgers, the
  action dispatcher and the experiments (\<^verbatim>\<open>harness.cpp\<close>, \<^verbatim>\<open>harness_experiment.cpp\<close>), the
  index and graph queries, whose logic is SQL text (\<^verbatim>\<open>static_index.cpp\<close>,
  \<^verbatim>\<open>knowledge_graph.cpp\<close>), exports and bundles, the archive tool of the benchmark, the command line and
  the graphical workbench; and the semantic views of \<^verbatim>\<open>airece\<close>, which traverse an intermediate language
  whose sources are a submodule outside the repository.  Failures of the file system and of the database itself
  (other than a violated constraint) do not occur in the model, and a file does not change while an operation reads it
  unless the code checks for that.

  \<^bold>\<open>Findings.\<close>  \<^verbatim>\<open>harness_unsigned\<close> accepts the prefix \<^verbatim>\<open>0X\<close> that
  \<^verbatim>\<open>runtime_number\<close> rejects (lemma \<^verbatim>\<open>prefix_disagreement\<close>), and the calculator's default
  number of iterations is not checked against the limit that an explicit number has.
\<close>

end
